(* ===== verification/Prelude.thy ===== *)
theory Prelude
  imports Complex_Main "HOL-Library.Multiset"
begin

text \<open>
  Shared vocabulary of the development: JavaScript strings, the exceptions a handler can
  throw, and the stateful computations a service method is.

  A JavaScript string is a sequence of UTF-16 code units, so a \<open>jstring\<close> is a list of
  natural numbers and \<open>length\<close> counts what \<open>String.length\<close> counts; \<open>js ''abc''\<close> is the
  literal \<open>'abc'\<close>. A service method is an \<open>act\<close>: it takes the state and returns either
  the exception it throws or its result, together with the state it leaves behind (a thrown
  exception does not undo the effects already performed).
\<close>

section \<open>Collections of rules\<close>

named_theorems act_simps \<open>unfolding of the computation combinators\<close>
named_theorems keeps_intro \<open>frame rules: a computation only makes steps of a given relation\<close>
named_theorems flow_simps \<open>runs of the combinators, read backwards\<close>
named_theorems inv_simps \<open>runs of the database and audit calls, read backwards\<close>

section \<open>JavaScript strings\<close>

type_synonym jstring = "nat list"

definition js :: "string \<Rightarrow> jstring" where
  "js s = map of_char s"

lemma js_eq_iff [simp]: "js s = js t \<longleftrightarrow> s = t"
  by (simp add: js_def inj_map_eq_map inj_def)

lemma js_append: "js (s @ t) = js s @ js t"
  by (simp add: js_def)

lemma length_js [simp]: "length (js s) = length s"
  by (simp add: js_def)

text \<open>An identifier that the database has not assigned yet (\<open>undefined\<close> in the code).\<close>

type_synonym uuid = jstring

definition no_id :: uuid where
  "no_id = []"

text \<open>The decimal numeral a template literal prints for a non-negative integer.\<close>

fun digits :: "nat \<Rightarrow> jstring" where
  "digits n = (if n < 10 then [48 + n] else digits (n div 10) @ [48 + n mod 10])"

declare digits.simps [simp del]

definition undigits :: "jstring \<Rightarrow> nat" where
  "undigits s = foldl (\<lambda>acc d. 10 * acc + (d - 48)) 0 s"

lemma undigits_digits [simp]: "undigits (digits n) = n"
proof (induction n rule: digits.induct)
  case (1 n)
  show ?case
  proof (cases "n < 10")
    case True
    then show ?thesis by (subst digits.simps) (simp add: undigits_def)
  next
    case False
    with 1 have "undigits (digits (n div 10)) = n div 10" by simp
    with False show ?thesis by (subst digits.simps) (simp add: undigits_def)
  qed
qed

lemma digits_inject [simp]: "digits m = digits n \<longleftrightarrow> m = n"
  by (metis undigits_digits)

lemma digits_range: "d \<in> set (digits n) \<Longrightarrow> 48 \<le> d \<and> d \<le> 57"
proof (induction n rule: digits.induct)
  case (1 n)
  show ?case
  proof (cases "n < 10")
    case True
    with 1 show ?thesis by (subst (asm) (2) digits.simps) auto
  next
    case False
    from 1(2) False have "d \<in> set (digits (n div 10)) \<or> d = 48 + n mod 10"
      by (subst (asm) digits.simps) auto
    with 1(1) False show ?thesis by auto
  qed
qed

lemma digits_nonempty [simp]: "digits n \<noteq> []"
  by (subst digits.simps) simp

text \<open>The same for any integer.\<close>

definition show_int :: "int \<Rightarrow> jstring" where
  "show_int n = (if n < 0 then js ''-'' @ digits (nat (- n)) else digits (nat n))"

text \<open>
  Two strings with a separator between them are split at the first separator: if neither
  left part contains it, equal concatenations have equal parts. Link and cache-key
  injectivity rest on this.
\<close>

lemma split_at_sep:
  assumes "c \<notin> set xs" and "c \<notin> set xs'" and "xs @ c # ys = xs' @ c # ys'"
  shows "xs = xs' \<and> ys = ys'"
  using assms
proof (induction xs arbitrary: xs')
  case Nil
  then show ?case by (cases xs') auto
next
  case (Cons x xs)
  then show ?case by (cases xs') auto
qed

text \<open>An optional string used as a condition: \<open>undefined\<close>, \<open>null\<close> and \<open>''\<close> are falsy.\<close>

definition truthy :: "jstring option \<Rightarrow> jstring option" where
  "truthy x = (case x of Some s \<Rightarrow> (if s = [] then None else Some s) | None \<Rightarrow> None)"

definition or_default :: "'a option \<Rightarrow> 'a \<Rightarrow> 'a" where
  "or_default x d = (case x of None \<Rightarrow> d | Some a \<Rightarrow> a)"

section \<open>JSON values\<close>

text \<open>
  What the audit log stores for a row, and the body of a request: JSON values, and \<open>undefined\<close>
  and \<open>NaN\<close> (or an infinity), which only arise inside the program.
\<close>

datatype jval =
    JUndefined
  | JNull
  | JNaN
  | JBool bool
  | JNum rat
  | JArr "jval list"
  | JStr jstring
  | JObj "(string \<times> jval) list"

definition jopt :: "('a \<Rightarrow> jval) \<Rightarrow> 'a option \<Rightarrow> jval" where
  "jopt f x = (case x of None \<Rightarrow> JUndefined | Some a \<Rightarrow> f a)"

definition jnullable :: "('a \<Rightarrow> jval) \<Rightarrow> 'a option \<Rightarrow> jval" where
  "jnullable f x = (case x of None \<Rightarrow> JNull | Some a \<Rightarrow> f a)"

section \<open>Exceptions\<close>

text \<open>
  The body a Nest \<open>HttpException\<close> carries: a plain string, or an object whose \<open>message\<close> is
  a string or a list of strings and whose \<open>error\<close> may be absent. \<open>Nontermination\<close> is no
  exception of the program: a computation whose loop never ends has no outcome, and this value
  makes that visible where a total function must give one.
\<close>

datatype exn_message = MsgStr jstring | MsgList "jstring list"

datatype exn_body = BodyString jstring | BodyObject exn_message "jstring option"

datatype exn =
    HttpException nat exn_body
  | QueryFailed jstring
  | OptimisticLockMismatch
  | OtherError jstring
  | Nontermination

abbreviation BadRequestException :: "jstring \<Rightarrow> exn" where
  "BadRequestException m \<equiv> HttpException 400 (BodyObject (MsgStr m) (Some (js ''Bad Request'')))"

abbreviation UnauthorizedException :: "jstring \<Rightarrow> exn" where
  "UnauthorizedException m \<equiv> HttpException 401 (BodyObject (MsgStr m) (Some (js ''Unauthorized'')))"

abbreviation ForbiddenException :: "jstring \<Rightarrow> exn" where
  "ForbiddenException m \<equiv> HttpException 403 (BodyObject (MsgStr m) (Some (js ''Forbidden'')))"

abbreviation NotFoundException :: "jstring \<Rightarrow> exn" where
  "NotFoundException m \<equiv> HttpException 404 (BodyObject (MsgStr m) (Some (js ''Not Found'')))"

abbreviation ConflictException :: "jstring \<Rightarrow> exn" where
  "ConflictException m \<equiv> HttpException 409 (BodyObject (MsgStr m) (Some (js ''Conflict'')))"

abbreviation InternalServerErrorException :: "jstring \<Rightarrow> exn" where
  "InternalServerErrorException m \<equiv>
     HttpException 500 (BodyObject (MsgStr m) (Some (js ''Internal Server Error'')))"

text \<open>\<open>isUniqueViolation\<close>: an \<open>Error\<close> whose \<open>code\<close> is PostgreSQL's 23505.\<close>

fun isUniqueViolation :: "exn \<Rightarrow> bool" where
  "isUniqueViolation (QueryFailed code) = (code = js ''23505'')"
| "isUniqueViolation _ = False"

section \<open>Computations over a state\<close>

type_synonym ('s, 'a) act = "'s \<Rightarrow> (exn + 'a) \<times> 's"

definition ret :: "'a \<Rightarrow> ('s, 'a) act" where
  "ret x = (\<lambda>s. (Inr x, s))"

definition throw :: "exn \<Rightarrow> ('s, 'a) act" where
  "throw e = (\<lambda>s. (Inl e, s))"

definition andThen :: "('s, 'a) act \<Rightarrow> ('a \<Rightarrow> ('s, 'b) act) \<Rightarrow> ('s, 'b) act" where
  "andThen m k = (\<lambda>s. case m s of (Inl e, s') \<Rightarrow> (Inl e, s') | (Inr x, s') \<Rightarrow> k x s')"

definition catch :: "('s, 'a) act \<Rightarrow> (exn \<Rightarrow> ('s, 'a) act) \<Rightarrow> ('s, 'a) act" where
  "catch m h = (\<lambda>s. case m s of (Inl e, s') \<Rightarrow> h e s' | (Inr x, s') \<Rightarrow> (Inr x, s'))"

definition gets :: "('s \<Rightarrow> 'a) \<Rightarrow> ('s, 'a) act" where
  "gets f = (\<lambda>s. (Inr (f s), s))"

definition modify :: "('s \<Rightarrow> 's) \<Rightarrow> ('s, unit) act" where
  "modify f = (\<lambda>s. (Inr (), f s))"

definition ensure :: "bool \<Rightarrow> exn \<Rightarrow> ('s, unit) act" where
  "ensure b e = (if b then ret () else throw e)"

lemmas act_defs [act_simps] =
  ret_def throw_def andThen_def catch_def gets_def modify_def ensure_def

text \<open>A successful run of a sequence is two successful runs.\<close>

lemma andThen_Inr [flow_simps]:
  "andThen m k s = (Inr y, s'') \<longleftrightarrow> (\<exists>x s'. m s = (Inr x, s') \<and> k x s' = (Inr y, s''))"
  by (auto simp: andThen_def split: prod.splits sum.splits)

lemma andThen_Inl [flow_simps]:
  "andThen m k s = (Inl e, s'') \<longleftrightarrow>
     m s = (Inl e, s'') \<or> (\<exists>x s'. m s = (Inr x, s') \<and> k x s' = (Inl e, s''))"
  by (auto simp: andThen_def split: prod.splits sum.splits)

lemma ret_eq [flow_simps]: "ret x s = (r, s') \<longleftrightarrow> r = Inr x \<and> s' = s"
  by (auto simp: ret_def)

lemma throw_eq [flow_simps]: "throw e s = (r, s') \<longleftrightarrow> r = Inl e \<and> s' = s"
  by (auto simp: throw_def)

lemma gets_eq [flow_simps]: "gets f s = (r, s') \<longleftrightarrow> r = Inr (f s) \<and> s' = s"
  by (auto simp: gets_def)

lemma modify_eq [flow_simps]: "modify f s = (r, s') \<longleftrightarrow> r = Inr () \<and> s' = f s"
  by (auto simp: modify_def)

lemma ensure_Inr [flow_simps]: "ensure b e s = (Inr u, s') \<longleftrightarrow> b \<and> s' = s"
  by (auto simp: ensure_def ret_def throw_def)

lemma ensure_Inl [flow_simps]: "ensure b e s = (Inl e', s') \<longleftrightarrow> \<not> b \<and> e' = e \<and> s' = s"
  by (auto simp: ensure_def ret_def throw_def)

lemma catch_Inr [flow_simps]:
  "catch m h s = (Inr y, s'') \<longleftrightarrow>
     m s = (Inr y, s'') \<or> (\<exists>e s'. m s = (Inl e, s') \<and> h e s' = (Inr y, s''))"
  by (auto simp: catch_def split: prod.splits sum.splits)

lemma catch_Inl [flow_simps]:
  "catch m h s = (Inl e, s'') \<longleftrightarrow> (\<exists>e' s'. m s = (Inl e', s') \<and> h e' s' = (Inl e, s''))"
  by (auto simp: catch_def split: prod.splits sum.splits)

text \<open>One step forward.\<close>

lemma andThen_ok: "m w = (Inr x, w') \<Longrightarrow> andThen m k w = k x w'"
  by (simp add: andThen_def)

lemma andThen_gets: "andThen (gets f) k w = k (f w) w"
  by (simp add: andThen_def gets_def)

lemma andThen_ensure: "andThen (ensure b e) k w = (if b then k () w else (Inl e, w))"
  by (simp add: andThen_def ensure_def ret_def throw_def)

text \<open>A run of a sequence, whichever way it ends.\<close>

lemma andThenE:
  assumes "andThen m k s = (r, s'')"
  obtains (err) e where "m s = (Inl e, s'')" and "r = Inl e"
    | (ok) x s' where "m s = (Inr x, s')" and "k x s' = (r, s'')"
  using assms by (auto simp: andThen_def split: prod.splits sum.splits)

text \<open>
  The \<open>catch\<close> block every writing method ends with: a unique violation of the database
  becomes a conflict, any other error is rethrown.
\<close>

definition conflict_on_unique :: "jstring \<Rightarrow> ('s, 'a) act \<Rightarrow> ('s, 'a) act" where
  "conflict_on_unique msg m = catch m (\<lambda>error.
     if isUniqueViolation error then throw (ConflictException msg) else throw error)"

lemma conflict_on_unique_Inr [flow_simps]:
  "conflict_on_unique msg m s = (Inr y, s') \<longleftrightarrow> m s = (Inr y, s')"
  by (auto simp: conflict_on_unique_def catch_Inr throw_eq split: if_splits)

lemma conflict_on_unique_Inl [flow_simps]:
  "conflict_on_unique msg m s = (Inl e, s') \<longleftrightarrow>
     (\<exists>e'. m s = (Inl e', s') \<and> e = (if isUniqueViolation e' then ConflictException msg else e'))"
  by (auto simp: conflict_on_unique_def catch_Inl throw_eq split: if_splits)

section \<open>Frame relations\<close>

text \<open>
  \<open>keeps R m\<close>: every run of \<open>m\<close>, whether it returns or throws, moves the state along \<open>R\<close>.
  For a reflexive and transitive \<open>R\<close> (``the rows of other tenants are as before'', ``this
  table is untouched'') the rules below reduce the claim about a method to its steps.
\<close>

definition keeps :: "('s \<Rightarrow> 's \<Rightarrow> bool) \<Rightarrow> ('s, 'a) act \<Rightarrow> bool" where
  "keeps R m \<longleftrightarrow> (\<forall>s. R s (snd (m s)))"

lemma keepsD: "keeps R m \<Longrightarrow> m s = (r, s') \<Longrightarrow> R s s'"
  by (auto simp: keeps_def dest: spec [of _ s])

lemma keepsI: "(\<And>s r s'. m s = (r, s') \<Longrightarrow> R s s') \<Longrightarrow> keeps R m"
  by (metis keeps_def prod.collapse)

locale frame =
  fixes R :: "'s \<Rightarrow> 's \<Rightarrow> bool"
  assumes refl: "R s s"
    and trans: "R s t \<Longrightarrow> R t u \<Longrightarrow> R s u"
begin

lemma keeps_ret: "keeps R (ret x)"
  by (simp add: keeps_def ret_def refl)

lemma keeps_throw: "keeps R (throw e)"
  by (simp add: keeps_def throw_def refl)

lemma keeps_gets: "keeps R (gets f)"
  by (simp add: keeps_def gets_def refl)

lemma keeps_ensure: "keeps R (ensure b e)"
  by (simp add: ensure_def keeps_ret keeps_throw)

lemma keeps_modify: "(\<And>s. R s (f s)) \<Longrightarrow> keeps R (modify f)"
  by (simp add: keeps_def modify_def)

lemma keeps_andThen:
  assumes "keeps R m" and "\<And>x. keeps R (k x)"
  shows "keeps R (andThen m k)"
proof (rule keepsI)
  fix s r s''
  assume "andThen m k s = (r, s'')"
  then obtain r' s' where m: "m s = (r', s')"
    and rest: "s'' = s' \<or> (\<exists>x. k x s' = (r, s''))"
    by (auto simp: andThen_def split: prod.splits sum.splits)
  from assms(1) m have "R s s'" by (rule keepsD)
  moreover from rest have "R s' s''"
    using assms(2) by (auto intro: refl dest: keepsD)
  ultimately show "R s s''" by (rule trans)
qed

lemma keeps_catch:
  assumes "keeps R m" and "\<And>e. keeps R (h e)"
  shows "keeps R (catch m h)"
proof (rule keepsI)
  fix s r s''
  assume "catch m h s = (r, s'')"
  then obtain r' s' where m: "m s = (r', s')"
    and rest: "s'' = s' \<or> (\<exists>e. h e s' = (r, s''))"
    by (auto simp: catch_def split: prod.splits sum.splits)
  from assms(1) m have "R s s'" by (rule keepsD)
  moreover from rest have "R s' s''"
    using assms(2) by (auto intro: refl dest: keepsD)
  ultimately show "R s s''" by (rule trans)
qed

lemma keeps_conflict: "keeps R m \<Longrightarrow> keeps R (conflict_on_unique msg m)"
  unfolding conflict_on_unique_def by (rule keeps_catch) (simp_all add: keeps_throw)

lemma keeps_if: "(b \<Longrightarrow> keeps R m) \<Longrightarrow> (\<not> b \<Longrightarrow> keeps R n) \<Longrightarrow> keeps R (if b then m else n)"
  by simp

lemma keeps_option:
  "keeps R m \<Longrightarrow> (\<And>x. keeps R (k x)) \<Longrightarrow> keeps R (case v of None \<Rightarrow> m | Some x \<Rightarrow> k x)"
  by (cases v) simp_all

lemma keeps_prod: "(\<And>a b. keeps R (f a b)) \<Longrightarrow> keeps R (case p of (a, b) \<Rightarrow> f a b)"
  by (cases p) simp

lemma keeps_pure: "(\<And>s r s'. m s = (r, s') \<Longrightarrow> s' = s) \<Longrightarrow> keeps R m"
  by (rule keepsI) (metis refl)

lemmas keeps_rules =
  keeps_prod keeps_ret keeps_throw keeps_gets keeps_ensure keeps_andThen keeps_conflict keeps_catch
  keeps_if keeps_option

end

end
