(* ===== verification/Slug.thy ===== *)
theory Slug
  imports Prelude
begin

text \<open>
  \<open>src/common/utils/slug.util.ts\<close>: the slug of a category name. The string passes through the
  chain of \<open>replace\<close> calls of the source, one definition per call; lower-casing and Unicode
  decomposition are tables of the runtime and come in as the argument \<open>nfd\<close>. The lemmas show
  that every slug is in normal form, that normal forms are exactly the fixed points, and when
  the slug is empty.
\<close>

section \<open>The replace chain\<close>

text \<open>JavaScript's \<open>\s\<close>.\<close>

definition is_space :: "nat \<Rightarrow> bool" where
  "is_space c \<longleftrightarrow> (9 \<le> c \<and> c \<le> 13) \<or> c = 32 \<or> c = 160 \<or> c = 5760 \<or>
     (8192 \<le> c \<and> c \<le> 8202) \<or> c = 8232 \<or> c = 8233 \<or> c = 8239 \<or> c = 8287 \<or> c = 12288 \<or> c = 65279"

definition is_alnum :: "nat \<Rightarrow> bool" where
  "is_alnum c \<longleftrightarrow> (97 \<le> c \<and> c \<le> 122) \<or> (48 \<le> c \<and> c \<le> 57)"

definition is_hyphen :: "nat \<Rightarrow> bool" where
  "is_hyphen c \<longleftrightarrow> c = 45"

definition strip_accents :: "jstring \<Rightarrow> jstring" where
  "strip_accents = filter (\<lambda>c. \<not> (768 \<le> c \<and> c \<le> 879))"

definition strip_symbols :: "jstring \<Rightarrow> jstring" where
  "strip_symbols = filter (\<lambda>c. is_alnum c \<or> is_space c \<or> is_hyphen c)"

text \<open>\<open>replace(/[P]+/g, '-')\<close>: every maximal run of characters in \<open>P\<close> becomes one hyphen.\<close>

function replace_runs :: "(nat \<Rightarrow> bool) \<Rightarrow> jstring \<Rightarrow> jstring" where
  "replace_runs P [] = []"
| "replace_runs P (c # cs) =
     (if P c then 45 # replace_runs P (dropWhile P cs) else c # replace_runs P cs)"
  by pat_completeness auto
termination
  by (relation "measure (\<lambda>(P, cs). length cs)") (auto simp: le_imp_less_Suc length_dropWhile_le)

text \<open>\<open>replace(/^-+|-+$/g, '')\<close>\<close>

definition trim_hyphens :: "jstring \<Rightarrow> jstring" where
  "trim_hyphens s = rev (dropWhile is_hyphen (rev (dropWhile is_hyphen s)))"

definition generateSlug :: "(jstring \<Rightarrow> jstring) \<Rightarrow> jstring \<Rightarrow> jstring" where
  "generateSlug nfd input =
     trim_hyphens
       (replace_runs is_hyphen
         (replace_runs is_space
           (strip_symbols
             (strip_accents (nfd input)))))"

text \<open>For evaluation: look at the ASCII range first.\<close>

lemma is_space_code [code]:
  "is_space c = (if c < 128 then (9 \<le> c \<and> c \<le> 13) \<or> c = 32
     else c = 160 \<or> c = 5760 \<or> (8192 \<le> c \<and> c \<le> 8202) \<or> c = 8232 \<or> c = 8233 \<or> c = 8239 \<or>
       c = 8287 \<or> c = 12288 \<or> c = 65279)"
  by (auto simp: is_space_def)

lemma strip_accents_code [code]:
  "strip_accents s = filter (\<lambda>c. if c < 128 then True else \<not> (768 \<le> c \<and> c \<le> 879)) s"
  unfolding strip_accents_def by (rule filter_cong) auto

section \<open>Normal forms\<close>

text \<open>
  A slug: lower-case letters, digits and single hyphens, no hyphen at either end.
\<close>

fun no_double_hyphen :: "jstring \<Rightarrow> bool" where
  "no_double_hyphen (a # b # s) = (\<not> (is_hyphen a \<and> is_hyphen b) \<and> no_double_hyphen (b # s))"
| "no_double_hyphen _ = True"

definition slug_form :: "jstring \<Rightarrow> bool" where
  "slug_form s \<longleftrightarrow> (\<forall>c \<in> set s. is_alnum c \<or> is_hyphen c) \<and> no_double_hyphen s \<and>
     (s \<noteq> [] \<longrightarrow> \<not> is_hyphen (hd s) \<and> \<not> is_hyphen (last s))"

lemma char_classes [simp]:
  "is_hyphen 45" "\<not> is_space 45" "\<not> is_alnum 45"
  "is_alnum c \<Longrightarrow> \<not> is_space c" "is_alnum c \<Longrightarrow> \<not> is_hyphen c" "is_hyphen c \<Longrightarrow> \<not> is_space c"
  by (auto simp: is_hyphen_def is_space_def is_alnum_def)

lemma set_replace_runs: "set (replace_runs P s) \<subseteq> insert 45 {c \<in> set s. \<not> P c}"
proof (induction P s rule: replace_runs.induct)
  case (2 P c cs)
  have "{x \<in> set (dropWhile P cs). \<not> P x} \<subseteq> {x \<in> set cs. \<not> P x}"
    by (auto dest: set_dropWhileD)
  with 2 show ?case by auto
qed simp

lemma replace_runs_alnum:
  "{c \<in> set s. is_alnum c \<and> \<not> P c} \<subseteq> set (replace_runs P s)"
proof (induction P s rule: replace_runs.induct)
  case (2 P c cs)
  have "{x \<in> set cs. is_alnum x \<and> \<not> P x} \<subseteq> set (dropWhile P cs)"
    by (induction cs) auto
  with 2 show ?case by auto
qed simp

lemma no_double_replace_hyphens: "no_double_hyphen (replace_runs is_hyphen s)"
proof (induction is_hyphen s rule: replace_runs.induct)
  case (2 c cs)
  have head: "replace_runs is_hyphen xs = [] \<or> hd (replace_runs is_hyphen xs) = hd xs"
    if "xs = [] \<or> \<not> is_hyphen (hd xs)" for xs
    using that by (cases xs) auto
  show ?case
  proof (cases "is_hyphen c")
    case True
    let ?r = "replace_runs is_hyphen (dropWhile is_hyphen cs)"
    have "?r = [] \<or> \<not> is_hyphen (hd ?r)"
      using head [of "dropWhile is_hyphen cs"] hd_dropWhile [of is_hyphen cs]
      by (metis replace_runs.simps(1))
    with True 2 show ?thesis by (cases ?r) auto
  next
    case False
    with 2 show ?thesis by (cases "replace_runs is_hyphen cs") auto
  qed
qed simp

lemma no_double_dropWhile: "no_double_hyphen s \<Longrightarrow> no_double_hyphen (dropWhile P s)"
  by (induction s rule: no_double_hyphen.induct) auto

lemma no_double_butlast: "no_double_hyphen (s @ [c]) \<Longrightarrow> no_double_hyphen s"
  by (induction s rule: no_double_hyphen.induct) auto

lemma no_double_append: "no_double_hyphen (s @ t) \<Longrightarrow> no_double_hyphen s"
  by (induction t rule: rev_induct) (auto dest: no_double_butlast simp flip: append_assoc)

lemma trim_right: "\<exists>t. s = rev (dropWhile P (rev s)) @ t"
  by (metis rev_append rev_rev_ident takeWhile_dropWhile_id)

lemma no_double_trim: "no_double_hyphen s \<Longrightarrow> no_double_hyphen (trim_hyphens s)"
  unfolding trim_hyphens_def
  by (metis no_double_append no_double_dropWhile trim_right)

lemma set_trim: "set (trim_hyphens s) \<subseteq> set s"
proof
  fix c assume "c \<in> set (trim_hyphens s)"
  then have "c \<in> set (dropWhile is_hyphen (rev (dropWhile is_hyphen s)))"
    by (simp add: trim_hyphens_def)
  then have "c \<in> set (dropWhile is_hyphen s)"
    using set_dropWhileD by fastforce
  then show "c \<in> set s" by (rule set_dropWhileD)
qed

lemma trim_ends:
  assumes "trim_hyphens s \<noteq> []"
  shows "\<not> is_hyphen (hd (trim_hyphens s))" and "\<not> is_hyphen (last (trim_hyphens s))"
proof -
  let ?l = "dropWhile is_hyphen s"
  have ne: "dropWhile is_hyphen (rev ?l) \<noteq> []"
    using assms by (simp add: trim_hyphens_def)
  then show "\<not> is_hyphen (last (trim_hyphens s))"
    using hd_dropWhile [OF ne] by (simp add: trim_hyphens_def last_rev)
  obtain t where t: "?l = trim_hyphens s @ t"
    using trim_right [of ?l is_hyphen] by (auto simp: trim_hyphens_def)
  then have "?l \<noteq> []" and "hd ?l = hd (trim_hyphens s)"
    using assms by auto
  then show "\<not> is_hyphen (hd (trim_hyphens s))"
    using hd_dropWhile [of is_hyphen s] by simp
qed

lemma replace_runs_id: "(\<forall>c \<in> set s. \<not> P c) \<Longrightarrow> replace_runs P s = s"
  by (induction s) auto

lemma replace_hyphens_id: "no_double_hyphen s \<Longrightarrow> replace_runs is_hyphen s = s"
proof (induction s)
  case (Cons c cs)
  then show ?case by (cases cs) (auto simp: is_hyphen_def)
qed simp

lemma dropWhile_hd: "s = [] \<or> \<not> P (hd s) \<Longrightarrow> dropWhile P s = s"
  by (cases s) auto

lemma trim_id:
  "s = [] \<or> (\<not> is_hyphen (hd s) \<and> \<not> is_hyphen (last s)) \<Longrightarrow> trim_hyphens s = s"
  by (auto simp: trim_hyphens_def dropWhile_hd hd_rev)

lemma strip_accents_id: "(\<forall>c \<in> set s. c < 768) \<Longrightarrow> strip_accents s = s"
  by (auto simp: strip_accents_def filter_id_conv)

lemma slug_chars:
  "c \<in> set (generateSlug nfd input) \<Longrightarrow> is_alnum c \<or> is_hyphen c"
proof -
  let ?a = "strip_symbols (strip_accents (nfd input))"
  assume "c \<in> set (generateSlug nfd input)"
  then have "c \<in> set (replace_runs is_hyphen (replace_runs is_space ?a))"
    using set_trim unfolding generateSlug_def by blast
  then have "c = 45 \<or> c \<in> set (replace_runs is_space ?a)"
    using set_replace_runs by blast
  then have "c = 45 \<or> (c \<in> set ?a \<and> \<not> is_space c)"
    using set_replace_runs by blast
  then show ?thesis by (auto simp: strip_symbols_def)
qed

lemma trim_alnum: "{c \<in> set s. is_alnum c} \<subseteq> set (trim_hyphens s)"
proof -
  have "{c \<in> set s. is_alnum c} \<subseteq> set (dropWhile is_hyphen s)" for s
    by (induction s) auto
  from this [of "rev (dropWhile is_hyphen s)"] this [of s] show ?thesis
    by (auto simp: trim_hyphens_def)
qed

lemma slug_keeps_alnum:
  "{c \<in> set (nfd input). is_alnum c} \<subseteq> set (generateSlug nfd input)"
proof
  fix c assume c: "c \<in> {c \<in> set (nfd input). is_alnum c}"
  let ?a = "strip_symbols (strip_accents (nfd input))"
  from c have "c \<in> set ?a"
    by (auto simp: strip_symbols_def strip_accents_def is_alnum_def)
  with c have "c \<in> set (replace_runs is_space ?a)"
    using replace_runs_alnum [of ?a is_space] by auto
  with c have "c \<in> set (replace_runs is_hyphen (replace_runs is_space ?a))"
    using replace_runs_alnum [of "replace_runs is_space ?a" is_hyphen] by auto
  with c show "c \<in> set (generateSlug nfd input)"
    using trim_alnum unfolding generateSlug_def by blast
qed

lemma generateSlug_form: "slug_form (generateSlug nfd input)"
  unfolding slug_form_def
  using slug_chars trim_ends no_double_trim [OF no_double_replace_hyphens]
  unfolding generateSlug_def by blast

lemma slug_form_fixed:
  assumes "slug_form s" and "nfd s = s"
  shows "generateSlug nfd s = s"
proof -
  have "\<forall>c \<in> set s. is_alnum c \<or> is_hyphen c" using assms(1) by (simp add: slug_form_def)
  then have "strip_accents s = s" and sym: "strip_symbols s = s"
    and "\<forall>c \<in> set s. \<not> is_space c"
    by (auto simp: strip_accents_def strip_symbols_def filter_id_conv is_alnum_def is_hyphen_def
        is_space_def)
  then show ?thesis
    using assms trim_id [of s]
    by (auto simp: generateSlug_def replace_runs_id replace_hyphens_id slug_form_def)
qed

section \<open>Properties\<close>

lemma slug_alnum_source:
  assumes "c \<in> set (generateSlug nfd input)" and "is_alnum c"
  shows "c \<in> set (nfd input)"
proof -
  let ?a = "strip_symbols (strip_accents (nfd input))"
  have "c \<in> set (replace_runs is_hyphen (replace_runs is_space ?a))"
    using assms(1) set_trim unfolding generateSlug_def by blast
  moreover have "c \<noteq> 45" using assms(2) by auto
  ultimately have "c \<in> set (replace_runs is_space ?a)"
    using set_replace_runs by blast
  with \<open>c \<noteq> 45\<close> have "c \<in> set ?a"
    using set_replace_runs by blast
  then show ?thesis by (simp add: strip_symbols_def strip_accents_def)
qed

text \<open>
  C12: Every slug is in normal form (lower-case letters, digits and single inner hyphens), taking
  the slug of a slug changes nothing, and the slug is empty exactly when the input has no ASCII
  letter or digit after lower-casing and decomposition.
\<close>

theorem generateSlug_normal_form:
  assumes "\<And>s. slug_form s \<Longrightarrow> nfd s = s"
  shows "slug_form (generateSlug nfd input) \<and>
    generateSlug nfd (generateSlug nfd input) = generateSlug nfd input \<and>
    (generateSlug nfd input = [] \<longleftrightarrow> (\<forall>c \<in> set (nfd input). \<not> is_alnum c))"
proof (intro conjI)
  show form: "slug_form (generateSlug nfd input)" by (rule generateSlug_form)
  show "generateSlug nfd (generateSlug nfd input) = generateSlug nfd input"
    using slug_form_fixed form assms by blast
  show "generateSlug nfd input = [] \<longleftrightarrow> (\<forall>c \<in> set (nfd input). \<not> is_alnum c)"
  proof
    assume "generateSlug nfd input = []"
    then show "\<forall>c \<in> set (nfd input). \<not> is_alnum c"
      using slug_keeps_alnum [of nfd input] by auto
  next
    assume none: "\<forall>c \<in> set (nfd input). \<not> is_alnum c"
    show "generateSlug nfd input = []"
    proof (rule ccontr)
      assume ne: "generateSlug nfd input \<noteq> []"
      then have "\<not> is_hyphen (hd (generateSlug nfd input))"
        using form by (simp add: slug_form_def)
      with slug_chars [of "hd (generateSlug nfd input)" nfd input] ne
      have "is_alnum (hd (generateSlug nfd input))" by (meson list.set_sel(1))
      with slug_alnum_source [OF list.set_sel(1) [OF ne]] none show False by blast
    qed
  qed
qed

lemma generateSlug_normal_form_witness:
  "generateSlug (map (\<lambda>c. if 65 \<le> c \<and> c \<le> 90 then c + 32 else c)) (js ''Home  &  Garden -'') =
     js ''home-garden'' \<and>
   slug_form (generateSlug (map (\<lambda>c. if 65 \<le> c \<and> c \<le> 90 then c + 32 else c)) (js ''Home  &  Garden -''))"
proof
  let ?lower = "map (\<lambda>c::nat. if 65 \<le> c \<and> c \<le> 90 then c + 32 else c)"
  have "?lower s = s" if "slug_form s" for s
    using that by (auto simp: slug_form_def is_alnum_def is_hyphen_def intro!: map_idI)
  from generateSlug_normal_form [OF this] show "slug_form (generateSlug ?lower (js ''Home  &  Garden -''))"
    by blast
qed (simp add: generateSlug_def js_def strip_accents_def strip_symbols_def is_alnum_def is_space_def
    is_hyphen_def trim_hyphens_def)

end
