(* ===== verification/Orm.thy ===== *)
theory Orm
  imports Prelude
begin

text \<open>
  The database access layer the services call. TypeORM and PostgreSQL are not part of the
  repository, so what they do is a parameter: a record of operations on the rows of one
  table. The services' own \<open>where\<close> clauses are predicates on rows. The locale \<open>repository\<close> states the documented behaviour the services rely on; \<open>mem_orm\<close> is a concrete
  engine with that behaviour, on which the examples of the other theories run.
\<close>

section \<open>Entities and engines\<close>

text \<open>
  What the decorators of an entity class declare: its primary key, whether a row is live
  (\<open>@DeleteDateColumn\<close>), which columns the engine maintains itself (time stamps and version;
  \<open>e_cols\<close> erases them), whether rows can be soft-deleted, and when two rows violate a \<open>@Unique\<close> declaration.
\<close>

record 'row entity =
  e_id :: "'row \<Rightarrow> uuid"
  e_set_id :: "uuid \<Rightarrow> 'row \<Rightarrow> 'row"
  e_alive :: "'row \<Rightarrow> bool"
  e_cols :: "'row \<Rightarrow> 'row"
  e_soft :: bool
  e_kill :: "'row \<Rightarrow> 'row"
  e_conflict :: "'row \<Rightarrow> 'row \<Rightarrow> bool"

text \<open>\<open>orderBy\<close>/\<open>addOrderBy\<close>: columns with directions, the most significant first.\<close>

type_synonym order_by = "(jstring \<times> jstring) list"

text \<open>The query builder's four paging fields: \<open>skip\<close>, \<open>take\<close>, \<open>limit\<close> (\<open>offset\<close> is never used).\<close>

record paging =
  pg_skip :: "nat option"
  pg_take :: "nat option"
  pg_limit :: "nat option"

definition skip_take :: "nat \<Rightarrow> nat \<Rightarrow> paging" where
  "skip_take k n = \<lparr>pg_skip = Some k, pg_take = Some n, pg_limit = None\<rparr>"

record 'row orm =
  o_select :: "('row \<Rightarrow> bool) \<Rightarrow> 'row list \<Rightarrow> 'row list"
  o_order :: "order_by \<Rightarrow> 'row list \<Rightarrow> 'row list"
  o_page :: "paging \<Rightarrow> 'row list \<Rightarrow> 'row list"
  o_save :: "'row \<Rightarrow> 'row list \<Rightarrow> exn + ('row \<times> 'row list)"
  o_soft_remove :: "('row \<Rightarrow> bool) \<Rightarrow> 'row list \<Rightarrow> exn + (nat \<times> 'row list)"
  o_update :: "('row \<Rightarrow> 'row) \<Rightarrow> ('row \<Rightarrow> bool) \<Rightarrow> 'row list \<Rightarrow> exn + (nat \<times> 'row list)"

definition unique_ok :: "'row entity \<Rightarrow> 'row list \<Rightarrow> bool" where
  "unique_ok M t \<longleftrightarrow>
     (\<forall>x \<in> set t. \<forall>y \<in> set t. e_id M x \<noteq> e_id M y \<longrightarrow> \<not> e_conflict M x y)"

text \<open>\<open>y\<close> is \<open>x\<close> marked as deleted: same key, same user columns, no longer live.\<close>

definition killed :: "'row entity \<Rightarrow> 'row \<Rightarrow> 'row \<Rightarrow> bool" where
  "killed M x y \<longleftrightarrow> \<not> e_alive M y \<and> e_id M y = e_id M x \<and>
     e_cols M (e_kill M y) = e_cols M (e_kill M x)"

text \<open>
  The laws. A \<open>find\<close> or a select query returns exactly the live rows that satisfy the
  condition; ordering permutes; \<open>skip\<close>/\<open>take\<close> cut out a window; \<open>save\<close> of an entity without
  identifier inserts it under a fresh one, \<open>save\<close> of an entity with one replaces the row, in
  both cases storing the columns the code set and refusing to break a declared unique
  constraint; soft removal marks every live matching row and touches no other row; a bulk
  update maps the matching rows. A failing statement leaves the table as it was.
\<close>

locale repository =
  fixes M :: "'row entity" and db :: "'row orm"
  assumes select_rows: "mset (o_select db P t) = {#r \<in># mset t. e_alive M r \<and> P r#}"
    and order_rows: "mset (o_order db ord xs) = mset xs"
    and page_window: "o_page db (skip_take k n) xs = take n (drop k xs)"
    and page_take: "o_page db \<lparr>pg_skip = None, pg_take = Some n, pg_limit = None\<rparr> xs = take n xs"
    and page_limit: "length (o_page db \<lparr>pg_skip = sk, pg_take = None, pg_limit = Some n\<rparr> xs) \<le> n"
    and page_sub: "set (o_page db pg xs) \<subseteq> set xs"
    and save_old: "o_save db r t = Inr (r', t') \<Longrightarrow> e_id M r \<noteq> no_id \<Longrightarrow> e_id M r' = e_id M r"
    and save_new: "o_save db r t = Inr (r', t') \<Longrightarrow> e_id M r = no_id \<Longrightarrow>
      e_id M r' \<noteq> no_id \<and> e_id M r' \<notin> e_id M ` set t"
    and save_cols: "o_save db r t = Inr (r', t') \<Longrightarrow>
      e_cols M r' = e_cols M (e_set_id M (e_id M r') r)"
    and save_rows: "o_save db r t = Inr (r', t') \<Longrightarrow>
      mset t' = add_mset r' {#x \<in># mset t. e_id M x \<noteq> e_id M r'#}"
    and save_unique: "o_save db r t = Inr (r', t') \<Longrightarrow> unique_ok M t \<Longrightarrow> unique_ok M t'"
    and remove_rows: "o_soft_remove db P t = Inr (n, t') \<Longrightarrow>
      \<exists>g. mset t' = image_mset g (mset t) \<and> (\<forall>x. if P x then killed M x (g x) else g x = x)"
    and remove_count: "o_soft_remove db P t = Inr (n, t') \<Longrightarrow>
      size {#x \<in># mset t. e_alive M x \<and> P x#} \<le> n \<and> n \<le> size {#x \<in># mset t. P x#}"
    and update_rows: "o_update db f P t = Inr (n, t') \<Longrightarrow>
      \<exists>g. mset t' = image_mset g (mset t) \<and>
        (\<forall>x. if P x then e_cols M (g x) = e_cols M (f x) else g x = x)"
    and update_count: "o_update db f P t = Inr (n, t') \<Longrightarrow> n = size {#x \<in># mset t. P x#}"
begin

lemma select_set: "set (o_select db P t) = {r \<in> set t. e_alive M r \<and> P r}"
  using arg_cong [where f = set_mset, OF select_rows [of P t]] by auto

lemma select_Nil: "o_select db P t = [] \<longleftrightarrow> (\<forall>r \<in> set t. e_alive M r \<longrightarrow> \<not> P r)"
  unfolding set_empty [symmetric] select_set by auto

lemma select_length: "length (o_select db P t) = length (filter (\<lambda>r. e_alive M r \<and> P r) t)"
  using arg_cong [where f = size, OF select_rows [of P t]] by (simp flip: mset_filter)

lemma order_set: "set (o_order db ord xs) = set xs"
  using arg_cong [where f = set_mset, OF order_rows [of ord xs]] by simp

lemma save_set:
  "o_save db r t = Inr (r', t') \<Longrightarrow> set t' = insert r' {x \<in> set t. e_id M x \<noteq> e_id M r'}"
  using arg_cong [where f = set_mset, OF save_rows [of r t r' t']] by auto

text \<open>Primary keys stay unique.\<close>

lemma save_distinct:
  assumes "o_save db r t = Inr (r', t')" and "distinct (map (e_id M) t)"
  shows "distinct (map (e_id M) t')"
proof -
  let ?rest = "filter (\<lambda>x. e_id M x \<noteq> e_id M r') t"
  have "mset t' = mset (r' # ?rest)"
    using save_rows [OF assms(1)] by simp
  then have "mset (map (e_id M) t') = mset (map (e_id M) (r' # ?rest))"
    by (metis mset_map)
  moreover have "distinct (map (e_id M) (r' # ?rest))"
    using assms(2) by (auto simp: distinct_map inj_on_def)
  ultimately show ?thesis
    by (metis mset_eq_imp_distinct_iff)
qed

lemma save_insert:
  assumes "o_save db r t = Inr (r', t')" and "e_id M r = no_id"
  shows "mset t' = add_mset r' (mset t)"
proof -
  have "\<forall>x \<in># mset t. e_id M x \<noteq> e_id M r'"
    using save_new [OF assms] by (metis image_eqI set_mset_mset)
  then show ?thesis
    using save_rows [OF assms(1)] by (simp add: filter_mset_eq_conv)
qed

text \<open>Rows outside \<open>Q\<close> are untouched when both the old and the new version of the row are in it.\<close>

lemma save_outside:
  assumes "o_save db r t = Inr (r', t')" and "Q r'" and "\<And>x. x \<in> set t \<Longrightarrow> e_id M x = e_id M r' \<Longrightarrow> Q x"
  shows "{#x \<in># mset t'. \<not> Q x#} = {#x \<in># mset t. \<not> Q x#}"
proof -
  have "{#x \<in># mset t'. \<not> Q x#} = {#x \<in># mset t. \<not> Q x \<and> e_id M x \<noteq> e_id M r'#}"
    using save_rows [OF assms(1)] assms(2) by (simp add: filter_filter_mset conj_commute)
  also have "\<dots> = {#x \<in># mset t. \<not> Q x#}"
    using assms(3) by (intro filter_mset_cong) auto
  finally show ?thesis .
qed

lemma remove_outside:
  assumes "o_soft_remove db P t = Inr (n, t')" and "\<And>x. x \<in> set t \<Longrightarrow> P x \<Longrightarrow> Q x"
    and "\<And>x y. killed M x y \<Longrightarrow> Q y \<longleftrightarrow> Q x"
  shows "{#x \<in># mset t'. \<not> Q x#} = {#x \<in># mset t. \<not> Q x#}"
proof -
  obtain g where g: "mset t' = image_mset g (mset t)"
    and gx: "\<And>x. if P x then killed M x (g x) else g x = x"
    using remove_rows [OF assms(1)] by blast
  have Qg: "Q (g x) \<longleftrightarrow> Q x" for x
    using gx [of x] assms(3) by (cases "P x") auto
  have "{#x \<in># mset t'. \<not> Q x#} = image_mset g {#x \<in># mset t. \<not> Q x#}"
    by (simp add: g filter_mset_image_mset Qg)
  also have "\<dots> = image_mset (\<lambda>x. x) {#x \<in># mset t. \<not> Q x#}"
  proof (rule image_mset_cong)
    fix x assume "x \<in># {#x \<in># mset t. \<not> Q x#}"
    then have "\<not> P x" using assms(2) by auto
    then show "g x = x" using gx [of x] by simp
  qed
  finally show ?thesis by simp
qed

lemma remove_live:
  assumes "o_soft_remove db P t = Inr (n, t')"
  shows "{x \<in> set t'. e_alive M x} = {x \<in> set t. e_alive M x \<and> \<not> P x}"
proof -
  obtain g where g: "mset t' = image_mset g (mset t)"
    and gx: "\<And>x. if P x then killed M x (g x) else g x = x"
    using remove_rows [OF assms] by blast
  have "set t' = g ` set t" using arg_cong [where f = set_mset, OF g] by simp
  moreover have "e_alive M (g x) \<Longrightarrow> \<not> P x \<and> g x = x" "\<not> P x \<Longrightarrow> g x = x" for x
    using gx [of x] by (auto simp: killed_def split: if_splits)
  ultimately show ?thesis by force
qed

lemma save_keeps_rows:
  assumes "o_save db r t = Inr (r', t')" and "e_id M r \<noteq> no_id"
  shows "{#x \<in># mset t'. e_id M x \<noteq> e_id M r#} = {#x \<in># mset t. e_id M x \<noteq> e_id M r#}"
  using save_rows [OF assms(1)] save_old [OF assms] by (simp add: filter_filter_mset)

end

section \<open>Keys that live rows must not share\<close>

text \<open>
  Several services keep a column (a name, a slug, a SKU) unique among a tenant's live rows by
  asking before they write. \<open>key\<close> maps a row to what must be unique.
\<close>

definition live_key_unique :: "'row entity \<Rightarrow> ('row \<Rightarrow> 'k) \<Rightarrow> 'row list \<Rightarrow> bool" where
  "live_key_unique M key t \<longleftrightarrow> (\<forall>x \<in> set t. \<forall>y \<in> set t.
     e_alive M x \<longrightarrow> e_alive M y \<longrightarrow> key x = key y \<longrightarrow> e_id M x = e_id M y)"

locale keyed_repository = repository M db
  for M :: "'row entity" and db :: "'row orm" +
  fixes key :: "'row \<Rightarrow> 'k"
  assumes key_cols: "e_cols M x = e_cols M (e_set_id M i y) \<Longrightarrow> key x = key y"
begin

lemma save_key: "o_save db r t = Inr (r', t') \<Longrightarrow> key r' = key r"
  using save_cols key_cols by blast

lemma save_key_unique:
  assumes s: "o_save db r t = Inr (r', t')" and u: "live_key_unique M key t"
    and no_other: "\<And>x. x \<in> set t \<Longrightarrow> e_alive M x \<Longrightarrow> key x = key r \<Longrightarrow> e_id M x = e_id M r'"
  shows "live_key_unique M key t'"
  unfolding live_key_unique_def
proof (intro ballI impI)
  fix x y
  assume "x \<in> set t'" "y \<in> set t'" and live: "e_alive M x" "e_alive M y" and eq: "key x = key y"
  then have xy: "x = r' \<or> x \<in> set t" "y = r' \<or> y \<in> set t"
    using save_set [OF s] by auto
  have new: "e_id M z = e_id M r'" if "z = r' \<or> z \<in> set t" "e_alive M z" "key z = key r'" for z
    using that no_other [of z] by (auto simp only: save_key [OF s])
  show "e_id M x = e_id M y"
  proof (cases "x = r' \<or> y = r'")
    case True
    then have "key x = key r'" and "key y = key r'" using eq by auto
    then show ?thesis using new [OF xy(1) live(1)] new [OF xy(2) live(2)] by simp
  next
    case False
    with xy have "x \<in> set t" "y \<in> set t" by auto
    then show ?thesis using u live eq unfolding live_key_unique_def by blast
  qed
qed

lemma remove_key_unique:
  assumes "o_soft_remove db P t = Inr (n, t')" and "live_key_unique M key t"
  shows "live_key_unique M key t'"
proof -
  obtain g where g: "mset t' = image_mset g (mset t)"
    and gx: "\<And>x. if P x then killed M x (g x) else g x = x"
    using remove_rows [OF assms(1)] by blast
  have old: "x \<in> set t" if "x \<in> set t'" "e_alive M x" for x
  proof -
    have "set t' = g ` set t"
      using arg_cong [where f = set_mset, OF g] by simp
    with that(1) obtain y where y: "x = g y" "y \<in> set t" by auto
    then show ?thesis
      using that(2) gx [of y] by (cases "P y") (auto simp: killed_def)
  qed
  show ?thesis
    using assms(2) by (simp add: live_key_unique_def old)
qed

end

section \<open>A concrete engine\<close>

definition fresh_id :: "'row entity \<Rightarrow> 'row list \<Rightarrow> uuid" where
  "fresh_id M t = 48 # concat (map (e_id M) t)"

lemma fresh_id: "fresh_id M t \<noteq> no_id \<and> fresh_id M t \<notin> e_id M ` set t"
proof -
  have "length (e_id M x) \<le> length (concat (map (e_id M) t))" if "x \<in> set t" for x
    using that by (induction t) auto
  then show ?thesis
    by (fastforce simp: fresh_id_def no_id_def dest: arg_cong [where f = length])
qed

definition mem_save :: "'row entity \<Rightarrow> 'row \<Rightarrow> 'row list \<Rightarrow> exn + ('row \<times> 'row list)" where
  "mem_save M r t =
     (let r' = (if e_id M r = no_id then e_set_id M (fresh_id M t) r else r);
          rest = filter (\<lambda>x. e_id M x \<noteq> e_id M r') t
      in if list_ex (\<lambda>x. e_conflict M r' x \<or> e_conflict M x r') rest
         then Inl (QueryFailed (js ''23505'')) else Inr (r', r' # rest))"

definition mem_orm :: "'row entity \<Rightarrow> 'row orm" where
  "mem_orm M = \<lparr>
     o_select = (\<lambda>P t. filter (\<lambda>r. e_alive M r \<and> P r) t),
     o_order = (\<lambda>ord xs. xs),
     o_page = (\<lambda>pg xs.
       (case pg_limit pg of None \<Rightarrow> (\<lambda>ys. ys) | Some n \<Rightarrow> take n)
       ((case pg_take pg of None \<Rightarrow> (\<lambda>ys. ys) | Some n \<Rightarrow> take n)
        ((case pg_skip pg of None \<Rightarrow> (\<lambda>ys. ys) | Some k \<Rightarrow> drop k) xs))),
     o_save = mem_save M,
     o_soft_remove = (\<lambda>P t. if \<not> e_soft M then Inl (OtherError (js ''MissingDeleteDateColumnError''))
       else Inr (length (filter (\<lambda>x. e_alive M x \<and> P x) t),
       map (\<lambda>x. if e_alive M x \<and> P x then e_kill M x else x) t)),
     o_update = (\<lambda>f P t. Inr (length (filter P t), map (\<lambda>x. if P x then f x else x) t)) \<rparr>"

text \<open>
  The engine behaves as documented for every entity whose accessors fit together; \<open>P\<close> may
  not look at the deletion mark itself.
\<close>

definition entity_ok :: "'row entity \<Rightarrow> bool" where
  "entity_ok M \<longleftrightarrow>
     (\<forall>i r. e_id M (e_set_id M i r) = i) \<and> (\<forall>r. e_set_id M (e_id M r) r = r) \<and>
     (e_soft M \<longrightarrow> (\<forall>r. \<not> e_alive M (e_kill M r) \<and> e_id M (e_kill M r) = e_id M r \<and>
       e_kill M (e_kill M r) = e_kill M r))"

lemma mem_save_InrD:
  assumes "mem_save M r t = Inr (r', t')"
  shows "r' = (if e_id M r = no_id then e_set_id M (fresh_id M t) r else r)"
    and "t' = r' # filter (\<lambda>x. e_id M x \<noteq> e_id M r') t"
    and "\<And>x. x \<in> set t \<Longrightarrow> e_id M x \<noteq> e_id M r' \<Longrightarrow> \<not> e_conflict M r' x \<and> \<not> e_conflict M x r'"
  using assms by (auto simp: mem_save_def Let_def list_ex_iff split: if_splits)

lemma mem_repository:
  assumes "entity_ok M"
  shows "repository M (mem_orm M)"
proof unfold_locales
  fix r r' t t'
  assume s: "o_save (mem_orm M) r t = Inr (r', t')"
  then have s: "mem_save M r t = Inr (r', t')" by (simp add: mem_orm_def)
  show "e_id M r \<noteq> no_id \<Longrightarrow> e_id M r' = e_id M r"
    using mem_save_InrD(1) [OF s] by simp
  show "e_id M r = no_id \<Longrightarrow> e_id M r' \<noteq> no_id \<and> e_id M r' \<notin> e_id M ` set t"
    using mem_save_InrD(1) [OF s] fresh_id [of M t] assms by (simp add: entity_ok_def)
  show "e_cols M r' = e_cols M (e_set_id M (e_id M r') r)"
    using mem_save_InrD(1) [OF s] assms by (simp add: entity_ok_def)
  show "mset t' = add_mset r' {#x \<in># mset t. e_id M x \<noteq> e_id M r'#}"
    using mem_save_InrD(2) [OF s] by simp
  show "unique_ok M t \<Longrightarrow> unique_ok M t'"
    using mem_save_InrD(2,3) [OF s] by (auto simp: unique_ok_def)
next
  fix P t n t'
  assume s: "o_soft_remove (mem_orm M) P t = Inr (n, t')"
  show "\<exists>g. mset t' = image_mset g (mset t) \<and> (\<forall>x. if P x then killed M x (g x) else g x = x)"
    using s assms
    by (intro exI [of _ "\<lambda>x. if e_alive M x \<and> P x then e_kill M x else x"])
      (auto simp: mem_orm_def entity_ok_def killed_def split: if_splits)
  show "size {#x \<in># mset t. e_alive M x \<and> P x#} \<le> n \<and> n \<le> size {#x \<in># mset t. P x#}"
    using s by (induction t arbitrary: n t') (auto simp: mem_orm_def split: if_splits)
next
  fix k n and xs :: "'a list"
  show "o_page (mem_orm M) (skip_take k n) xs = take n (drop k xs)"
    by (simp add: mem_orm_def skip_take_def)
next
  fix n and xs :: "'a list"
  show "o_page (mem_orm M) \<lparr>pg_skip = None, pg_take = Some n, pg_limit = None\<rparr> xs = take n xs"
    by (simp add: mem_orm_def)
next
  fix sk n and xs :: "'a list"
  show "length (o_page (mem_orm M) \<lparr>pg_skip = sk, pg_take = None, pg_limit = Some n\<rparr> xs) \<le> n"
    by (simp add: mem_orm_def)
next
  fix pg and xs :: "'a list"
  show "set (o_page (mem_orm M) pg xs) \<subseteq> set xs"
    by (auto simp: mem_orm_def split: option.splits dest: in_set_takeD in_set_dropD)
next
  fix f P n and t t' :: "'a list"
  assume s: "o_update (mem_orm M) f P t = Inr (n, t')"
  then show "\<exists>g. mset t' = image_mset g (mset t) \<and>
      (\<forall>x. if P x then e_cols M (g x) = e_cols M (f x) else g x = x)"
    by (intro exI [of _ "\<lambda>x. if P x then f x else x"]) (auto simp: mem_orm_def)
  show "n = size {#x \<in># mset t. P x#}"
    using s by (auto simp: mem_orm_def simp flip: mset_filter)
qed (auto simp: mem_orm_def)

section \<open>Repositories as computations\<close>

record ('w, 'row) repo =
  r_get :: "'w \<Rightarrow> 'row list"
  r_set :: "'row list \<Rightarrow> 'w \<Rightarrow> 'w"
  r_orm :: "'row orm"

definition find_one :: "('w, 'row) repo \<Rightarrow> ('row \<Rightarrow> bool) \<Rightarrow> ('w, 'row option) act" where
  "find_one R P = gets (\<lambda>w. case o_select (r_orm R) P (r_get R w) of
     [] \<Rightarrow> None | r # _ \<Rightarrow> Some r)"

definition find_many :: "('w, 'row) repo \<Rightarrow> ('row \<Rightarrow> bool) \<Rightarrow> order_by \<Rightarrow> ('w, 'row list) act" where
  "find_many R P ord = gets (\<lambda>w. o_order (r_orm R) ord (o_select (r_orm R) P (r_get R w)))"

definition count_rows :: "('w, 'row) repo \<Rightarrow> ('row \<Rightarrow> bool) \<Rightarrow> ('w, nat) act" where
  "count_rows R P = gets (\<lambda>w. length (o_select (r_orm R) P (r_get R w)))"

definition get_exists :: "('w, 'row) repo \<Rightarrow> ('row \<Rightarrow> bool) \<Rightarrow> ('w, bool) act" where
  "get_exists R P = gets (\<lambda>w. o_select (r_orm R) P (r_get R w) \<noteq> [])"

definition get_many_and_count ::
  "('w, 'row) repo \<Rightarrow> ('row \<Rightarrow> bool) \<Rightarrow> order_by \<Rightarrow> paging \<Rightarrow> ('w, 'row list \<times> nat) act" where
  "get_many_and_count R P ord pg = gets (\<lambda>w.
     let rows = o_select (r_orm R) P (r_get R w)
     in (o_page (r_orm R) pg (o_order (r_orm R) ord rows), length rows))"

definition save :: "('w, 'row) repo \<Rightarrow> 'row \<Rightarrow> ('w, 'row) act" where
  "save R r = (\<lambda>w. case o_save (r_orm R) r (r_get R w) of
     Inl e \<Rightarrow> (Inl e, w) | Inr (r', t') \<Rightarrow> (Inr r', r_set R t' w))"

definition soft_remove :: "('w, 'row) repo \<Rightarrow> ('row \<Rightarrow> bool) \<Rightarrow> ('w, nat) act" where
  "soft_remove R P = (\<lambda>w. case o_soft_remove (r_orm R) P (r_get R w) of
     Inl e \<Rightarrow> (Inl e, w) | Inr (n, t') \<Rightarrow> (Inr n, r_set R t' w))"

definition update_where ::
  "('w, 'row) repo \<Rightarrow> ('row \<Rightarrow> 'row) \<Rightarrow> ('row \<Rightarrow> bool) \<Rightarrow> ('w, nat) act" where
  "update_where R f P = (\<lambda>w. case o_update (r_orm R) f P (r_get R w) of
     Inl e \<Rightarrow> (Inl e, w) | Inr (n, t') \<Rightarrow> (Inr n, r_set R t' w))"

lemmas repo_defs = find_one_def find_many_def count_rows_def get_exists_def
  get_many_and_count_def save_def soft_remove_def update_where_def

lemma save_Inr [inv_simps]:
  "save R r w = (Inr r', w') \<longleftrightarrow>
     (\<exists>t'. o_save (r_orm R) r (r_get R w) = Inr (r', t') \<and> w' = r_set R t' w)"
  by (auto simp: save_def split: sum.splits)

lemma save_Inl [inv_simps]:
  "save R r w = (Inl e, w') \<longleftrightarrow> o_save (r_orm R) r (r_get R w) = Inl e \<and> w' = w"
  by (auto simp: save_def split: sum.splits)

lemma soft_remove_Inr [inv_simps]:
  "soft_remove R P w = (Inr n, w') \<longleftrightarrow>
     (\<exists>t'. o_soft_remove (r_orm R) P (r_get R w) = Inr (n, t') \<and> w' = r_set R t' w)"
  by (auto simp: soft_remove_def split: sum.splits)

lemma soft_remove_Inl [inv_simps]:
  "soft_remove R P w = (Inl e, w') \<longleftrightarrow> o_soft_remove (r_orm R) P (r_get R w) = Inl e \<and> w' = w"
  by (auto simp: soft_remove_def split: sum.splits)

lemma update_where_Inr [inv_simps]:
  "update_where R f P w = (Inr n, w') \<longleftrightarrow>
     (\<exists>t'. o_update (r_orm R) f P (r_get R w) = Inr (n, t') \<and> w' = r_set R t' w)"
  by (auto simp: update_where_def split: sum.splits)

lemma update_where_Inl [inv_simps]:
  "update_where R f P w = (Inl e, w') \<longleftrightarrow> o_update (r_orm R) f P (r_get R w) = Inl e \<and> w' = w"
  by (auto simp: update_where_def split: sum.splits)

text \<open>Reading computations never throw and never change the state.\<close>

lemma find_one_eq [inv_simps]:
  "find_one R P w = (r, w') \<longleftrightarrow>
     w' = w \<and> r = Inr (case o_select (r_orm R) P (r_get R w) of [] \<Rightarrow> None | x # _ \<Rightarrow> Some x)"
  by (auto simp: find_one_def gets_def)

lemma get_exists_eq [inv_simps]:
  "get_exists R P w = (r, w') \<longleftrightarrow> w' = w \<and> r = Inr (o_select (r_orm R) P (r_get R w) \<noteq> [])"
  by (auto simp: get_exists_def gets_def)

lemma count_rows_eq [inv_simps]:
  "count_rows R P w = (r, w') \<longleftrightarrow> w' = w \<and> r = Inr (length (o_select (r_orm R) P (r_get R w)))"
  by (auto simp: count_rows_def gets_def)

lemma get_many_and_count_eq [inv_simps]:
  "get_many_and_count R P ord pg w = (r, w') \<longleftrightarrow> w' = w \<and>
     r = Inr (o_page (r_orm R) pg (o_order (r_orm R) ord (o_select (r_orm R) P (r_get R w))),
              length (o_select (r_orm R) P (r_get R w)))"
  by (auto simp: get_many_and_count_def gets_def Let_def)

lemma find_many_eq [inv_simps]:
  "find_many R P ord w = (r, w') \<longleftrightarrow>
     w' = w \<and> r = Inr (o_order (r_orm R) ord (o_select (r_orm R) P (r_get R w)))"
  by (auto simp: find_many_def gets_def)

context repository begin

lemma find_one_Some:
  assumes "find_one R P w = (Inr (Some r), w')" and "r_orm R = db"
  shows "w' = w \<and> r \<in> set (r_get R w) \<and> e_alive M r \<and> P r"
  using assms select_set [of P "r_get R w"]
  by (auto simp: find_one_eq split: list.splits)

lemma find_one_None:
  assumes "find_one R P w = (Inr None, w')" and "r_orm R = db" and "r \<in> set (r_get R w)"
    and "e_alive M r"
  shows "\<not> P r"
  using assms select_Nil [of P "r_get R w"]
  by (auto simp: find_one_eq split: list.splits)

lemma exists_iff:
  assumes "r_orm R = db"
  shows "get_exists R P w = (Inr (\<exists>r \<in> set (r_get R w). e_alive M r \<and> P r), w)"
  using assms select_Nil [of P "r_get R w"] by (auto simp: get_exists_eq)

lemma page_rows:
  assumes "get_many_and_count R P ord pg w = (Inr (rows, n), w')" and "r_orm R = db"
    and "r \<in> set rows"
  shows "r \<in> set (r_get R w) \<and> e_alive M r \<and> P r"
proof -
  have "rows = o_page db pg (o_order db ord (o_select db P (r_get R w)))"
    using assms(1,2) by (simp add: get_many_and_count_eq)
  then have "r \<in> set (o_select db P (r_get R w))"
    using assms(3) page_sub order_set by blast
  then show ?thesis by (simp add: select_set)
qed

lemma page_total:
  assumes "get_many_and_count R P ord pg w = (Inr (rows, n), w')" and "r_orm R = db"
  shows "n = length (filter (\<lambda>r. e_alive M r \<and> P r) (r_get R w))"
  using assms by (auto simp: get_many_and_count_eq select_length)

end

text \<open>
  Two idioms of the services: load an entity or answer 404, and refuse to write when a live row
  satisfies a condition.
\<close>

definition find_or_throw :: "('w, 'row) repo \<Rightarrow> ('row \<Rightarrow> bool) \<Rightarrow> exn \<Rightarrow> ('w, 'row) act" where
  "find_or_throw R P e =
     andThen (find_one R P) (\<lambda>found. case found of None \<Rightarrow> throw e | Some x \<Rightarrow> ret x)"

definition throw_if_exists :: "('w, 'row) repo \<Rightarrow> ('row \<Rightarrow> bool) \<Rightarrow> exn \<Rightarrow> ('w, unit) act" where
  "throw_if_exists R P e = andThen (get_exists R P) (\<lambda>exists. if exists then throw e else ret ())"

lemma find_or_throw_state: "find_or_throw R P e w = (r, w') \<Longrightarrow> w' = w"
  by (cases r) (auto simp: find_or_throw_def flow_simps inv_simps split: list.splits)

lemma throw_if_exists_state: "throw_if_exists R P e w = (r, w') \<Longrightarrow> w' = w"
  by (cases r) (auto simp: throw_if_exists_def flow_simps inv_simps split: if_splits)

context repository begin

lemma find_or_throw_Inr:
  assumes "find_or_throw R P e w = (Inr x, w')" and "r_orm R = db"
  shows "w' = w \<and> x \<in> set (r_get R w) \<and> e_alive M x \<and> P x"
proof -
  from assms(1) have "find_one R P w = (Inr (Some x), w')"
    by (auto simp: find_or_throw_def flow_simps split: option.splits)
  from find_one_Some [OF this assms(2)] show ?thesis .
qed

lemma find_or_throw_Inl:
  assumes "find_or_throw R P e w = (Inl e', w')" and "r_orm R = db"
  shows "w' = w \<and> e' = e \<and> (\<forall>x \<in> set (r_get R w). e_alive M x \<longrightarrow> \<not> P x)"
proof -
  from assms(1) have f: "find_one R P w = (Inr None, w')" and "e' = e"
    by (auto simp: find_or_throw_def flow_simps find_one_eq split: option.splits list.splits)
  with find_one_None [OF f assms(2)] show ?thesis
    by (auto simp: find_one_eq)
qed

lemma throw_if_exists_run:
  assumes "r_orm R = db"
  shows "throw_if_exists R P e w =
    (if \<exists>x \<in> set (r_get R w). e_alive M x \<and> P x then Inl e else Inr (), w)"
  using exists_iff [OF assms, of P w]
  by (auto simp: throw_if_exists_def andThen_def throw_def ret_def)

end

section \<open>Transactions\<close>

text \<open>
  \<open>dataSource.transaction\<close>, and a query runner whose \<open>catch\<close> block rolls back: an exception of
  the body or of the commit undoes the body.
\<close>

definition transaction :: "('s \<Rightarrow> exn option) \<Rightarrow> ('s, 'a) act \<Rightarrow> ('s, 'a) act" where
  "transaction commit m = (\<lambda>s. case m s of
     (Inl e, _) \<Rightarrow> (Inl e, s)
   | (Inr x, s') \<Rightarrow> (case commit s' of None \<Rightarrow> (Inr x, s') | Some e \<Rightarrow> (Inl e, s)))"

lemma transaction_Inl: "transaction c m w = (Inl e, w') \<Longrightarrow> w' = w"
  by (auto simp: transaction_def split: prod.splits sum.splits option.splits)

lemma transaction_Inr: "transaction c m w = (Inr x, w') \<Longrightarrow> m w = (Inr x, w')"
  by (auto simp: transaction_def split: prod.splits sum.splits option.splits)

end
