(* ===== verification/Schema.thy ===== *)
theory Schema
  imports Orm
begin

text \<open>
  The data of the program: the entity classes (\<open>src/**/entities\<close>) as records of their
  columns, the enumerations, the events on the in-process bus, the values kept in Redis, and
  the one shared state all services run on. A row of a table is a record of that table's
  columns; a foreign key is the identifier it stores. What a query loads in addition (a
  \<open>relations\<close> option) is part of the loaded entity, not of the row: \<open>category_entity\<close> and
  \<open>product_entity\<close> pair a row with its relations, which are \<open>NotLoaded\<close> (\<open>undefined\<close> in the
  code) unless the query asked for them. Time stamps are milliseconds.
\<close>

section \<open>Enumerations\<close>

datatype tenant_status = PENDING | ACTIVE | SUSPENDED | ARCHIVED

datatype user_role = SUPER_ADMIN | TENANT_ADMIN | AUDITOR | CATALOG_MANAGER
  | WAREHOUSE_MANAGER | CUSTOMER

datatype audit_action = CREATE | UPDATE | DELETE | LOGIN | LOGOUT | UPDATE_INVENTORY
  | DELETE_PRODUCT | UPDATE_ORDER | VIEW_REPORT

datatype audited_entity = ET_PRODUCT | ET_PRODUCT_VARIANT | ET_CATEGORY | ET_STOCK_LEVEL
  | ET_WAREHOUSE | ET_SUPPLIER | ET_TENANT | ET_TENANT_SETTING | ET_USER

datatype notification_type = LOW_STOCK

datatype media_type = IMAGE | DOCUMENT | VIDEO | AUDIO | OTHER

section \<open>Entities\<close>

record tenant =
  t_id :: uuid
  t_domainName :: jstring
  t_businessName :: jstring
  t_status :: tenant_status
  t_createdAt :: nat
  t_updatedAt :: nat
  t_deletedAt :: "nat option"

record user =
  u_id :: uuid
  u_tenantId :: uuid
  u_email :: jstring
  u_firstName :: jstring
  u_lastName :: jstring
  u_passwordHash :: jstring
  u_role :: user_role
  u_isActive :: bool
  u_createdAt :: nat
  u_updatedAt :: nat
  u_deletedAt :: "nat option"

record tenant_setting =
  ts_id :: uuid
  ts_tenantId :: uuid
  ts_config :: "(jstring \<times> jval) list"
  ts_createdAt :: nat
  ts_updatedAt :: nat

record category =
  cat_id :: uuid
  cat_name :: jstring
  cat_slug :: jstring
  cat_tenantId :: uuid
  cat_parentId :: "uuid option"
  cat_createdAt :: nat
  cat_updatedAt :: nat
  cat_deletedAt :: "nat option"

record product =
  p_id :: uuid
  p_tenantId :: uuid
  p_categoryId :: uuid
  p_name :: jstring
  p_description :: "jstring option"
  p_skuPrefix :: jstring
  p_isActive :: bool
  p_createdAt :: nat
  p_updatedAt :: nat
  p_deletedAt :: "nat option"

record variant =
  v_id :: uuid
  v_tenantId :: uuid
  v_productId :: uuid
  v_sku :: jstring
  v_price :: rat
  v_attributes :: "(jstring \<times> jstring) list"
  v_createdAt :: nat
  v_updatedAt :: nat
  v_deletedAt :: "nat option"

record warehouse =
  wh_id :: uuid
  wh_tenantId :: uuid
  wh_name :: jstring
  wh_location :: "jstring option"
  wh_createdAt :: nat
  wh_updatedAt :: nat
  wh_deletedAt :: "nat option"

record supplier =
  sup_id :: uuid
  sup_tenantId :: uuid
  sup_companyName :: jstring
  sup_contactEmail :: "jstring option"
  sup_contactPhone :: "jstring option"
  sup_address :: "jstring option"
  sup_leadTimeDays :: "int option"
  sup_createdAt :: nat
  sup_updatedAt :: nat
  sup_deletedAt :: "nat option"

record stock_level =
  sl_id :: uuid
  sl_tenantId :: uuid
  sl_variantId :: uuid
  sl_warehouseId :: uuid
  sl_availableQuantity :: int
  sl_reservedQuantity :: int
  sl_safetyThreshold :: int
  sl_version :: nat
  sl_createdAt :: nat
  sl_updatedAt :: nat

record audit_metadata =
  am_ipAddress :: "jstring option"
  am_userAgent :: "jstring option"
  am_requestId :: "jstring option"
  am_reason :: "jstring option"

record audit =
  a_id :: uuid
  a_tenantId :: uuid
  a_actorId :: "uuid option"
  a_action :: audit_action
  a_entityType :: audited_entity
  a_entityId :: uuid
  a_oldValues :: jval
  a_newValues :: jval
  a_metadata :: audit_metadata
  a_createdAt :: nat

record notification =
  n_id :: uuid
  n_tenantId :: uuid
  n_recipientId :: uuid
  n_type :: notification_type
  n_title :: jstring
  n_body :: "jstring option"
  n_data :: jval
  n_dedupKey :: "jstring option"
  n_readAt :: "nat option"
  n_createdAt :: nat
  n_updatedAt :: nat
  n_deletedAt :: "nat option"

record media_asset =
  m_id :: uuid
  m_tenantId :: uuid
  m_fileName :: jstring
  m_originalFileName :: jstring
  m_mimeType :: jstring
  m_sizeBytes :: jstring
  m_url :: jstring
  m_mediaType :: media_type
  m_altText :: "jstring option"
  m_createdAt :: nat
  m_updatedAt :: nat

subsection \<open>What the decorators declare\<close>

definition tenant_entity :: "tenant entity" where
  "tenant_entity = \<lparr> e_id = t_id, e_set_id = (\<lambda>i r. r\<lparr>t_id := i\<rparr>),
     e_alive = (\<lambda>r. t_deletedAt r = None), e_cols = (\<lambda>r. r\<lparr>t_createdAt := 0, t_updatedAt := 0\<rparr>),
     e_soft = True, e_kill = (\<lambda>r. r\<lparr>t_deletedAt := Some 0\<rparr>),
     e_conflict = (\<lambda>x y. t_domainName x = t_domainName y) \<rparr>"

definition user_entity :: "user entity" where
  "user_entity = \<lparr> e_id = u_id, e_set_id = (\<lambda>i r. r\<lparr>u_id := i\<rparr>),
     e_alive = (\<lambda>r. u_deletedAt r = None), e_cols = (\<lambda>r. r\<lparr>u_createdAt := 0, u_updatedAt := 0\<rparr>),
     e_soft = True, e_kill = (\<lambda>r. r\<lparr>u_deletedAt := Some 0\<rparr>),
     e_conflict = (\<lambda>x y. u_tenantId x = u_tenantId y \<and> u_email x = u_email y) \<rparr>"

definition tenant_setting_entity :: "tenant_setting entity" where
  "tenant_setting_entity = \<lparr> e_id = ts_id, e_set_id = (\<lambda>i r. r\<lparr>ts_id := i\<rparr>),
     e_alive = (\<lambda>r. True), e_cols = (\<lambda>r. r\<lparr>ts_createdAt := 0, ts_updatedAt := 0\<rparr>),
     e_soft = False, e_kill = (\<lambda>r. r), e_conflict = (\<lambda>x y. ts_tenantId x = ts_tenantId y) \<rparr>"

definition category_decl :: "category entity" where
  "category_decl = \<lparr> e_id = cat_id, e_set_id = (\<lambda>i r. r\<lparr>cat_id := i\<rparr>),
     e_alive = (\<lambda>r. cat_deletedAt r = None),
     e_cols = (\<lambda>r. r\<lparr>cat_createdAt := 0, cat_updatedAt := 0\<rparr>),
     e_soft = True, e_kill = (\<lambda>r. r\<lparr>cat_deletedAt := Some 0\<rparr>),
     e_conflict = (\<lambda>x y. cat_tenantId x = cat_tenantId y \<and>
       (cat_name x = cat_name y \<or> cat_slug x = cat_slug y)) \<rparr>"

definition product_decl :: "product entity" where
  "product_decl = \<lparr> e_id = p_id, e_set_id = (\<lambda>i r. r\<lparr>p_id := i\<rparr>),
     e_alive = (\<lambda>r. p_deletedAt r = None), e_cols = (\<lambda>r. r\<lparr>p_createdAt := 0, p_updatedAt := 0\<rparr>),
     e_soft = True, e_kill = (\<lambda>r. r\<lparr>p_deletedAt := Some 0\<rparr>), e_conflict = (\<lambda>x y. False) \<rparr>"

definition variant_entity :: "variant entity" where
  "variant_entity = \<lparr> e_id = v_id, e_set_id = (\<lambda>i r. r\<lparr>v_id := i\<rparr>),
     e_alive = (\<lambda>r. v_deletedAt r = None), e_cols = (\<lambda>r. r\<lparr>v_createdAt := 0, v_updatedAt := 0\<rparr>),
     e_soft = True, e_kill = (\<lambda>r. r\<lparr>v_deletedAt := Some 0\<rparr>),
     e_conflict = (\<lambda>x y. v_tenantId x = v_tenantId y \<and> v_sku x = v_sku y) \<rparr>"

definition warehouse_entity :: "warehouse entity" where
  "warehouse_entity = \<lparr> e_id = wh_id, e_set_id = (\<lambda>i r. r\<lparr>wh_id := i\<rparr>),
     e_alive = (\<lambda>r. wh_deletedAt r = None),
     e_cols = (\<lambda>r. r\<lparr>wh_createdAt := 0, wh_updatedAt := 0\<rparr>),
     e_soft = True, e_kill = (\<lambda>r. r\<lparr>wh_deletedAt := Some 0\<rparr>), e_conflict = (\<lambda>x y. False) \<rparr>"

definition supplier_entity :: "supplier entity" where
  "supplier_entity = \<lparr> e_id = sup_id, e_set_id = (\<lambda>i r. r\<lparr>sup_id := i\<rparr>),
     e_alive = (\<lambda>r. sup_deletedAt r = None),
     e_cols = (\<lambda>r. r\<lparr>sup_createdAt := 0, sup_updatedAt := 0\<rparr>),
     e_soft = True, e_kill = (\<lambda>r. r\<lparr>sup_deletedAt := Some 0\<rparr>), e_conflict = (\<lambda>x y. False) \<rparr>"

definition stock_level_entity :: "stock_level entity" where
  "stock_level_entity = \<lparr> e_id = sl_id, e_set_id = (\<lambda>i r. r\<lparr>sl_id := i\<rparr>),
     e_alive = (\<lambda>r. True),
     e_cols = (\<lambda>r. r\<lparr>sl_version := 0, sl_createdAt := 0, sl_updatedAt := 0\<rparr>),
     e_soft = False, e_kill = (\<lambda>r. r),
     e_conflict = (\<lambda>x y. sl_variantId x = sl_variantId y \<and> sl_warehouseId x = sl_warehouseId y) \<rparr>"

definition audit_entity :: "audit entity" where
  "audit_entity = \<lparr> e_id = a_id, e_set_id = (\<lambda>i r. r\<lparr>a_id := i\<rparr>),
     e_alive = (\<lambda>r. True), e_cols = (\<lambda>r. r\<lparr>a_createdAt := 0\<rparr>),
     e_soft = False, e_kill = (\<lambda>r. r), e_conflict = (\<lambda>x y. False) \<rparr>"

definition notification_entity :: "notification entity" where
  "notification_entity = \<lparr> e_id = n_id, e_set_id = (\<lambda>i r. r\<lparr>n_id := i\<rparr>),
     e_alive = (\<lambda>r. n_deletedAt r = None), e_cols = (\<lambda>r. r\<lparr>n_createdAt := 0, n_updatedAt := 0\<rparr>),
     e_soft = True, e_kill = (\<lambda>r. r\<lparr>n_deletedAt := Some 0\<rparr>), e_conflict = (\<lambda>x y. False) \<rparr>"

definition media_asset_entity :: "media_asset entity" where
  "media_asset_entity = \<lparr> e_id = m_id, e_set_id = (\<lambda>i r. r\<lparr>m_id := i\<rparr>),
     e_alive = (\<lambda>r. True), e_cols = (\<lambda>r. r\<lparr>m_createdAt := 0, m_updatedAt := 0\<rparr>),
     e_soft = False, e_kill = (\<lambda>r. r), e_conflict = (\<lambda>x y. False) \<rparr>"

lemmas entity_defs = tenant_entity_def user_entity_def tenant_setting_entity_def
  category_decl_def product_decl_def variant_entity_def warehouse_entity_def
  supplier_entity_def stock_level_entity_def audit_entity_def notification_entity_def
  media_asset_entity_def

interpretation tenant_mem: repository tenant_entity "mem_orm tenant_entity"
  by (rule mem_repository) (simp add: entity_ok_def entity_defs)

interpretation user_mem: repository user_entity "mem_orm user_entity"
  by (rule mem_repository) (simp add: entity_ok_def entity_defs)

interpretation tenant_setting_mem: repository tenant_setting_entity "mem_orm tenant_setting_entity"
  by (rule mem_repository) (simp add: entity_ok_def entity_defs)

interpretation category_mem: repository category_decl "mem_orm category_decl"
  by (rule mem_repository) (simp add: entity_ok_def entity_defs)

interpretation product_mem: repository product_decl "mem_orm product_decl"
  by (rule mem_repository) (simp add: entity_ok_def entity_defs)

interpretation variant_mem: repository variant_entity "mem_orm variant_entity"
  by (rule mem_repository) (simp add: entity_ok_def entity_defs)

interpretation warehouse_mem: repository warehouse_entity "mem_orm warehouse_entity"
  by (rule mem_repository) (simp add: entity_ok_def entity_defs)

interpretation supplier_mem: repository supplier_entity "mem_orm supplier_entity"
  by (rule mem_repository) (simp add: entity_ok_def entity_defs)

interpretation stock_level_mem: repository stock_level_entity "mem_orm stock_level_entity"
  by (rule mem_repository) (simp add: entity_ok_def entity_defs)

interpretation audit_mem: repository audit_entity "mem_orm audit_entity"
  by (rule mem_repository) (simp add: entity_ok_def entity_defs)

interpretation notification_mem: repository notification_entity "mem_orm notification_entity"
  by (rule mem_repository) (simp add: entity_ok_def entity_defs)

interpretation media_asset_mem: repository media_asset_entity "mem_orm media_asset_entity"
  by (rule mem_repository) (simp add: entity_ok_def entity_defs)

section \<open>Entities with relations\<close>

datatype 'a rel = NotLoaded | Loaded 'a

record category_entity =
  ce_row :: category
  ce_parent :: "category option rel"
  ce_children :: "category list rel"

definition bare_category :: "category \<Rightarrow> category_entity" where
  "bare_category c = \<lparr>ce_row = c, ce_parent = NotLoaded, ce_children = NotLoaded\<rparr>"

text \<open>\<open>entity.parent?.id\<close>\<close>

definition parent_id :: "category_entity \<Rightarrow> uuid option" where
  "parent_id c = (case ce_parent c of Loaded (Some p) \<Rightarrow> Some (cat_id p) | _ \<Rightarrow> None)"

text \<open>A product's category: the loaded entity, or the stub \<open>{ id }\<close> the service assigns.\<close>

datatype category_ref = CategoryFull category | CategoryStub uuid

fun ref_id :: "category_ref \<Rightarrow> uuid" where
  "ref_id (CategoryFull c) = cat_id c"
| "ref_id (CategoryStub i) = i"

record product_entity =
  pe_row :: product
  pe_category :: "category_ref option rel"
  pe_variants :: "variant list rel"

definition bare_product :: "product \<Rightarrow> product_entity" where
  "bare_product p = \<lparr>pe_row = p, pe_category = NotLoaded, pe_variants = NotLoaded\<rparr>"

definition product_category_id :: "product_entity \<Rightarrow> uuid option" where
  "product_category_id p =
     (case pe_category p of Loaded (Some r) \<Rightarrow> Some (ref_id r) | _ \<Rightarrow> None)"

datatype category_node =
  CategoryNode (node_category: category_entity) (node_children: "category_node list")

section \<open>Responses, events, cache entries\<close>

record pagination_meta =
  totalItems :: nat
  itemCount :: nat
  itemsPerPage :: nat
  totalPages :: nat
  currentPage :: nat

record pagination_links =
  link_first :: jstring
  link_previous :: "jstring option"
  link_next :: "jstring option"
  link_last :: jstring

record 'a paginated =
  pg_data :: "'a list"
  pg_meta :: pagination_meta
  pg_links :: pagination_links

record audit_event =
  ae_tenantId :: uuid
  ae_actorId :: "uuid option"
  ae_action :: audit_action
  ae_entityType :: audited_entity
  ae_entityId :: uuid
  ae_oldValues :: jval
  ae_newValues :: jval
  ae_metadata :: audit_metadata

record stock_snapshot =
  ss_availableQuantity :: int
  ss_reservedQuantity :: int

record stock_movement =
  sm_tenantId :: uuid
  sm_stockLevelId :: uuid
  sm_variantId :: uuid
  sm_warehouseId :: uuid
  sm_sku :: "jstring option"
  sm_before :: stock_snapshot
  sm_after :: stock_snapshot
  sm_safetyThreshold :: int

record notification_event =
  ne_tenantId :: uuid
  ne_recipientIds :: "uuid list"
  ne_recipientRoles :: "user_role list"
  ne_type :: notification_type
  ne_title :: jstring
  ne_body :: "jstring option"
  ne_data :: jval
  ne_dedupKey :: "jstring option"

datatype event =
    AuditLogEvent audit_event
  | StockMovementEvent stock_movement
  | NotificationDispatchEvent notification_event

datatype cached =
    CachedCategory category_entity
  | CachedCategories "category_entity paginated"
  | CachedTree "category_node list"
  | CachedProduct product_entity
  | CachedProducts "product_entity paginated"
  | CachedUser user

text \<open>The keys of Redis with their values and times to live; \<open>map_of\<close> looks a key up.\<close>

type_synonym redis_store = "(jstring \<times> cached \<times> nat) list"

text \<open>The objects of S3 under their bucket and key.\<close>

record s3_object =
  so_body :: "nat list"
  so_contentType :: jstring

type_synonym s3_store = "((jstring \<times> jstring) \<times> s3_object) list"

section \<open>The shared state\<close>

text \<open>
  One database, one Redis, one object store, one in-process event bus. \<open>w_bus\<close> lists the emitted events,
  oldest first.
\<close>

record world =
  w_tenants :: "tenant list"
  w_users :: "user list"
  w_settings :: "tenant_setting list"
  w_categories :: "category list"
  w_products :: "product list"
  w_variants :: "variant list"
  w_warehouses :: "warehouse list"
  w_suppliers :: "supplier list"
  w_stock :: "stock_level list"
  w_audits :: "audit list"
  w_notifications :: "notification list"
  w_media :: "media_asset list"
  w_redis :: redis_store
  w_objects :: s3_store
  w_bus :: "event list"

definition empty_world :: world where
  "empty_world = \<lparr> w_tenants = [], w_users = [], w_settings = [], w_categories = [],
     w_products = [], w_variants = [], w_warehouses = [], w_suppliers = [], w_stock = [],
     w_audits = [], w_notifications = [], w_media = [], w_redis = [], w_objects = [], w_bus = [] \<rparr>"

text \<open>The Redis commands, as they act on the stored keys; each may fail.\<close>

record redis_client =
  rd_get :: "jstring \<Rightarrow> redis_store \<Rightarrow> exn + cached option"
  rd_set :: "jstring \<Rightarrow> cached \<Rightarrow> nat \<Rightarrow> redis_store \<Rightarrow> (exn + unit) \<times> redis_store"
  rd_ttl :: "jstring \<Rightarrow> redis_store \<Rightarrow> exn + int"
  rd_del :: "jstring list \<Rightarrow> redis_store \<Rightarrow> (exn + unit) \<times> redis_store"
  rd_scan :: "jstring \<Rightarrow> jstring \<Rightarrow> nat \<Rightarrow> redis_store \<Rightarrow> exn + (jstring \<times> jstring list)"

text \<open>
  Everything outside the repository: the engines of the tables, the Redis client, the
  password hash, the token library (both its operations see the clock, in seconds), the
  predicates and messages of \<open>class-validator\<close>, the numeral a string denotes, trigram similarity, the Unicode tables behind \<open>toLowerCase\<close> and
  \<open>normalize('NFD')\<close>, SHA-1 and JSON text of a query, PostgreSQL's \<open>ILIKE\<close>, how the runtime
  and the database read a time stamp, ordering by a computed score, the commands and presigned
  links of S3 (a failed upload gives the message of the error), and what the mapper does to the other side of a
  one-to-many relation when a loaded collection is saved with its owner.
\<close>

text \<open>
  The constraints \<open>class-validator\<close> decorators put on a field (\<open>Min\<close> and \<open>Max\<close> are \<open>MinValue\<close> and
  \<open>MaxValue\<close>; the argument of \<open>IsNumber\<close> is \<open>maxDecimalPlaces\<close>), with the two regular expressions
  of \<open>Matches\<close>: \<open>^[a-z0-9-]+$\<close> and \<open>^[A-Z0-9]{3}$\<close>.
\<close>

datatype pattern = LowerDigitsHyphens | ThreeUpperDigits

fun pattern_test :: "pattern \<Rightarrow> jstring \<Rightarrow> bool" where
  "pattern_test LowerDigitsHyphens s \<longleftrightarrow>
     s \<noteq> [] \<and> list_all (\<lambda>c. 97 \<le> c \<and> c \<le> 122 \<or> 48 \<le> c \<and> c \<le> 57 \<or> c = 45) s"
| "pattern_test ThreeUpperDigits s \<longleftrightarrow>
     length s = 3 \<and> list_all (\<lambda>c. 65 \<le> c \<and> c \<le> 90 \<or> 48 \<le> c \<and> c \<le> 57) s"

datatype constraint = IsString | IsNotEmpty | IsInt | IsNumber nat | IsPositive | IsBoolean | IsBooleanString
  | IsUUID | IsEmail | IsJWT | IsISO8601 | IsObject | IsIn "jstring list" | IsEnum "jstring list"
  | MinValue rat | MaxValue rat | MinLength nat | MaxLength nat | Matches pattern

record jwt_payload =
  jp_sub :: uuid
  jp_tenantId :: uuid
  jp_email :: jstring
  jp_role :: user_role

record env =
  tenantOrm :: "tenant orm"
  userOrm :: "user orm"
  settingOrm :: "tenant_setting orm"
  categoryOrm :: "category orm"
  productOrm :: "product orm"
  variantOrm :: "variant orm"
  warehouseOrm :: "warehouse orm"
  supplierOrm :: "supplier orm"
  stockOrm :: "stock_level orm"
  auditOrm :: "audit orm"
  notificationOrm :: "notification orm"
  mediaOrm :: "media_asset orm"
  sync_children :: "uuid \<Rightarrow> category list \<Rightarrow> category list \<Rightarrow> exn + category list"
  sync_variants :: "uuid \<Rightarrow> variant list \<Rightarrow> variant list \<Rightarrow> exn + variant list"
  redis :: redis_client
  bcrypt_hash :: "jstring \<Rightarrow> nat \<Rightarrow> jstring"
  bcrypt_compare :: "jstring \<Rightarrow> jstring \<Rightarrow> bool"
  jwt_sign :: "nat \<Rightarrow> jwt_payload \<Rightarrow> jstring \<Rightarrow> jstring \<Rightarrow> jstring"
  jwt_verify :: "nat \<Rightarrow> jstring \<Rightarrow> jstring \<Rightarrow> exn + jwt_payload"
  is_uuid :: "jstring \<Rightarrow> bool"
  check :: "constraint \<Rightarrow> jval \<Rightarrow> bool"
  check_message :: "jstring \<Rightarrow> constraint \<Rightarrow> jstring"
  parse_number :: "jstring \<Rightarrow> rat option"
  similarity :: "jstring \<Rightarrow> jstring \<Rightarrow> rat"
  config_get :: "jstring \<Rightarrow> jstring"
  to_lower_nfd :: "jstring \<Rightarrow> jstring"
  sha1_hex :: "jstring \<Rightarrow> jstring"
  json_stringify :: "jval \<Rightarrow> jstring"
  ilike :: "jstring \<Rightarrow> jstring \<Rightarrow> bool"
  parse_date :: "jstring \<Rightarrow> int option"
  pg_date :: "jstring \<Rightarrow> int"
  rank_products :: "(product \<Rightarrow> rat) \<Rightarrow> product list \<Rightarrow> product list"
  rank_variants :: "(variant \<Rightarrow> rat) \<Rightarrow> variant list \<Rightarrow> variant list"
  s3_put :: "jstring \<Rightarrow> jstring \<Rightarrow> s3_object \<Rightarrow> s3_store \<Rightarrow> jstring + s3_store"
  s3_sign_get :: "jstring \<Rightarrow> jstring \<Rightarrow> nat \<Rightarrow> jstring"
  s3_sign_put :: "jstring \<Rightarrow> jstring \<Rightarrow> jstring \<Rightarrow> nat \<Rightarrow> jstring"

definition tenantRepo :: "env \<Rightarrow> (world, tenant) repo" where
  "tenantRepo E = \<lparr>r_get = w_tenants, r_set = (\<lambda>t w. w\<lparr>w_tenants := t\<rparr>), r_orm = tenantOrm E\<rparr>"

definition userRepo :: "env \<Rightarrow> (world, user) repo" where
  "userRepo E = \<lparr>r_get = w_users, r_set = (\<lambda>t w. w\<lparr>w_users := t\<rparr>), r_orm = userOrm E\<rparr>"

definition settingRepo :: "env \<Rightarrow> (world, tenant_setting) repo" where
  "settingRepo E = \<lparr>r_get = w_settings, r_set = (\<lambda>t w. w\<lparr>w_settings := t\<rparr>), r_orm = settingOrm E\<rparr>"

definition categoryRepo :: "env \<Rightarrow> (world, category) repo" where
  "categoryRepo E =
     \<lparr>r_get = w_categories, r_set = (\<lambda>t w. w\<lparr>w_categories := t\<rparr>), r_orm = categoryOrm E\<rparr>"

definition productRepo :: "env \<Rightarrow> (world, product) repo" where
  "productRepo E = \<lparr>r_get = w_products, r_set = (\<lambda>t w. w\<lparr>w_products := t\<rparr>), r_orm = productOrm E\<rparr>"

definition variantRepo :: "env \<Rightarrow> (world, variant) repo" where
  "variantRepo E = \<lparr>r_get = w_variants, r_set = (\<lambda>t w. w\<lparr>w_variants := t\<rparr>), r_orm = variantOrm E\<rparr>"

definition warehouseRepo :: "env \<Rightarrow> (world, warehouse) repo" where
  "warehouseRepo E =
     \<lparr>r_get = w_warehouses, r_set = (\<lambda>t w. w\<lparr>w_warehouses := t\<rparr>), r_orm = warehouseOrm E\<rparr>"

definition supplierRepo :: "env \<Rightarrow> (world, supplier) repo" where
  "supplierRepo E =
     \<lparr>r_get = w_suppliers, r_set = (\<lambda>t w. w\<lparr>w_suppliers := t\<rparr>), r_orm = supplierOrm E\<rparr>"

definition stockRepo :: "env \<Rightarrow> (world, stock_level) repo" where
  "stockRepo E = \<lparr>r_get = w_stock, r_set = (\<lambda>t w. w\<lparr>w_stock := t\<rparr>), r_orm = stockOrm E\<rparr>"

definition auditRepo :: "env \<Rightarrow> (world, audit) repo" where
  "auditRepo E = \<lparr>r_get = w_audits, r_set = (\<lambda>t w. w\<lparr>w_audits := t\<rparr>), r_orm = auditOrm E\<rparr>"

definition notificationRepo :: "env \<Rightarrow> (world, notification) repo" where
  "notificationRepo E = \<lparr>r_get = w_notifications, r_set = (\<lambda>t w. w\<lparr>w_notifications := t\<rparr>),
     r_orm = notificationOrm E\<rparr>"

definition mediaRepo :: "env \<Rightarrow> (world, media_asset) repo" where
  "mediaRepo E = \<lparr>r_get = w_media, r_set = (\<lambda>t w. w\<lparr>w_media := t\<rparr>), r_orm = mediaOrm E\<rparr>"

lemmas repos = tenantRepo_def userRepo_def settingRepo_def categoryRepo_def productRepo_def
  variantRepo_def warehouseRepo_def supplierRepo_def stockRepo_def auditRepo_def
  notificationRepo_def mediaRepo_def

section \<open>Executable engines for the examples\<close>

text \<open>A Redis that never fails; one \<open>SCAN\<close> call walks all keys. Patterns end in \<open>*\<close>.\<close>

definition mem_glob :: "jstring \<Rightarrow> jstring \<Rightarrow> bool" where
  "mem_glob pat k \<longleftrightarrow> take (length pat - 1) k = butlast pat"

definition mem_redis :: redis_client where
  "mem_redis = \<lparr>
     rd_get = (\<lambda>k st. Inr (map_option fst (map_of st k))),
     rd_set = (\<lambda>k v ttl st. (Inr (), (k, v, ttl) # st)),
     rd_ttl = (\<lambda>k st. Inr (case map_of st k of None \<Rightarrow> -2 | Some (v, ttl) \<Rightarrow> int ttl)),
     rd_del = (\<lambda>ks st. (Inr (), filter (\<lambda>(k, _). k \<notin> set ks) st)),
     rd_scan = (\<lambda>c pat n st. Inr (js ''0'', filter (mem_glob pat) (map fst st))) \<rparr>"

text \<open>
  A token that carries its secret, its time of issue and its claims in the clear. It is
  verified by writing its claims anew.
\<close>

definition packed :: "nat list \<Rightarrow> nat list" where
  "packed s = length s # s"

definition unpacked :: "nat list \<Rightarrow> nat list" where
  "unpacked t = take (hd t) (tl t)"

definition after_packed :: "nat list \<Rightarrow> nat list" where
  "after_packed t = drop (hd t) (tl t)"

definition all_roles :: "user_role list" where
  "all_roles = [SUPER_ADMIN, TENANT_ADMIN, AUDITOR, CATALOG_MANAGER, WAREHOUSE_MANAGER, CUSTOMER]"

definition mem_sign :: "nat \<Rightarrow> jwt_payload \<Rightarrow> jstring \<Rightarrow> jstring \<Rightarrow> jstring" where
  "mem_sign iat p secret ttl = packed secret @ packed (jp_sub p) @ packed (jp_tenantId p) @ packed (jp_email p) @
     [length (takeWhile (\<lambda>r. r \<noteq> jp_role p) all_roles), iat]"

definition mem_verify :: "nat \<Rightarrow> jstring \<Rightarrow> jstring \<Rightarrow> exn + jwt_payload" where
  "mem_verify now t secret =
     (let t1 = after_packed t; t2 = after_packed t1; t3 = after_packed t2; t4 = after_packed t3;
          p = \<lparr>jp_sub = unpacked t1, jp_tenantId = unpacked t2, jp_email = unpacked t3,
            jp_role = all_roles ! (hd t4)\<rparr>
      in if t = mem_sign (hd (tl t4)) p secret [] \<and> now < hd (tl t4) + 900 then Inr p
         else Inl (OtherError (js ''JsonWebTokenError'')))"

lemma packed_simps [simp]:
  "unpacked (packed s @ t) = s" "after_packed (packed s @ t) = t"
  by (simp_all add: packed_def unpacked_def after_packed_def)

lemma all_roles_nth: "all_roles ! length (takeWhile (\<lambda>r. r \<noteq> r0) all_roles) = r0"
  by (cases r0) (simp_all add: all_roles_def)

lemma mem_verify_sign:
  "mem_verify now (mem_sign iat p secret ttl) secret' =
     (if secret' = secret \<and> now < iat + 900 then Inr p else Inl (OtherError (js ''JsonWebTokenError'')))"
  by (simp add: mem_verify_def mem_sign_def Let_def all_roles_nth) (auto simp: packed_def)

text \<open>Validators that agree with the documented ones on plain strings; an email has an \<open>@\<close>.\<close>

definition on_string :: "(jstring \<Rightarrow> bool) \<Rightarrow> jval \<Rightarrow> bool" where
  "on_string P v = (case v of JStr s \<Rightarrow> P s | _ \<Rightarrow> False)"

definition on_number :: "(rat \<Rightarrow> bool) \<Rightarrow> jval \<Rightarrow> bool" where
  "on_number P v = (case v of JNum x \<Rightarrow> P x | _ \<Rightarrow> False)"

lemma on_string_iff: "on_string P v \<longleftrightarrow> (\<exists>s. v = JStr s \<and> P s)"
  by (cases v) (simp_all add: on_string_def)

lemma on_number_iff: "on_number P v \<longleftrightarrow> (\<exists>x. v = JNum x \<and> P x)"
  by (cases v) (simp_all add: on_number_def)

primrec mem_check :: "constraint \<Rightarrow> jval \<Rightarrow> bool" where
  "mem_check IsString = on_string (\<lambda>s. True)"
| "mem_check IsNotEmpty = (\<lambda>v. v \<noteq> JUndefined \<and> v \<noteq> JNull \<and> v \<noteq> JStr [])"
| "mem_check IsInt = on_number (\<lambda>x. snd (quotient_of x) = 1)"
| "mem_check (IsNumber k) = on_number (\<lambda>x. snd (quotient_of (x * 10 ^ k)) = 1)"
| "mem_check IsPositive = on_number (\<lambda>x. 0 < x)"
| "mem_check IsBoolean = (\<lambda>v. v = JBool True \<or> v = JBool False)"
| "mem_check IsBooleanString = on_string (\<lambda>s. s \<in> {js ''true'', js ''false'', js ''1'', js ''0''})"
| "mem_check IsUUID = on_string (\<lambda>s. s \<noteq> [] \<and> 58 \<notin> set s)"
| "mem_check IsEmail = on_string (\<lambda>s. 64 \<in> set s)"
| "mem_check IsJWT = on_string (\<lambda>s. True)"
| "mem_check IsISO8601 = on_string (\<lambda>s. s \<noteq> [])"
| "mem_check IsObject = (\<lambda>v. case v of JObj fs \<Rightarrow> True | _ \<Rightarrow> False)"
| "mem_check (IsIn vs) = on_string (\<lambda>s. s \<in> set vs)"
| "mem_check (IsEnum vs) = on_string (\<lambda>s. s \<in> set vs)"
| "mem_check (MinValue m) = on_number (\<lambda>x. m \<le> x)"
| "mem_check (MaxValue m) = on_number (\<lambda>x. x \<le> m)"
| "mem_check (MinLength n) = on_string (\<lambda>s. n \<le> length s)"
| "mem_check (MaxLength n) = on_string (\<lambda>s. length s \<le> n)"
| "mem_check (Matches p) = on_string (pattern_test p)"

definition mem_env :: env where
  "mem_env = \<lparr>
     tenantOrm = mem_orm tenant_entity, userOrm = mem_orm user_entity,
     settingOrm = mem_orm tenant_setting_entity, categoryOrm = mem_orm category_decl,
     productOrm = mem_orm product_decl, variantOrm = mem_orm variant_entity,
     warehouseOrm = mem_orm warehouse_entity, supplierOrm = mem_orm supplier_entity,
     stockOrm = mem_orm stock_level_entity, auditOrm = mem_orm audit_entity,
     notificationOrm = mem_orm notification_entity, mediaOrm = mem_orm media_asset_entity,
     sync_children = (\<lambda>i cs t. Inr t), sync_variants = (\<lambda>i vs t. Inr t),
     redis = mem_redis,
     bcrypt_hash = (\<lambda>p n. n # p), bcrypt_compare = (\<lambda>p h. tl h = p),
     jwt_sign = mem_sign, jwt_verify = mem_verify, is_uuid = (\<lambda>s. s \<noteq> [] \<and> 58 \<notin> set s), check = mem_check,
     check_message = (\<lambda>field c. field @ js '' is not valid''),
     parse_number = (\<lambda>s. if s \<noteq> [] \<and> list_all (\<lambda>c. 48 \<le> c \<and> c \<le> 57) s then Some (of_nat (undigits s)) else None),
     similarity = (\<lambda>s t. if s = t then 1 else 0),
     config_get = (\<lambda>k. k), to_lower_nfd = map (\<lambda>c. if 65 \<le> c \<and> c \<le> 90 then c + 32 else c),
     sha1_hex = (\<lambda>s. s), json_stringify = (\<lambda>v. []), ilike = (\<lambda>s pat. True),
     parse_date = (\<lambda>s. Some (int (undigits s))), pg_date = (\<lambda>s. int (undigits s)),
     rank_products = (\<lambda>f. sort_key (\<lambda>x. - f x)), rank_variants = (\<lambda>f. sort_key (\<lambda>x. - f x)),
     s3_put = (\<lambda>bucket key ob st. Inr (((bucket, key), ob) # st)),
     s3_sign_get = (\<lambda>bucket key ttl. bucket @ js ''/'' @ key),
     s3_sign_put = (\<lambda>bucket key ctype ttl. bucket @ js ''/'' @ key) \<rparr>"

lemma mem_env_engines [simp]:
  "repository tenant_entity (tenantOrm mem_env)"
  "repository user_entity (userOrm mem_env)"
  "repository tenant_setting_entity (settingOrm mem_env)"
  "repository category_decl (categoryOrm mem_env)"
  "repository product_decl (productOrm mem_env)"
  "repository variant_entity (variantOrm mem_env)"
  "repository warehouse_entity (warehouseOrm mem_env)"
  "repository supplier_entity (supplierOrm mem_env)"
  "repository stock_level_entity (stockOrm mem_env)"
  "repository audit_entity (auditOrm mem_env)"
  "repository notification_entity (notificationOrm mem_env)"
  "repository media_asset_entity (mediaOrm mem_env)"
  by (simp_all add: mem_env_def tenant_mem.repository_axioms user_mem.repository_axioms tenant_setting_mem.repository_axioms category_mem.repository_axioms product_mem.repository_axioms variant_mem.repository_axioms warehouse_mem.repository_axioms supplier_mem.repository_axioms stock_level_mem.repository_axioms audit_mem.repository_axioms notification_mem.repository_axioms media_asset_mem.repository_axioms)

end
