(* ===== verification/Cache.thy ===== *)
theory Cache
  imports Schema
begin

text \<open>
  The read-through cache: \<open>src/common/constants/cache.constants.ts\<close> (keys and times to live)
  and \<open>src/common/services/cache.service.ts\<close> (the service around the Redis client). Redis is
  a parameter; \<open>redis_server\<close> states its documented behaviour, \<open>cache_service\<close> the contract
  the other services rely on, and a \<open>sublocale\<close> shows that the code turns one into the other.
\<close>

section \<open>Keys and times to live\<close>

definition CACHE_TTL_DEFAULT :: nat where "CACHE_TTL_DEFAULT = 300"

definition CACHE_TTL_PRODUCT :: nat where "CACHE_TTL_PRODUCT = 300"

definition CACHE_TTL_CATEGORY :: nat where "CACHE_TTL_CATEGORY = 1800"

definition CACHE_TTL_USER :: nat where "CACHE_TTL_USER = 300"

definition hashQuery :: "env \<Rightarrow> jval \<Rightarrow> jstring" where
  "hashQuery E query = take 16 (sha1_hex E (json_stringify E query))"

definition category_key :: "uuid \<Rightarrow> uuid \<Rightarrow> jstring" where
  "category_key tenantId i = js ''t:'' @ tenantId @ js '':category:'' @ i"

definition categoriesList_key :: "env \<Rightarrow> uuid \<Rightarrow> jval \<Rightarrow> jstring" where
  "categoriesList_key E tenantId query =
     js ''t:'' @ tenantId @ js '':categories:list:'' @ hashQuery E query"

definition categoriesTree_key :: "uuid \<Rightarrow> jstring" where
  "categoriesTree_key tenantId = js ''t:'' @ tenantId @ js '':categories:tree''"

definition categoriesPattern :: "uuid \<Rightarrow> jstring" where
  "categoriesPattern tenantId = js ''t:'' @ tenantId @ js '':categories:*''"

definition product_key :: "uuid \<Rightarrow> uuid \<Rightarrow> jstring" where
  "product_key tenantId i = js ''t:'' @ tenantId @ js '':product:'' @ i"

definition productsList_key :: "env \<Rightarrow> uuid \<Rightarrow> jval \<Rightarrow> jstring" where
  "productsList_key E tenantId query =
     js ''t:'' @ tenantId @ js '':products:list:'' @ hashQuery E query"

definition productsPattern :: "uuid \<Rightarrow> jstring" where
  "productsPattern tenantId = js ''t:'' @ tenantId @ js '':products:*''"

definition user_key :: "uuid \<Rightarrow> uuid \<Rightarrow> jstring" where
  "user_key tenantId i = js ''t:'' @ tenantId @ js '':user:'' @ i"

text \<open>
  Every key is the tenant's prefix \<open>t:<tenant>:\<close> followed by a suffix that names the kind. A
  tenant identifier contains no colon (the middleware admits only UUIDs), so a key determines
  its tenant, its kind and its identifier.
\<close>

definition tenant_key :: "uuid \<Rightarrow> jstring \<Rightarrow> jstring" where
  "tenant_key tenantId suffix = js ''t:'' @ tenantId @ 58 # suffix"

definition plain_tenant :: "uuid \<Rightarrow> bool" where
  "plain_tenant tenantId \<longleftrightarrow> 58 \<notin> set tenantId"

lemma tenant_key_inject:
  assumes "plain_tenant T" and "plain_tenant T'" and "tenant_key T s = tenant_key T' s'"
  shows "T = T' \<and> s = s'"
  using assms split_at_sep [of 58 T T' s s'] by (simp add: tenant_key_def plain_tenant_def)

lemma keys_as_tenant_keys:
  "category_key T i = tenant_key T (js ''category:'' @ i)"
  "categoriesList_key E T q = tenant_key T (js ''categories:list:'' @ hashQuery E q)"
  "categoriesTree_key T = tenant_key T (js ''categories:tree'')"
  "product_key T i = tenant_key T (js ''product:'' @ i)"
  "productsList_key E T q = tenant_key T (js ''products:list:'' @ hashQuery E q)"
  "user_key T i = tenant_key T (js ''user:'' @ i)"
  by (simp_all add: category_key_def categoriesList_key_def categoriesTree_key_def
      product_key_def productsList_key_def user_key_def tenant_key_def js_def)

lemma suffix_kinds:
  "js ''category:'' @ i \<noteq> js ''categories:list:'' @ h" "js ''category:'' @ i \<noteq> js ''categories:tree''"
  "js ''category:'' @ i \<noteq> js ''product:'' @ j" "js ''category:'' @ i \<noteq> js ''products:list:'' @ h"
  "js ''category:'' @ i \<noteq> js ''user:'' @ j"
  "js ''categories:list:'' @ h \<noteq> js ''categories:tree''"
  "js ''categories:list:'' @ h \<noteq> js ''product:'' @ j"
  "js ''categories:list:'' @ h \<noteq> js ''products:list:'' @ h'" "js ''categories:list:'' @ h \<noteq> js ''user:'' @ j"
  "js ''categories:tree'' \<noteq> js ''product:'' @ j" "js ''categories:tree'' \<noteq> js ''products:list:'' @ h"
  "js ''categories:tree'' \<noteq> js ''user:'' @ j"
  "js ''product:'' @ i \<noteq> js ''products:list:'' @ h" "js ''product:'' @ i \<noteq> js ''user:'' @ j"
  "js ''products:list:'' @ h \<noteq> js ''user:'' @ j"
  by (simp_all add: js_def)

section \<open>Redis\<close>

text \<open>
  A scan: the successive calls of one iteration, from a cursor until the server answers with
  cursor \<open>0\<close>, each with the store it saw and the keys it returned.
\<close>

inductive scan_run ::
  "redis_client \<Rightarrow> jstring \<Rightarrow> nat \<Rightarrow> jstring \<Rightarrow> (redis_store \<times> jstring list) list \<Rightarrow> bool"
  for R :: redis_client and pat :: jstring and n :: nat where
  last_call: "rd_scan R c pat n st = Inr (js ''0'', ks) \<Longrightarrow> scan_run R pat n c [(st, ks)]"
| next_call: "rd_scan R c pat n st = Inr (c', ks) \<Longrightarrow> c' \<noteq> js ''0'' \<Longrightarrow>
    scan_run R pat n c' calls \<Longrightarrow> scan_run R pat n c ((st, ks) # calls)"

text \<open>
  The laws: a read returns the stored value (or nothing, when the entry has expired); a write
  stores at most its own entry, a deletion only removes entries, and removes the keys it was
  given when it succeeds; entries may also disappear at any time. A scan ends (its cursors are
  well-founded), and a full iteration returns every matching key that was there throughout. A
  glob \<open>prefix*\<close> matches the keys with that prefix.
\<close>

definition sub_store :: "redis_store \<Rightarrow> redis_store \<Rightarrow> bool" where
  "sub_store st' st \<longleftrightarrow> map_of st' \<subseteq>\<^sub>m map_of st"

lemma sub_store_refl [simp]: "sub_store st st"
  by (simp add: sub_store_def)

lemma sub_storeD: "sub_store st' st \<Longrightarrow> map_of st' k \<noteq> None \<Longrightarrow> map_of st k \<noteq> None"
  by (metis domIff map_le_implies_dom_le subsetD sub_store_def)

definition special_free :: "jstring \<Rightarrow> bool" where
  "special_free s \<longleftrightarrow> (\<forall>c \<in> set s. c \<notin> {42, 63, 91, 92, 93})"

locale redis_server =
  fixes R :: redis_client and glob :: "jstring \<Rightarrow> jstring \<Rightarrow> bool" and rank :: "jstring \<Rightarrow> nat"
  assumes get_stored: "rd_get R k st = Inr (Some v) \<Longrightarrow> \<exists>ttl. map_of st k = Some (v, ttl)"
    and set_stores: "rd_set R k v ttl st = (r, st') \<Longrightarrow> map_of st' k' \<noteq> None \<Longrightarrow>
      map_of st' k' = map_of st k' \<or> (k' = k \<and> map_of st' k' = Some (v, ttl))"
    and del_sub: "rd_del R ks st = (r, st') \<Longrightarrow> sub_store st' st"
    and del_removes: "rd_del R ks st = (Inr (), st') \<Longrightarrow> k \<in> set ks \<Longrightarrow> map_of st' k = None"
    and scan_ends: "rd_scan R c pat n st = Inr (c', ks) \<Longrightarrow> c' \<noteq> js ''0'' \<Longrightarrow>
      c = js ''0'' \<or> rank c' < rank c"
    and scan_complete: "scan_run R pat n (js ''0'') calls \<Longrightarrow> glob pat k \<Longrightarrow>
      (\<forall>(st, ks) \<in> set calls. map_of st k \<noteq> None) \<Longrightarrow> \<exists>(st, ks) \<in> set calls. k \<in> set ks"
    and glob_prefix: "special_free p \<Longrightarrow> glob (p @ [42]) k \<longleftrightarrow> (\<exists>rest. k = p @ rest)"

section \<open>The cache service\<close>

text \<open>Errors of the client are logged and swallowed: no operation throws.\<close>

definition cache_set :: "redis_client \<Rightarrow> jstring \<Rightarrow> cached \<Rightarrow> nat \<Rightarrow> (world, unit) act" where
  "cache_set R key v ttl = (\<lambda>w. case rd_set R key v ttl (w_redis w) of
     (Inr _, st) \<Rightarrow> (Inr (), w\<lparr>w_redis := st\<rparr>)
   | (Inl error, st) \<Rightarrow> (Inr (), w\<lparr>w_redis := st\<rparr>))"

definition cache_get :: "redis_client \<Rightarrow> jstring \<Rightarrow> (world, cached option) act" where
  "cache_get R key = (\<lambda>w. case rd_get R key (w_redis w) of
     Inr None \<Rightarrow> (Inr None, w)
   | Inr (Some item) \<Rightarrow> (Inr (Some item), w)
   | Inl error \<Rightarrow> (Inr None, w))"

definition cache_ttl :: "redis_client \<Rightarrow> jstring \<Rightarrow> (world, int option) act" where
  "cache_ttl R key = (\<lambda>w. case rd_ttl R key (w_redis w) of
     Inr ttl \<Rightarrow> (Inr (if ttl = -2 then None else Some ttl), w)
   | Inl error \<Rightarrow> (Inr None, w))"

definition cache_del :: "redis_client \<Rightarrow> jstring \<Rightarrow> (world, unit) act" where
  "cache_del R key = (\<lambda>w. case rd_del R [key] (w_redis w) of
     (Inr _, st) \<Rightarrow> (Inr (), w\<lparr>w_redis := st\<rparr>)
   | (Inl error, st) \<Rightarrow> (Inr (), w\<lparr>w_redis := st\<rparr>))"

text \<open>The \<open>do ... while (cursor !== '0')\<close> loop; \<open>None\<close> is a scan that never ends.\<close>

partial_function (option) scan_del ::
  "redis_client \<Rightarrow> jstring \<Rightarrow> jstring \<Rightarrow> redis_store \<Rightarrow> ((exn + unit) \<times> redis_store) option" where
  "scan_del R pattern cursor st =
     (case rd_scan R cursor pattern 100 st of
        Inl error \<Rightarrow> Some (Inl error, st)
      | Inr (nextCursor, keys) \<Rightarrow>
          (case (if keys \<noteq> [] then rd_del R keys st else (Inr (), st)) of
             (Inl error, st') \<Rightarrow> Some (Inl error, st')
           | (Inr _, st') \<Rightarrow>
               (if nextCursor = js ''0'' then Some (Inr (), st')
                else scan_del R pattern nextCursor st')))"

declare scan_del.simps [code]

definition cache_delByPattern :: "redis_client \<Rightarrow> jstring \<Rightarrow> (world, unit) act" where
  "cache_delByPattern R pattern = (\<lambda>w. case scan_del R pattern (js ''0'') (w_redis w) of
     Some (Inr _, st) \<Rightarrow> (Inr (), w\<lparr>w_redis := st\<rparr>)
   | Some (Inl error, st) \<Rightarrow> (Inr (), w\<lparr>w_redis := st\<rparr>)
   | None \<Rightarrow> (Inl Nontermination, w))"

lemmas cache_defs =
  cache_set_def cache_get_def cache_ttl_def cache_del_def cache_delByPattern_def

section \<open>What the other services rely on\<close>

text \<open>
  \<open>entries_ok \<Phi> st\<close>: every entry satisfies \<open>\<Phi>\<close>, a property of a key and its value. The contract
  says that the cache returns only stored values, stores at most what it is given, never
  touches the database or the event bus, and never throws.
\<close>

definition entries_ok :: "(jstring \<Rightarrow> cached \<Rightarrow> bool) \<Rightarrow> redis_store \<Rightarrow> bool" where
  "entries_ok \<Phi> st \<longleftrightarrow> (\<forall>k v ttl. map_of st k = Some (v, ttl) \<longrightarrow> \<Phi> k v)"

locale cache_service =
  fixes get :: "jstring \<Rightarrow> (world, cached option) act"
    and set :: "jstring \<Rightarrow> cached \<Rightarrow> nat \<Rightarrow> (world, unit) act"
    and del :: "jstring \<Rightarrow> (world, unit) act"
    and delByPattern :: "jstring \<Rightarrow> (world, unit) act"
  assumes get_run: "\<exists>v. get k w = (Inr v, w) \<and>
      (v = None \<or> (\<exists>c ttl. v = Some c \<and> map_of (w_redis w) k = Some (c, ttl)))"
    and set_run: "\<exists>st. set k v ttl w = (Inr (), w\<lparr>w_redis := st\<rparr>) \<and>
      (\<forall>k'. map_of st k' \<noteq> None \<longrightarrow>
        map_of st k' = map_of (w_redis w) k' \<or> (k' = k \<and> map_of st k' = Some (v, ttl)))"
    and del_run: "\<exists>st. del k w = (Inr (), w\<lparr>w_redis := st\<rparr>) \<and> sub_store st (w_redis w)"
    and delByPattern_run: "\<exists>st. delByPattern p w = (Inr (), w\<lparr>w_redis := st\<rparr>) \<and>
      sub_store st (w_redis w)"
begin

lemma get_entry:
  assumes "entries_ok \<Phi> (w_redis w)" and "get k w = (Inr (Some c), w')"
  shows "w' = w \<and> \<Phi> k c"
  using get_run [of k w] assms by (auto simp: entries_ok_def)

lemma set_entries:
  assumes "entries_ok \<Phi> (w_redis w)" and "\<Phi> k v" and "set k v ttl w = (r, w')"
  shows "entries_ok \<Phi> (w_redis w')"
  using set_run [of k v ttl w] assms by (fastforce simp: entries_ok_def)

lemma sub_entries: "entries_ok \<Phi> st \<Longrightarrow> sub_store st' st \<Longrightarrow> entries_ok \<Phi> st'"
  by (auto simp: entries_ok_def sub_store_def map_le_def) (metis domI)

lemma del_entries:
  assumes "entries_ok \<Phi> (w_redis w)" and "del k w = (r, w')"
  shows "entries_ok \<Phi> (w_redis w')"
  using del_run [of k w] assms by (auto intro: sub_entries)

lemma delByPattern_entries:
  assumes "entries_ok \<Phi> (w_redis w)" and "delByPattern p w = (r, w')"
  shows "entries_ok \<Phi> (w_redis w')"
  using delByPattern_run [of p w] assms by (auto intro: sub_entries)

end

section \<open>The code keeps the contract\<close>

context redis_server begin

lemma scan_del_Some: "\<exists>r st'. scan_del R pat c st = Some (r, st') \<and> sub_store st' st"
proof -
  have step: "\<exists>r st'. scan_del R pat c st = Some (r, st') \<and> sub_store st' st"
    if rec: "\<And>c' ks st'. rd_scan R c pat 100 st = Inr (c', ks) \<Longrightarrow> c' \<noteq> js ''0'' \<Longrightarrow>
      \<exists>r st''. scan_del R pat c' st' = Some (r, st'') \<and> sub_store st'' st'" for c st
  proof (cases "rd_scan R c pat 100 st")
    case (Inl e)
    then show ?thesis by (subst scan_del.simps) (simp add: sub_store_def)
  next
    case (Inr p)
    obtain c' ks where p: "p = (c', ks)" by (cases p)
    obtain r st1 where d: "(if ks \<noteq> [] then rd_del R ks st else (Inr (), st)) = (r, st1)"
      by (metis surj_pair)
    then have sub: "sub_store st1 st"
      by (auto simp: sub_store_def split: if_splits dest: del_sub [unfolded sub_store_def])
    show ?thesis
    proof (cases "(\<exists>e. r = Inl e) \<or> c' = js ''0''")
      case True
      with Inr p d sub show ?thesis
        by (subst scan_del.simps) (auto split: sum.splits)
    next
      case False
      with rec [OF Inr [unfolded p]] obtain r' st2 where
        "scan_del R pat c' st1 = Some (r', st2)" and "sub_store st2 st1" by blast
      moreover from this(2) sub have "sub_store st2 st"
        unfolding sub_store_def by (rule map_le_trans)
      ultimately show ?thesis
        using Inr p d False by (subst scan_del.simps) (auto split: sum.splits)
    qed
  qed
  have nonzero: "\<exists>r st'. scan_del R pat c st = Some (r, st') \<and> sub_store st' st"
    if "c \<noteq> js ''0''" for c st
    using that
  proof (induction "rank c" arbitrary: c st rule: less_induct)
    case less
    show ?case
    proof (rule step)
      fix c' ks st'
      assume call: "rd_scan R c pat 100 st = Inr (c', ks)" and "c' \<noteq> js ''0''"
      from scan_ends [OF this] less.prems have "rank c' < rank c" by blast
      then show "\<exists>r st''. scan_del R pat c' st' = Some (r, st'') \<and> sub_store st'' st'"
        using \<open>c' \<noteq> js ''0''\<close> by (rule less.hyps)
    qed
  qed
  show ?thesis by (rule step) (rule nonzero)
qed

text \<open>After a deletion by pattern that met no error, no matching key is left.\<close>

lemma scan_del_calls:
  assumes run: "scan_del R pat c st = Some (r, st')"
  shows "r = Inr () \<longrightarrow> map_of st' k \<noteq> None \<longrightarrow> map_of st k \<noteq> None \<and>
    (\<exists>calls. scan_run R pat 100 c calls \<and>
      (\<forall>(s, ks) \<in> set calls. map_of s k \<noteq> None \<and> k \<notin> set ks))"
proof -
  let ?P = "\<lambda>S pat c st (r :: exn + unit, st'). S = R \<longrightarrow> r = Inr () \<longrightarrow> map_of st' k \<noteq> None \<longrightarrow>
    map_of st k \<noteq> None \<and> (\<exists>calls. scan_run R pat 100 c calls \<and>
      (\<forall>(s, ks) \<in> set calls. map_of s k \<noteq> None \<and> k \<notin> set ks))"
  have "?P R pat c st (r, st')"
  proof (rule scan_del.raw_induct [where P = ?P, OF _ run])
    fix f S pat c st y
    assume IH: "\<And>S pat c st y. f S pat c st = Some y \<Longrightarrow> ?P S pat c st y"
      and eq: "(case rd_scan S c pat 100 st of
           Inl error \<Rightarrow> Some (Inl error, st)
         | Inr (nextCursor, keys) \<Rightarrow>
             (case (if keys \<noteq> [] then rd_del S keys st else (Inr (), st)) of
                (Inl error, st') \<Rightarrow> Some (Inl error, st')
              | (Inr _, st') \<Rightarrow> (if nextCursor = js ''0'' then Some (Inr (), st')
                  else f S pat nextCursor st'))) = Some y"
    obtain r st'' where y: "y = (r, st'')" by (cases y)
    have "map_of st k \<noteq> None \<and> (\<exists>calls. scan_run R pat 100 c calls \<and>
        (\<forall>(s, ks) \<in> set calls. map_of s k \<noteq> None \<and> k \<notin> set ks))"
      if S: "S = R" and r: "r = Inr ()" and left: "map_of st'' k \<noteq> None"
    proof -
      obtain c' ks where call: "rd_scan R c pat 100 st = Inr (c', ks)"
        using eq S r y by (cases "rd_scan R c pat 100 st") auto
      obtain d st1 where d: "(if ks \<noteq> [] then rd_del R ks st else (Inr (), st)) = (d, st1)"
        by (metis surj_pair)
      have "d = Inr ()"
        using eq S r y call d by (cases d) auto
      with d have del: "(if ks \<noteq> [] then rd_del R ks st else (Inr (), st)) = (Inr (), st1)"
        by simp
      have rest: "(if c' = js ''0'' then Some (Inr (), st1) else f R pat c' st1) = Some y"
        using eq unfolding S call by (simp only: sum.case prod.case del)
      have more: "map_of st1 k \<noteq> None \<and> (c' \<noteq> js ''0'' \<longrightarrow> (\<exists>calls. scan_run R pat 100 c' calls \<and>
          (\<forall>(s, ks) \<in> set calls. map_of s k \<noteq> None \<and> k \<notin> set ks)))"
        using rest r y left IH [of R pat c' st1 y] by (auto split: if_splits)
      have "sub_store st1 st"
        using del by (cases "ks = []") (auto dest: del_sub)
      moreover have "k \<notin> set ks"
        using del del_removes [of ks st st1 k] more by (cases "ks = []") auto
      ultimately have here: "map_of st k \<noteq> None \<and> k \<notin> set ks"
        using more sub_storeD by blast
      show ?thesis
      proof (cases "c' = js ''0''")
        case True
        with call here show ?thesis
          by (auto intro!: exI [of _ "[(st, ks)]"] intro: scan_run.last_call)
      next
        case False
        with more obtain calls where "scan_run R pat 100 c' calls"
          and "\<forall>(s, ks) \<in> set calls. map_of s k \<noteq> None \<and> k \<notin> set ks" by blast
        with call False here show ?thesis
          by (auto intro!: exI [of _ "(st, ks) # calls"] intro: scan_run.next_call)
      qed
    qed
    then show "?P S pat c st y" using y by simp
  qed
  then show ?thesis by simp
qed

lemma scan_del_complete:
  assumes "scan_del R pat (js ''0'') st = Some (Inr (), st')" and "glob pat k"
  shows "map_of st' k = None"
proof (rule ccontr)
  assume left: "map_of st' k \<noteq> None"
  with scan_del_calls [OF assms(1), of k] obtain calls where
    "scan_run R pat 100 (js ''0'') calls"
    and calls: "\<forall>(s, ks) \<in> set calls. map_of s k \<noteq> None \<and> k \<notin> set ks" by blast
  with scan_complete [OF this(1) assms(2)] show False by fastforce
qed

end

sublocale redis_server \<subseteq> cache_service "cache_get R" "cache_set R" "cache_del R" "cache_delByPattern R"
proof
  fix k w
  show "\<exists>v. cache_get R k w = (Inr v, w) \<and>
      (v = None \<or> (\<exists>c ttl. v = Some c \<and> map_of (w_redis w) k = Some (c, ttl)))"
    using get_stored [of k "w_redis w"]
    by (auto simp: cache_get_def split: sum.splits option.splits)
  show "\<exists>st. cache_set R k v ttl w = (Inr (), w\<lparr>w_redis := st\<rparr>) \<and>
      (\<forall>k'. map_of st k' \<noteq> None \<longrightarrow>
        map_of st k' = map_of (w_redis w) k' \<or> (k' = k \<and> map_of st k' = Some (v, ttl)))" for v ttl
  proof -
    obtain r st where set: "rd_set R k v ttl (w_redis w) = (r, st)" by (metis surj_pair)
    then have "cache_set R k v ttl w = (Inr (), w\<lparr>w_redis := st\<rparr>)"
      by (simp add: cache_set_def split: sum.splits)
    with set_stores [OF set] show ?thesis by blast
  qed
  show "\<exists>st. cache_del R k w = (Inr (), w\<lparr>w_redis := st\<rparr>) \<and> sub_store st (w_redis w)"
    using del_sub [of "[k]" "w_redis w"]
    by (cases "rd_del R [k] (w_redis w)") (auto simp: cache_del_def split: sum.splits)
  show "\<exists>st. cache_delByPattern R k w = (Inr (), w\<lparr>w_redis := st\<rparr>) \<and> sub_store st (w_redis w)"
    using scan_del_Some [of k "js ''0''" "w_redis w"]
    by (auto simp: cache_delByPattern_def split: sum.splits)
qed

context redis_server begin

lemma service: "cache_service (cache_get R) (cache_set R) (cache_del R) (cache_delByPattern R)"
  by unfold_locales

end

text \<open>
  \<open>cache_only\<close>: a step that leaves the database alone and keeps every property of the cache
  entries. The deletions of a service are such steps, and so is everything made of them.
\<close>

definition cache_only :: "world \<Rightarrow> world \<Rightarrow> bool" where
  "cache_only w w' \<longleftrightarrow> (\<exists>st es. w' = w\<lparr>w_redis := st, w_bus := w_bus w @ es\<rparr> \<and>
     (\<forall>\<Phi>. entries_ok \<Phi> (w_redis w) \<longrightarrow> entries_ok \<Phi> st))"

lemma cache_only_rows:
  assumes "cache_only w w'"
  shows "w_categories w' = w_categories w \<and> w_products w' = w_products w \<and>
    w_variants w' = w_variants w \<and> w_users w' = w_users w \<and>
    (\<forall>\<Phi>. entries_ok \<Phi> (w_redis w) \<longrightarrow> entries_ok \<Phi> (w_redis w'))"
proof -
  from assms obtain st es where w': "w' = w\<lparr>w_redis := st, w_bus := w_bus w @ es\<rparr>"
    and st: "\<forall>\<Phi>. entries_ok \<Phi> (w_redis w) \<longrightarrow> entries_ok \<Phi> st"
    unfolding cache_only_def by blast
  then show ?thesis by simp
qed

lemma cache_onlyI:
  assumes "w' = w\<lparr>w_redis := st\<rparr>" and "\<And>\<Phi>. entries_ok \<Phi> (w_redis w) \<Longrightarrow> entries_ok \<Phi> st"
  shows "cache_only w w'"
  unfolding cache_only_def
  using assms by (intro exI [of _ st] exI [of _ "[]"]) simp

interpretation cache_frame: frame cache_only
proof
  show "cache_only w w" for w
    by (rule cache_onlyI [where st = "w_redis w"]) simp_all
next
  fix u v w
  assume "cache_only u v" and "cache_only v w"
  then obtain st es st' es' where v: "v = u\<lparr>w_redis := st, w_bus := w_bus u @ es\<rparr>"
    and w: "w = v\<lparr>w_redis := st', w_bus := w_bus v @ es'\<rparr>"
    and keep: "\<forall>\<Phi>. entries_ok \<Phi> (w_redis u) \<longrightarrow> entries_ok \<Phi> st"
      "\<forall>\<Phi>. entries_ok \<Phi> (w_redis v) \<longrightarrow> entries_ok \<Phi> st'"
    unfolding cache_only_def by blast
  have "w = u\<lparr>w_redis := st', w_bus := w_bus u @ (es @ es')\<rparr>" by (simp add: w v)
  moreover have "\<forall>\<Phi>. entries_ok \<Phi> (w_redis u) \<longrightarrow> entries_ok \<Phi> st'" using keep by (simp add: v)
  ultimately show "cache_only u w" unfolding cache_only_def by blast
qed

lemma cache_only_del:
  assumes "redis_server R glob rank"
  shows "keeps cache_only (cache_del R k)"
proof (rule keepsI)
  fix w r w' assume run: "cache_del R k w = (r, w')"
  note C = redis_server.service [OF assms]
  from cache_service.del_run [OF C, of k w] run obtain st where
    st: "w' = w\<lparr>w_redis := st\<rparr>" "sub_store st (w_redis w)" by auto
  from st(1) show "cache_only w w'"
    by (rule cache_onlyI) (rule cache_service.sub_entries [OF C _ st(2)])
qed

lemma cache_only_delByPattern:
  assumes "redis_server R glob rank"
  shows "keeps cache_only (cache_delByPattern R k)"
proof (rule keepsI)
  fix w r w' assume run: "cache_delByPattern R k w = (r, w')"
  note C = redis_server.service [OF assms]
  from cache_service.delByPattern_run [OF C, of k w] run obtain st where
    st: "w' = w\<lparr>w_redis := st\<rparr>" "sub_store st (w_redis w)" by auto
  from st(1) show "cache_only w w'"
    by (rule cache_onlyI) (rule cache_service.sub_entries [OF C _ st(2)])
qed

section \<open>The concrete client\<close>

lemma mem_scan_run:
  "scan_run mem_redis pat n c calls \<Longrightarrow>
     \<exists>st. calls = [(st, filter (mem_glob pat) (map fst st))]"
  by (induction rule: scan_run.induct) (auto simp: mem_redis_def)

interpretation mem_cache: redis_server mem_redis mem_glob length
proof
  fix pat n calls k
  assume "scan_run mem_redis pat n (js ''0'') calls" and "mem_glob pat k"
    and "\<forall>(st, ks) \<in> set calls. map_of st k \<noteq> None"
  then show "\<exists>(st, ks) \<in> set calls. k \<in> set ks"
    by (auto dest!: mem_scan_run simp: map_of_eq_None_iff)
next
  fix ks and st st' :: redis_store and r
  assume "rd_del mem_redis ks st = (r, st')"
  then have st': "st' = filter (\<lambda>(k, _). k \<notin> set ks) st" by (simp add: mem_redis_def)
  have del: "map_of st' k = (if k \<in> set ks then None else map_of st k)" for k
    unfolding st' by (induction st) auto
  show "sub_store st' st" by (auto simp: sub_store_def map_le_def del split: if_splits)
  show "\<And>k. k \<in> set ks \<Longrightarrow> map_of st' k = None" by (simp add: del)
next
  fix p k
  show "mem_glob (p @ [42]) k \<longleftrightarrow> (\<exists>rest. k = p @ rest)"
    by (auto simp: mem_glob_def) (metis append_take_drop_id)
qed (auto simp: mem_redis_def split: if_splits)

section \<open>Properties\<close>

lemma productsPattern_prefix:
  "productsPattern T = (js ''t:'' @ T @ js '':products:'') @ [42]"
  "productsList_key E T q = (js ''t:'' @ T @ js '':products:'') @ js ''list:'' @ hashQuery E q"
  by (simp_all add: productsPattern_def productsList_key_def js_def)

text \<open>
  C11: Invalidating a tenant's product listings always ends and never throws; it only removes
  cache entries and touches nothing else; and when Redis reported no error on the way, no cached
  listing of the tenant's products is left, whatever the query it was stored under.
\<close>

theorem productsPattern_clears:
  assumes R: "redis_server R glob rank" and T: "special_free T"
    and run: "cache_delByPattern R (productsPattern T) w = (r, w')"
  shows "r = Inr () \<and> w' = w\<lparr>w_redis := w_redis w'\<rparr> \<and> sub_store (w_redis w') (w_redis w) \<and>
    ((\<exists>st. scan_del R (productsPattern T) (js ''0'') (w_redis w) = Some (Inr (), st)) \<longrightarrow>
      (\<forall>E q. map_of (w_redis w') (productsList_key E T q) = None))"
proof -
  obtain d st where d: "scan_del R (productsPattern T) (js ''0'') (w_redis w) = Some (d, st)"
    and sub: "sub_store st (w_redis w)"
    using redis_server.scan_del_Some [OF R] by blast
  then have w': "r = Inr ()" "w' = w\<lparr>w_redis := st\<rparr>"
    using run by (auto simp: cache_delByPattern_def split: sum.splits)
  have "special_free (js ''t:'' @ T @ js '':products:'')"
    using T by (auto simp: special_free_def js_def)
  then have "glob (productsPattern T) (productsList_key E T q)" for E q
    by (simp only: productsPattern_prefix redis_server.glob_prefix [OF R]) blast
  then have "d = Inr () \<Longrightarrow> map_of st (productsList_key E T q) = None" for E q
    using redis_server.scan_del_complete [OF R d [THEN trans]] d by blast
  with d sub w' show ?thesis by auto
qed

lemma productsPattern_clears_witness:
  "fst (cache_delByPattern mem_redis (productsPattern (js ''A''))
     (empty_world\<lparr>w_redis := [(productsList_key mem_env (js ''A'') JNull, CachedTree [], 300)]\<rparr>)) = Inr () \<and>
   map_of (w_redis (snd (cache_delByPattern mem_redis (productsPattern (js ''A''))
     (empty_world\<lparr>w_redis := [(productsList_key mem_env (js ''A'') JNull, CachedTree [], 300)]\<rparr>))))
     (productsList_key mem_env (js ''A'') JNull) = None"
proof -
  let ?w = "empty_world\<lparr>w_redis := [(productsList_key mem_env (js ''A'') JNull, CachedTree [], 300)]\<rparr>"
  obtain r w' where run: "cache_delByPattern mem_redis (productsPattern (js ''A'')) ?w = (r, w')"
    by (metis surj_pair)
  have "\<exists>st. scan_del mem_redis (productsPattern (js ''A'')) (js ''0'') (w_redis ?w) = Some (Inr (), st)"
    by (subst scan_del.simps) (simp add: mem_redis_def)
  moreover have "special_free (js ''A'')" by (simp add: special_free_def js_def)
  ultimately show ?thesis
    using productsPattern_clears [OF mem_cache.redis_server_axioms _ run] run by simp
qed

text \<open>
  Cache keys never clash: two keys, of any of the six kinds, for tenants whose identifiers
  contain no colon, are equal only when they are of the same tenant, the same kind and the same
  identifier (or query hash). A cached value is therefore only ever read back by the tenant and
  the lookup it was stored for.
\<close>

fun cache_key :: "env \<Rightarrow> uuid \<Rightarrow> nat \<Rightarrow> jstring \<Rightarrow> jval \<Rightarrow> jstring" where
  "cache_key E T 0 i q = category_key T i"
| "cache_key E T (Suc 0) i q = product_key T i"
| "cache_key E T (Suc (Suc 0)) i q = user_key T i"
| "cache_key E T (Suc (Suc (Suc 0))) i q = categoriesList_key E T q"
| "cache_key E T (Suc (Suc (Suc (Suc 0)))) i q = productsList_key E T q"
| "cache_key E T _ i q = categoriesTree_key T"

theorem cache_keys_distinct:
  assumes "plain_tenant T" "plain_tenant T'" "kind \<le> 5" "kind' \<le> 5"
    and "cache_key E T kind i q = cache_key E T' kind' i' q'"
  shows "T = T' \<and> kind = kind' \<and> (kind \<le> 2 \<longrightarrow> i = i') \<and>
    (3 \<le> kind \<and> kind \<le> 4 \<longrightarrow> hashQuery E q = hashQuery E q')"
proof -
  have kinds: "k \<in> {0, Suc 0, Suc (Suc 0), Suc (Suc (Suc 0)), Suc (Suc (Suc (Suc 0))),
      Suc (Suc (Suc (Suc (Suc 0))))}" if "k \<le> 5" for k :: nat
    using that by auto
  note inject = tenant_key_inject [OF assms(1,2)]
  show ?thesis
    using assms(5) kinds [OF assms(3)] kinds [OF assms(4)]
    by (auto simp: keys_as_tenant_keys suffix_kinds suffix_kinds [symmetric] dest!: inject)
qed

lemma cache_keys_distinct_witness:
  "cache_key mem_env (js ''A'') 0 (js ''x'') JNull \<noteq> cache_key mem_env (js ''B'') 1 (js ''x'') JNull"
  using cache_keys_distinct [of "js ''A''" "js ''B''" 0 1 mem_env "js ''x''" JNull "js ''x''" JNull]
  by (auto simp: plain_tenant_def js_def)

end
