(* ===== verification/Pagination.thy ===== *)
theory Pagination
  imports Schema
begin

text \<open>
  Paginated responses (\<open>src/common/interfaces/paginated-response.interface.ts\<close> and the
  response code at the end of every \<open>findAll\<close>): the number of pages, the links, and the window
  of rows a page shows.
\<close>

text \<open>\<open>Math.ceil(total / limit)\<close>\<close>

definition ceil_div :: "nat \<Rightarrow> nat \<Rightarrow> nat" where
  "ceil_div total_rows limit = (total_rows + limit - 1) div limit"

text \<open>\<open>Math.ceil(total / limit) || 1\<close>: an empty listing still has one page.\<close>

definition pages_or_one :: "nat \<Rightarrow> nat \<Rightarrow> nat" where
  "pages_or_one total_rows limit = (if ceil_div total_rows limit = 0 then 1 else ceil_div total_rows limit)"

text \<open>\<open>`${base}?page=${page}&limit=${limit}`\<close>\<close>

definition page_link :: "jstring \<Rightarrow> nat \<Rightarrow> nat \<Rightarrow> jstring" where
  "page_link base page limit =
     base @ js ''?page='' @ digits page @ js ''&limit='' @ digits limit"

definition paginated_response ::
  "(nat \<Rightarrow> jstring) \<Rightarrow> 'a list \<Rightarrow> nat \<Rightarrow> nat \<Rightarrow> nat \<Rightarrow> nat \<Rightarrow> 'a paginated" where
  "paginated_response link data total_rows pages page limit =
     \<lparr> pg_data = data,
       pg_meta = \<lparr> totalItems = total_rows, itemCount = length data, itemsPerPage = limit,
                   totalPages = pages, currentPage = page \<rparr>,
       pg_links = \<lparr> link_first = link 1,
                    link_previous = (if page > 1 then Some (link (page - 1)) else None),
                    link_next = (if page < pages then Some (link (page + 1)) else None),
                    link_last = link pages \<rparr> \<rparr>"

text \<open>The window of page \<open>page\<close>: \<open>skip((page - 1) * limit).take(limit)\<close>.\<close>

definition page_of :: "nat \<Rightarrow> nat \<Rightarrow> 'a list \<Rightarrow> 'a list" where
  "page_of page limit xs = take limit (drop ((page - 1) * limit) xs)"

lemma ceil_div_bounds:
  assumes "0 < limit"
  shows "total_rows \<le> ceil_div total_rows limit * limit" and "ceil_div total_rows limit * limit < total_rows + limit"
proof -
  have "ceil_div total_rows limit * limit = total_rows + limit - 1 - (total_rows + limit - 1) mod limit"
    by (simp add: ceil_div_def minus_mod_eq_div_mult)
  moreover have "(total_rows + limit - 1) mod limit < limit" using assms by simp
  ultimately show "total_rows \<le> ceil_div total_rows limit * limit"
    and "ceil_div total_rows limit * limit < total_rows + limit"
    using assms by linarith+
qed

lemma ceil_div_ceiling:
  assumes "0 < limit"
  shows "int (ceil_div total_rows limit) = \<lceil>(of_nat total_rows :: rat) / of_nat limit\<rceil>"
proof -
  let ?c = "ceil_div total_rows limit"
  have "(of_nat total_rows :: rat) \<le> of_nat (?c * limit)"
    using ceil_div_bounds(1) [OF assms] of_nat_mono by blast
  moreover have "(of_nat (?c * limit) :: rat) < of_nat (total_rows + limit)"
    using ceil_div_bounds(2) [OF assms] of_nat_less_iff by blast
  ultimately show ?thesis
    using assms by (intro ceiling_unique [symmetric]) (simp_all add: field_simps)
qed

text \<open>Going through the pages in order lists every row exactly once.\<close>

lemma concat_pages_upto:
  "concat (map (\<lambda>p. page_of p limit xs) [1..<Suc n]) = take (n * limit) xs"
proof (induction n)
  case (Suc n)
  have "concat (map (\<lambda>p. page_of p limit xs) [1..<Suc (Suc n)]) =
      take (n * limit) xs @ take limit (drop (n * limit) xs)"
    using Suc.IH by (simp add: page_of_def)
  also have "\<dots> = take (Suc n * limit) xs"
    by (metis add.commute mult_Suc take_add)
  finally show ?case .
qed simp

lemma concat_pages:
  assumes "0 < limit"
  shows "concat (map (\<lambda>p. page_of p limit xs) [1..<Suc (ceil_div (length xs) limit)]) = xs"
  by (simp only: concat_pages_upto) (simp add: ceil_div_bounds [OF assms])

lemma concat_pages_or_one:
  assumes "0 < limit"
  shows "concat (map (\<lambda>p. page_of p limit xs) [1..<Suc (pages_or_one (length xs) limit)]) = xs"
proof (cases "ceil_div (length xs) limit = 0")
  case True
  with ceil_div_bounds(1) [OF assms, of "length xs"] have "xs = []" by simp
  then show ?thesis by (simp add: page_of_def)
next
  case False
  then show ?thesis using concat_pages [OF assms, of xs] by (simp add: pages_or_one_def)
qed

text \<open>What a listing answers for the successive pages of a query, and that it loses no row.\<close>

lemma listing_pages:
  assumes db: "repository M (r_orm R)" and "0 < limit"
    and rows: "rows = o_order (r_orm R) ord (o_select (r_orm R) P (r_get R w))"
  shows "get_many_and_count R P ord (skip_take ((p - 1) * limit) limit) w =
      (Inr (page_of p limit rows, length rows), w)"
    and "mset (concat (map (\<lambda>p. page_of p limit rows) [1..<Suc (pages_or_one (length rows) limit)])) =
      {#r \<in># mset (r_get R w). e_alive M r \<and> P r#}"
proof -
  have m: "mset rows = mset (o_select (r_orm R) P (r_get R w))"
    by (simp add: rows repository.order_rows [OF db])
  from arg_cong [where f = size, OF m]
  show "get_many_and_count R P ord (skip_take ((p - 1) * limit) limit) w =
      (Inr (page_of p limit rows, length rows), w)"
    by (simp add: get_many_and_count_eq repository.page_window [OF db] page_of_def rows)
  show "mset (concat (map (\<lambda>p. page_of p limit rows) [1..<Suc (pages_or_one (length rows) limit)])) =
      {#r \<in># mset (r_get R w). e_alive M r \<and> P r#}"
    by (simp only: concat_pages_or_one [OF assms(2)] m repository.select_rows [OF db])
qed

lemma page_link_inject:
  assumes "page_link base p l = page_link base p' l'"
  shows "p = p' \<and> l = l'"
proof -
  have amp: "38 \<notin> set (digits n)" for n using digits_range by fastforce
  have sep: "js ''&limit='' = 38 # js ''limit=''" by (simp add: js_def)
  from assms have "digits p @ 38 # js ''limit='' @ digits l =
      digits p' @ 38 # js ''limit='' @ digits l'"
    by (simp add: page_link_def sep)
  from split_at_sep [OF amp amp this] show ?thesis by simp
qed

end
