(* ===== verification/AuditLog.thy ===== *)
theory AuditLog
  imports Pagination
begin

text \<open>
  Audit logging (\<open>src/audit\<close>): \<open>AuditService.record\<close> turns an input of a service and the
  request's context into an event on the bus, \<open>AuditListener.addAudit\<close> stores an event as a
  row, and the two query methods page through one tenant's rows. The request context lives in
  an \<open>AsyncLocalStorage\<close>; a method that reads it takes the stored value as the argument \<open>ctx\<close>
  (\<open>None\<close> outside of any request).
\<close>

section \<open>Recording\<close>

record audit_context =
  ac_tenantId :: "uuid option"
  ac_actorId :: "uuid option"
  ac_requestId :: "jstring option"
  ac_ipAddress :: "jstring option"
  ac_userAgent :: "jstring option"

record audit_input =
  ai_action :: audit_action
  ai_entityType :: audited_entity
  ai_entityId :: uuid
  ai_oldValues :: "jval option"
  ai_newValues :: "jval option"
  ai_metadata :: "audit_metadata option"
  ai_actorId :: "uuid option"

definition audit_input :: "audit_action \<Rightarrow> audited_entity \<Rightarrow> uuid \<Rightarrow> jval option \<Rightarrow> jval option \<Rightarrow> audit_input" where
  "audit_input a ty i old new = \<lparr> ai_action = a, ai_entityType = ty, ai_entityId = i,
     ai_oldValues = old, ai_newValues = new, ai_metadata = None, ai_actorId = None \<rparr>"

text \<open>\<open>x ?? y\<close> on optional values.\<close>

definition coalesce :: "'a option \<Rightarrow> 'a option \<Rightarrow> 'a option" where
  "coalesce x y = (case x of None \<Rightarrow> y | Some a \<Rightarrow> Some a)"

definition emit :: "event \<Rightarrow> (world, unit) act" where
  "emit e = modify (\<lambda>w. w\<lparr>w_bus := w_bus w @ [e]\<rparr>)"

text \<open>The event \<open>record\<close> builds, when the context names a tenant.\<close>

definition audit_event_of :: "uuid \<Rightarrow> audit_context \<Rightarrow> audit_input \<Rightarrow> audit_event" where
  "audit_event_of tenantId context input =
     \<lparr> ae_tenantId = tenantId,
       ae_actorId = coalesce (ai_actorId input) (ac_actorId context),
       ae_action = ai_action input,
       ae_entityType = ai_entityType input,
       ae_entityId = ai_entityId input,
       ae_oldValues = or_default (ai_oldValues input) JNull,
       ae_newValues = or_default (ai_newValues input) JNull,
       ae_metadata =
         \<lparr> am_ipAddress = coalesce (Option.bind (ai_metadata input) am_ipAddress) (ac_ipAddress context),
           am_userAgent = coalesce (Option.bind (ai_metadata input) am_userAgent) (ac_userAgent context),
           am_requestId = coalesce (Option.bind (ai_metadata input) am_requestId) (ac_requestId context),
           am_reason = Option.bind (ai_metadata input) am_reason \<rparr> \<rparr>"

definition context_tenant :: "audit_context option \<Rightarrow> uuid option" where
  "context_tenant ctx = truthy (Option.bind ctx ac_tenantId)"

definition audit_record :: "audit_context option \<Rightarrow> audit_input \<Rightarrow> (world, unit) act" where
  "audit_record ctx input =
     (case context_tenant ctx of
        None \<Rightarrow> throw (InternalServerErrorException (js ''Tenant context is required for audit logging''))
      | Some tenantId \<Rightarrow> emit (AuditLogEvent (audit_event_of tenantId (the ctx) input)))"

lemma context_tenant_Some: "context_tenant ctx = Some t \<Longrightarrow>
    \<exists>c. ctx = Some c \<and> ac_tenantId c = Some t \<and> t \<noteq> []"
  by (cases ctx) (auto simp: context_tenant_def truthy_def split: option.splits if_splits)

lemma audit_record_run:
  "audit_record ctx input w =
     (case context_tenant ctx of
        None \<Rightarrow> (Inl (InternalServerErrorException (js ''Tenant context is required for audit logging'')), w)
      | Some t \<Rightarrow> (Inr (), w\<lparr>w_bus := w_bus w @ [AuditLogEvent (audit_event_of t (the ctx) input)]\<rparr>))"
  by (simp add: audit_record_def emit_def act_defs split: option.splits)

lemma audit_record_Inr [inv_simps]:
  "audit_record ctx input w = (Inr u, w') \<longleftrightarrow>
     (\<exists>t. context_tenant ctx = Some t \<and>
       w' = w\<lparr>w_bus := w_bus w @ [AuditLogEvent (audit_event_of t (the ctx) input)]\<rparr>)"
  by (auto simp: audit_record_run split: option.splits)

lemma audit_record_Inl [inv_simps]:
  "audit_record ctx input w = (Inl e, w') \<longleftrightarrow> context_tenant ctx = None \<and> w' = w \<and>
     e = InternalServerErrorException (js ''Tenant context is required for audit logging'')"
  by (auto simp: audit_record_run split: option.splits)

subsection \<open>Writing a row and recording it\<close>

text \<open>
  How the writing methods of all services end: save the entity, record the change, return the
  saved entity; or remove the row and record that. The two lemmas say what such an ending does
  to the state, however it ends: note that a failing \<open>record\<close> leaves the saved row behind.
\<close>

definition emitted :: "event list \<Rightarrow> world \<Rightarrow> world" where
  "emitted es w = w\<lparr>w_bus := w_bus w @ es\<rparr>"

lemma emitted_Nil [simp]: "emitted [] w = w"
  by (simp add: emitted_def)

definition audit_events :: "audit_context option \<Rightarrow> audit_input \<Rightarrow> event list" where
  "audit_events ctx input = (case context_tenant ctx of
     None \<Rightarrow> [] | Some t \<Rightarrow> [AuditLogEvent (audit_event_of t (the ctx) input)])"

lemma audit_record_cases:
  "audit_record ctx input w = (r, w') \<longleftrightarrow> w' = emitted (audit_events ctx input) w \<and>
     r = (if context_tenant ctx = None
          then Inl (InternalServerErrorException (js ''Tenant context is required for audit logging''))
          else Inr ())"
  by (auto simp: audit_record_run audit_events_def emitted_def split: option.splits)

definition save_and_record ::
  "(world, 'row) repo \<Rightarrow> audit_context option \<Rightarrow> ('row \<Rightarrow> audit_input) \<Rightarrow> 'row \<Rightarrow> (world, 'row) act" where
  "save_and_record R ctx input row =
     andThen (save R row) (\<lambda>saved. andThen (audit_record ctx (input saved)) (\<lambda>_. ret saved))"

lemma save_and_record_state:
  assumes "save_and_record R ctx input row w = (r, w')"
  shows "(\<exists>e. r = Inl e) \<and> w' = w \<or>
    (\<exists>x t'. o_save (r_orm R) row (r_get R w) = Inr (x, t') \<and>
       w' = emitted (audit_events ctx (input x)) (r_set R t' w) \<and> (\<forall>y. r = Inr y \<longrightarrow> y = x))"
  using assms
  by (auto simp: save_and_record_def andThen_def save_def ret_def audit_record_run audit_events_def
      emitted_def split: sum.splits prod.splits option.splits)

lemma save_and_record_Inr:
  "save_and_record R ctx input row w = (Inr x, w') \<longleftrightarrow>
     (\<exists>t'. o_save (r_orm R) row (r_get R w) = Inr (x, t') \<and> context_tenant ctx \<noteq> None \<and>
       w' = emitted (audit_events ctx (input x)) (r_set R t' w))"
  by (auto simp: save_and_record_def flow_simps inv_simps emitted_def audit_events_def)

lemma conflict_state: "conflict_on_unique msg m w = (r, w') \<Longrightarrow>
    \<exists>r0. m w = (r0, w') \<and> (\<forall>y. r = Inr y \<longleftrightarrow> r0 = Inr y)"
  by (cases r) (auto simp: conflict_on_unique_Inr conflict_on_unique_Inl)

definition remove_and_record ::
  "(world, 'row) repo \<Rightarrow> audit_context option \<Rightarrow> audit_input \<Rightarrow> ('row \<Rightarrow> bool) \<Rightarrow> (world, unit) act" where
  "remove_and_record R ctx input P =
     andThen (soft_remove R P) (\<lambda>_. audit_record ctx input)"

lemma remove_and_record_state:
  assumes "remove_and_record R ctx input P w = (r, w')"
  shows "(\<exists>e. r = Inl e) \<and> w' = w \<or>
    (\<exists>n t'. o_soft_remove (r_orm R) P (r_get R w) = Inr (n, t') \<and>
       w' = emitted (audit_events ctx input) (r_set R t' w))"
  using assms
  by (auto simp: remove_and_record_def andThen_def soft_remove_def audit_record_run audit_events_def
      emitted_def split: sum.splits prod.splits option.splits)

section \<open>Storing\<close>

text \<open>\<open>AuditListener.addAudit\<close>: an error of the insert is logged and swallowed.\<close>

definition audit_row :: "audit_event \<Rightarrow> audit" where
  "audit_row payload =
     \<lparr> a_id = no_id, a_tenantId = ae_tenantId payload, a_actorId = ae_actorId payload,
       a_action = ae_action payload, a_entityType = ae_entityType payload,
       a_entityId = ae_entityId payload, a_oldValues = ae_oldValues payload,
       a_newValues = ae_newValues payload, a_metadata = ae_metadata payload, a_createdAt = 0 \<rparr>"

definition addAudit :: "env \<Rightarrow> audit_event \<Rightarrow> (world, unit) act" where
  "addAudit E payload =
     catch (andThen (save (auditRepo E) (audit_row payload)) (\<lambda>_. ret ())) (\<lambda>error. ret ())"

lemma addAudit_total: "\<exists>w'. addAudit E payload w = (Inr (), w')"
  by (auto simp: addAudit_def act_defs save_def split: sum.splits prod.splits)

lemma addAudit_rows:
  assumes db: "repository audit_entity (auditOrm E)"
    and run: "addAudit E payload w = (Inr (), w')"
  shows "w' = w \<or> (\<exists>r. w' = w\<lparr>w_audits := w_audits w'\<rparr> \<and>
    mset (w_audits w') = add_mset r (mset (w_audits w)) \<and>
    r\<lparr>a_createdAt := 0, a_id := no_id\<rparr> = audit_row payload)"
proof (cases "o_save (auditOrm E) (audit_row payload) (w_audits w)")
  case (Inl e)
  with run have "w' = w"
    by (simp add: addAudit_def act_defs save_def repos)
  then show ?thesis ..
next
  case (Inr p)
  obtain r t where p: "p = (r, t)" by (cases p)
  note s = Inr [unfolded p]
  have w': "w' = w\<lparr>w_audits := t\<rparr>"
    using run s by (simp add: addAudit_def act_defs save_def repos)
  have "r\<lparr>a_createdAt := 0\<rparr> = (audit_row payload)\<lparr>a_id := a_id r\<rparr>"
    using repository.save_cols [OF db s] by (simp add: audit_entity_def audit_row_def)
  then have "r\<lparr>a_createdAt := 0, a_id := no_id\<rparr> = (audit_row payload)\<lparr>a_id := no_id\<rparr>"
    by simp
  then have "r\<lparr>a_createdAt := 0, a_id := no_id\<rparr> = audit_row payload"
    by (simp add: audit_row_def)
  moreover have "mset t = add_mset r (mset (w_audits w))"
    using repository.save_insert [OF db s] by (simp add: audit_entity_def audit_row_def)
  ultimately show ?thesis using w' by auto
qed

section \<open>Querying\<close>

record audit_query =
  aq_page :: "nat option"
  aq_limit :: "nat option"
  aq_actorId :: "jstring option"
  aq_action :: "audit_action option"
  aq_entityType :: "audited_entity option"
  aq_startDate :: "jstring option"
  aq_endDate :: "jstring option"

text \<open>\<open>assertDateRange\<close>; an unreadable date is \<open>NaN\<close>, and comparisons with it are false.\<close>

definition date_range_ok :: "env \<Rightarrow> jstring option \<Rightarrow> jstring option \<Rightarrow> bool" where
  "date_range_ok E startDate endDate =
     (case (truthy startDate, truthy endDate) of
        (Some s, Some e) \<Rightarrow>
          (case (parse_date E s, parse_date E e) of
             (Some a, Some b) \<Rightarrow> \<not> a > b
           | _ \<Rightarrow> True)
      | _ \<Rightarrow> True)"

definition assertDateRange :: "env \<Rightarrow> audit_query \<Rightarrow> (world, unit) act" where
  "assertDateRange E query =
     ensure (date_range_ok E (aq_startDate query) (aq_endDate query))
       (BadRequestException (js ''startDate must not be after endDate''))"

definition opt_filter :: "'a option \<Rightarrow> ('a \<Rightarrow> bool) \<Rightarrow> bool" where
  "opt_filter x P = (case x of None \<Rightarrow> True | Some a \<Rightarrow> P a)"

definition buildLogQuery :: "env \<Rightarrow> uuid \<Rightarrow> audit_query \<Rightarrow> audit \<Rightarrow> bool" where
  "buildLogQuery E tenantId query entry \<longleftrightarrow>
     a_tenantId entry = tenantId \<and>
     opt_filter (truthy (aq_actorId query)) (\<lambda>actorId. a_actorId entry = Some actorId) \<and>
     opt_filter (aq_action query) (\<lambda>action. a_action entry = action) \<and>
     opt_filter (aq_entityType query) (\<lambda>entityType. a_entityType entry = entityType) \<and>
     opt_filter (truthy (aq_startDate query)) (\<lambda>d. pg_date E d \<le> int (a_createdAt entry)) \<and>
     opt_filter (truthy (aq_endDate query)) (\<lambda>d. int (a_createdAt entry) \<le> pg_date E d)"

definition log_order :: order_by where
  "log_order = [(js ''created_at'', js ''DESC''), (js ''id'', js ''DESC'')]"

record actor_summary =
  as_id :: uuid
  as_email :: jstring
  as_firstName :: jstring
  as_lastName :: jstring

text \<open>The left join with the actor, selecting four columns.\<close>

definition join_actor :: "user list \<Rightarrow> audit \<Rightarrow> audit \<times> actor_summary option" where
  "join_actor users entry = (entry,
     map_option (\<lambda>u. \<lparr>as_id = u_id u, as_email = u_email u, as_firstName = u_firstName u,
       as_lastName = u_lastName u\<rparr>)
     (find (\<lambda>u. Some (u_id u) = a_actorId entry \<and> u_deletedAt u = None) users))"

definition audit_paginated ::
  "'a list \<Rightarrow> nat \<Rightarrow> audit_query \<Rightarrow> jstring \<Rightarrow> 'a paginated" where
  "audit_paginated data total_rows query basePath =
     (let page = or_default (aq_page query) 1; limit = or_default (aq_limit query) 20
      in paginated_response (\<lambda>p. page_link basePath p limit) data total_rows
           (pages_or_one total_rows limit) page limit)"

definition log_page :: "audit_query \<Rightarrow> paging" where
  "log_page query =
     skip_take ((or_default (aq_page query) 1 - 1) * or_default (aq_limit query) 20)
       (or_default (aq_limit query) 20)"

definition findLogs ::
  "env \<Rightarrow> uuid \<Rightarrow> audit_query \<Rightarrow> (world, (audit \<times> actor_summary option) paginated) act" where
  "findLogs E tenantId query =
     andThen (assertDateRange E query) (\<lambda>_.
     andThen (get_many_and_count (auditRepo E) (buildLogQuery E tenantId query) log_order
       (log_page query)) (\<lambda>(data, total_rows).
     andThen (gets w_users) (\<lambda>users.
     ret (audit_paginated (map (join_actor users) data) total_rows query
       (js ''/api/v1/audit/logs'')))))"

definition findEntityLogs ::
  "env \<Rightarrow> uuid \<Rightarrow> uuid \<Rightarrow> audit_query \<Rightarrow> (world, (audit \<times> actor_summary option) paginated) act" where
  "findEntityLogs E tenantId entityId query =
     andThen (assertDateRange E query) (\<lambda>_.
     andThen (get_many_and_count (auditRepo E)
       (\<lambda>entry. buildLogQuery E tenantId query entry \<and> a_entityId entry = entityId) log_order
       (log_page query)) (\<lambda>(data, total_rows).
     andThen (gets w_users) (\<lambda>users.
     ret (audit_paginated (map (join_actor users) data) total_rows query
       (js ''/api/v1/audit/logs/'' @ entityId)))))"

lemma findLogs_rows:
  assumes db: "repository audit_entity (auditOrm E)"
    and run: "findLogs E tenantId query w = (Inr res, w')"
    and row: "(entry, actor) \<in> set (pg_data res)"
  shows "w' = w \<and> entry \<in> set (w_audits w) \<and> buildLogQuery E tenantId query entry"
proof -
  from run obtain data n where
    q: "get_many_and_count (auditRepo E) (buildLogQuery E tenantId query) log_order (log_page query) w
      = (Inr (data, n), w')"
    and res: "res = audit_paginated (map (join_actor (w_users w')) data) n query
      (js ''/api/v1/audit/logs'')"
    by (auto simp: findLogs_def assertDateRange_def flow_simps)
  have "entry \<in> set data"
    using row by (auto simp: res audit_paginated_def paginated_response_def join_actor_def Let_def)
  with repository.page_rows [OF db q] show ?thesis
    using q by (auto simp: repos get_many_and_count_eq)
qed

section \<open>Properties\<close>


definition sample_audit_context :: audit_context where
  "sample_audit_context = \<lparr>ac_tenantId = Some (js ''A''), ac_actorId = Some (js ''U''),
     ac_requestId = Some (js ''R''), ac_ipAddress = None, ac_userAgent = None\<rparr>"

definition sample_input :: audit_input where
  "sample_input = audit_input DELETE ET_SUPPLIER (js ''S'') None None"


text \<open>
  C10: Listing the audit log: a reversed date range is refused with a 400; otherwise every entry
  of a page is a stored entry of the calling tenant that satisfies every filter given, and with
  a limit the pages 1 to \<open>totalPages\<close> together list the matching entries exactly once each. No
  listing changes the state.
\<close>

theorem findLogs_pages:
  assumes db: "repository audit_entity (auditOrm E)" and pos: "0 < limit"
    and run: "\<And>p. findLogs E T (query\<lparr>aq_page := Some p, aq_limit := Some limit\<rparr>) w = (res p, w' p)"
  shows "if date_range_ok E (aq_startDate query) (aq_endDate query)
    then (\<forall>p. w' p = w \<and> (\<exists>page. res p = Inr page)) \<and>
      mset (concat (map (\<lambda>p. map fst (pg_data (projr (res p))))
        [1..<Suc (totalPages (pg_meta (projr (res 1))))])) =
      {#x \<in># mset (w_audits w). buildLogQuery E T query x#}
    else w' p = w \<and> res p = Inl (BadRequestException (js ''startDate must not be after endDate''))"
proof (cases "date_range_ok E (aq_startDate query) (aq_endDate query)")
  case False
  then show ?thesis
    using run [of p]
    by (auto simp: findLogs_def assertDateRange_def andThen_def ensure_def throw_def)
next
  case True
  define rows where "rows = o_order (auditOrm E) log_order
    (o_select (auditOrm E) (buildLogQuery E T query) (w_audits w))"
  have r: "rows = o_order (r_orm (auditRepo E)) log_order (o_select (r_orm (auditRepo E))
      (buildLogQuery E T query) (r_get (auditRepo E) w))"
    by (simp add: rows_def repos)
  have "repository audit_entity (r_orm (auditRepo E))" using db by (simp add: repos)
  note L = listing_pages [OF this pos r]
  have same: "buildLogQuery E T (query\<lparr>aq_page := a, aq_limit := b\<rparr>) = buildLogQuery E T query" for a b
    by (simp add: buildLogQuery_def [abs_def])
  have "findLogs E T (query\<lparr>aq_page := Some p, aq_limit := Some limit\<rparr>) w =
      (Inr (audit_paginated (map (join_actor (w_users w)) (page_of p limit rows)) (length rows)
        (query\<lparr>aq_page := Some p, aq_limit := Some limit\<rparr>) (js ''/api/v1/audit/logs'')), w)" for p
    using True L(1) [of p]
    by (simp add: findLogs_def assertDateRange_def andThen_def ensure_def ret_def gets_def same
        log_page_def or_default_def)
  then have eq: "res p = Inr (audit_paginated (map (join_actor (w_users w)) (page_of p limit rows))
      (length rows) (query\<lparr>aq_page := Some p, aq_limit := Some limit\<rparr>) (js ''/api/v1/audit/logs''))"
    "w' p = w" for p
    using run [of p] by (metis Pair_inject)+
  have p: "w' p = w \<and> (\<exists>page. res p = Inr page \<and> map fst (pg_data page) = page_of p limit rows \<and>
      totalPages (pg_meta page) = pages_or_one (length rows) limit)" for p
    by (simp add: eq audit_paginated_def paginated_response_def Let_def or_default_def join_actor_def
        comp_def)
  then have proj: "map fst (pg_data (projr (res p))) = page_of p limit rows"
    "totalPages (pg_meta (projr (res p))) = pages_or_one (length rows) limit" for p
    by (metis sum.sel(2))+
  have "\<forall>p. w' p = w \<and> (\<exists>page. res p = Inr page)" using p by blast
  with True proj L(2) show ?thesis by (simp add: repos audit_entity_def)
qed

definition sample_query :: audit_query where
  "sample_query = \<lparr>aq_page = None, aq_limit = None, aq_actorId = None, aq_action = None,
     aq_entityType = None, aq_startDate = Some (js ''9''), aq_endDate = Some (js ''3'')\<rparr>"

lemma findLogs_pages_witness:
  "findLogs mem_env (js ''A'') (sample_query\<lparr>aq_page := Some 1, aq_limit := Some 5\<rparr>) empty_world =
     (Inl (BadRequestException (js ''startDate must not be after endDate'')), empty_world)"
proof -
  define run where "run p = findLogs mem_env (js ''A'')
    (sample_query\<lparr>aq_page := Some p, aq_limit := Some 5\<rparr>) empty_world" for p :: nat
  have pair: "findLogs mem_env (js ''A'') (sample_query\<lparr>aq_page := Some p, aq_limit := Some 5\<rparr>) empty_world =
      (fst (run p), snd (run p))" for p
    by (simp add: run_def)
  have "\<not> date_range_ok mem_env (aq_startDate sample_query) (aq_endDate sample_query)"
    by (simp add: sample_query_def date_range_ok_def truthy_def mem_env_def js_def undigits_def)
  with findLogs_pages [OF _ _ pair, of 1] show ?thesis
    by (simp only: mem_env_engines if_False) (simp add: pair)
qed

end
