(* ===== verification/TenantService.thy ===== *)
theory TenantService
  imports AuditLog
begin

text \<open>
  The contract every tenant-scoped service keeps. A service is seen as a step relation: one
  call, made for a tenant, takes the state to the state the call leaves behind (also when it
  throws). \<open>tenant_service\<close> asks of one call that it keeps the service's invariant and does not
  touch the rows of other tenants; what follows is a statement about arbitrary interleavings
  of calls of all tenants. The theories of the services interpret it.
\<close>

text \<open>A history: successive calls, each with the tenant it was made for.\<close>

inductive history :: "(uuid \<Rightarrow> 'w \<Rightarrow> 'w \<Rightarrow> bool) \<Rightarrow> uuid list \<Rightarrow> 'w \<Rightarrow> 'w \<Rightarrow> bool"
  for step :: "uuid \<Rightarrow> 'w \<Rightarrow> 'w \<Rightarrow> bool" where
  history_Nil: "history step [] w w"
| history_Cons: "step T w w1 \<Longrightarrow> history step Ts w1 w2 \<Longrightarrow> history step (T # Ts) w w2"

inductive_simps history_Nil_iff [simp]: "history step [] w w'"
inductive_simps history_Cons_iff [simp]: "history step (T # Ts) w w'"

locale tenant_service =
  fixes step :: "uuid \<Rightarrow> 'w \<Rightarrow> 'w \<Rightarrow> bool"
    and rows :: "'w \<Rightarrow> 'row list"
    and tenant_of :: "'row \<Rightarrow> uuid"
    and inv :: "'w \<Rightarrow> bool"
  assumes step_inv: "step T w w' \<Longrightarrow> inv w \<Longrightarrow> inv w'"
    and step_others: "step T w w' \<Longrightarrow> inv w \<Longrightarrow>
      {#x \<in># mset (rows w'). tenant_of x \<noteq> T#} = {#x \<in># mset (rows w). tenant_of x \<noteq> T#}"
begin

lemma step_tenant:
  assumes "step T' w w'" and "inv w" and "T \<noteq> T'"
  shows "{#x \<in># mset (rows w'). tenant_of x = T#} = {#x \<in># mset (rows w). tenant_of x = T#}"
proof -
  have "{#x \<in># mset v. tenant_of x = T#} =
      {#x \<in># {#x \<in># mset v. tenant_of x \<noteq> T'#}. tenant_of x = T#}" for v
    using assms(3) by (auto simp: filter_filter_mset intro!: filter_mset_cong)
  with step_others [OF assms(1,2)] show ?thesis by metis
qed

lemma history_inv: "history step Ts w w' \<Longrightarrow> inv w \<Longrightarrow> inv w'"
  by (induction rule: history.induct) (auto dest: step_inv)

lemma history_tenant:
  "history step Ts w w' \<Longrightarrow> inv w \<Longrightarrow> T \<notin> set Ts \<Longrightarrow>
     {#x \<in># mset (rows w'). tenant_of x = T#} = {#x \<in># mset (rows w). tenant_of x = T#}"
proof (induction rule: history.induct)
  case (history_Cons T' w w1 Ts w2)
  then have "inv w1" by (blast dest: step_inv)
  with history_Cons step_tenant [OF history_Cons.hyps(1), of T] show ?case by auto
qed simp

end

text \<open>
  The rows one call may have written, when it saves at most one row of a table or removes rows
  of it: enough for isolation and for the primary keys to stay assigned and distinct.
\<close>

definition ids_ok :: "'row entity \<Rightarrow> 'row list \<Rightarrow> bool" where
  "ids_ok M t \<longleftrightarrow> distinct (map (e_id M) t) \<and> (\<forall>x \<in> set t. e_id M x \<noteq> no_id)"

context repository begin

lemma same_id:
  "ids_ok M t \<Longrightarrow> x \<in> set t \<Longrightarrow> y \<in> set t \<Longrightarrow> e_id M x = e_id M y \<Longrightarrow> x = y"
  by (auto simp: ids_ok_def distinct_map dest: inj_onD)

lemma save_id: "o_save db r t = Inr (r', t') \<Longrightarrow> e_id M r' \<noteq> no_id"
  using save_new save_old by metis

lemma save_ids:
  assumes s: "o_save db r t = Inr (r', t')" and ok: "ids_ok M t"
  shows "ids_ok M t'"
  using save_distinct [OF s] save_set [OF s] save_id [OF s] ok by (auto simp: ids_ok_def)

lemma remove_ids:
  assumes "o_soft_remove db P t = Inr (n, t')" and "ids_ok M t"
  shows "ids_ok M t'"
proof -
  obtain g where g: "mset t' = image_mset g (mset t)"
    and gx: "\<And>x. if P x then killed M x (g x) else g x = x"
    using remove_rows [OF assms(1)] by blast
  have "e_id M (g x) = e_id M x" for x
    using gx [of x] by (cases "P x") (auto simp: killed_def)
  then have m: "mset (map (e_id M) t') = mset (map (e_id M) t)"
    by (simp add: g image_mset.compositionality comp_def)
  from mset_eq_setD [OF m] have "e_id M ` set t' = e_id M ` set t" by simp
  then have "\<forall>x \<in> set t'. e_id M x \<noteq> no_id"
    using assms(2) unfolding ids_ok_def by (metis imageE image_eqI)
  then show ?thesis
    using assms(2) m unfolding ids_ok_def by (metis mset_eq_imp_distinct_iff)
qed

lemma save_others:
  assumes s: "o_save db r t = Inr (r', t')" and d: "ids_ok M t"
    and tenant: "tenant_of r' = T"
    and old: "e_id M r \<noteq> no_id \<Longrightarrow> \<exists>x \<in> set t. e_id M x = e_id M r \<and> tenant_of x = T"
  shows "{#x \<in># mset t'. tenant_of x \<noteq> T#} = {#x \<in># mset t. tenant_of x \<noteq> T#}"
proof (rule save_outside [OF s, where Q = "\<lambda>x. tenant_of x = T"])
  fix x assume x: "x \<in> set t" "e_id M x = e_id M r'"
  show "tenant_of x = T"
  proof (cases "e_id M r = no_id")
    case True
    with save_new [OF s] x show ?thesis by (metis image_eqI)
  next
    case False
    with old obtain y where "y \<in> set t" "e_id M y = e_id M r" "tenant_of y = T" by blast
    with same_id [OF d x(1)] x(2) save_old [OF s False] show ?thesis by metis
  qed
qed (rule tenant)

end

section \<open>Tables with a key per tenant\<close>

text \<open>
  The services that keep a column unique among a tenant's live rows write in one of three ways:
  a new row with a free key; a new version of one of the tenant's live rows, which keeps its
  key or takes a free one; the removal of one of the tenant's rows. The key of a row is the
  pair of its tenant and that column.
\<close>

definition key_free :: "'row entity \<Rightarrow> ('row \<Rightarrow> 'k) \<Rightarrow> 'k \<Rightarrow> uuid \<Rightarrow> 'row list \<Rightarrow> bool" where
  "key_free M key k own t \<longleftrightarrow> (\<forall>x \<in> set t. e_alive M x \<longrightarrow> key x = k \<longrightarrow> e_id M x = own)"

inductive tenant_write ::
  "'row entity \<Rightarrow> 'row orm \<Rightarrow> ('row \<Rightarrow> uuid \<times> 'k) \<Rightarrow> uuid \<Rightarrow> 'row list \<Rightarrow> 'row list \<Rightarrow> bool"
  for M :: "'row entity" and db :: "'row orm" and key :: "'row \<Rightarrow> uuid \<times> 'k" and T :: uuid where
  write_nothing: "tenant_write M db key T t t"
| write_new: "o_save db row t = Inr (x, t') \<Longrightarrow> e_id M row = no_id \<Longrightarrow> fst (key row) = T \<Longrightarrow>
    key_free M key (key row) no_id t \<Longrightarrow> tenant_write M db key T t t'"
| write_old: "o_save db row t = Inr (x, t') \<Longrightarrow> old \<in> set t \<Longrightarrow> e_alive M old \<Longrightarrow>
    e_id M old = e_id M row \<Longrightarrow> fst (key old) = T \<Longrightarrow> fst (key row) = T \<Longrightarrow>
    key row = key old \<or> key_free M key (key row) (e_id M row) t \<Longrightarrow> tenant_write M db key T t t'"
| write_remove: "o_soft_remove db (\<lambda>x. e_id M x = i) t = Inr (n, t') \<Longrightarrow> old \<in> set t \<Longrightarrow>
    e_id M old = i \<Longrightarrow> fst (key old) = T \<Longrightarrow> tenant_write M db key T t t'"

definition table_inv :: "'row entity \<Rightarrow> ('row \<Rightarrow> 'k) \<Rightarrow> 'row list \<Rightarrow> bool" where
  "table_inv M key t \<longleftrightarrow> ids_ok M t \<and> live_key_unique M key t"

lemma table_inv_Nil [simp]: "table_inv M key []"
  by (simp add: table_inv_def ids_ok_def live_key_unique_def)

text \<open>A repository reads back what it writes, whatever is published.\<close>

definition table_lens :: "(world, 'row) repo \<Rightarrow> bool" where
  "table_lens R \<longleftrightarrow> (\<forall>t w es. r_get R (emitted es (r_set R t w)) = t)"

lemma table_lenses [simp]:
  "table_lens (tenantRepo E)" "table_lens (userRepo E)" "table_lens (settingRepo E)"
  "table_lens (categoryRepo E)" "table_lens (productRepo E)" "table_lens (variantRepo E)"
  "table_lens (warehouseRepo E)" "table_lens (supplierRepo E)" "table_lens (stockRepo E)"
  "table_lens (auditRepo E)" "table_lens (notificationRepo E)" "table_lens (mediaRepo E)"
  by (simp_all add: table_lens_def repos emitted_def)

lemma repo_simps [simp]:
  "r_get (supplierRepo E) = w_suppliers" "r_orm (supplierRepo E) = supplierOrm E"
  "r_get (warehouseRepo E) = w_warehouses" "r_orm (warehouseRepo E) = warehouseOrm E"
  "r_get (categoryRepo E) = w_categories" "r_orm (categoryRepo E) = categoryOrm E"
  "r_get (productRepo E) = w_products" "r_orm (productRepo E) = productOrm E"
  "r_get (variantRepo E) = w_variants" "r_orm (variantRepo E) = variantOrm E"
  "r_get (stockRepo E) = w_stock" "r_orm (stockRepo E) = stockOrm E"
  "r_get (userRepo E) = w_users" "r_orm (userRepo E) = userOrm E"
  "r_get (tenantRepo E) = w_tenants" "r_orm (tenantRepo E) = tenantOrm E"
  "r_get (settingRepo E) = w_settings" "r_orm (settingRepo E) = settingOrm E"
  "r_get (notificationRepo E) = w_notifications" "r_orm (notificationRepo E) = notificationOrm E"
  "r_get (mediaRepo E) = w_media" "r_orm (mediaRepo E) = mediaOrm E"
  by (simp_all add: repos)

locale tenant_table = keyed_repository M db key
  for M :: "'row entity" and db :: "'row orm" and key :: "'row \<Rightarrow> uuid \<times> 'k" +
  assumes killed_tenant: "killed M x y \<Longrightarrow> fst (key y) = fst (key x)"
begin

lemma write_inv:
  assumes "tenant_write M db key T t t'" and inv: "table_inv M key t"
  shows "table_inv M key t'"
proof -
  from inv have ids: "ids_ok M t" and uniq: "live_key_unique M key t"
    by (simp_all add: table_inv_def)
  from assms(1) show ?thesis
  proof (cases rule: tenant_write.cases)
    case write_nothing
    then show ?thesis using inv by simp
  next
    case (write_new row x)
    have "live_key_unique M key t'"
      using write_new(4) ids
      by (intro save_key_unique [OF write_new(1) uniq]) (auto simp: key_free_def ids_ok_def)
    then show ?thesis using save_ids [OF write_new(1) ids] by (simp add: table_inv_def)
  next
    case (write_old row x old)
    have id: "e_id M x = e_id M old"
      using save_old [OF write_old(1)] write_old(2,4) ids by (metis ids_ok_def)
    have "live_key_unique M key t'"
    proof (rule save_key_unique [OF write_old(1) uniq])
      fix y assume y: "y \<in> set t" "e_alive M y" "key y = key row"
      show "e_id M y = e_id M x"
        using write_old(7)
      proof
        assume "key row = key old"
        with y write_old(2,3) uniq id show ?thesis unfolding live_key_unique_def by metis
      next
        assume "key_free M key (key row) (e_id M row) t"
        with y write_old(4) id show ?thesis unfolding key_free_def by metis
      qed
    qed
    then show ?thesis using save_ids [OF write_old(1) ids] by (simp add: table_inv_def)
  next
    case write_remove
    then show ?thesis
      using remove_ids [OF _ ids] remove_key_unique [OF _ uniq] by (auto simp: table_inv_def)
  qed
qed

lemma write_others:
  assumes "tenant_write M db key T t t'" and inv: "table_inv M key t"
  shows "{#x \<in># mset t'. fst (key x) \<noteq> T#} = {#x \<in># mset t. fst (key x) \<noteq> T#}"
proof -
  from inv have ids: "ids_ok M t" by (simp add: table_inv_def)
  from assms(1) show ?thesis
  proof (cases rule: tenant_write.cases)
    case (write_new row x)
    then show ?thesis
      using save_key [OF write_new(1)]
      by (intro save_others [OF write_new(1) ids, where tenant_of = "\<lambda>x. fst (key x)"]) auto
  next
    case (write_old row x old)
    then show ?thesis
      using save_key [OF write_old(1)]
      by (intro save_others [OF write_old(1) ids, where tenant_of = "\<lambda>x. fst (key x)"]) auto
  next
    case (write_remove i n old)
    show ?thesis
    proof (rule remove_outside [OF write_remove(1), where Q = "\<lambda>x. fst (key x) = T"])
      show "fst (key x) = T" if "x \<in> set t" "e_id M x = i" for x
        using same_id [OF ids that(1) write_remove(2)] that(2) write_remove(3,4) by simp
      show "fst (key y) = T \<longleftrightarrow> fst (key x) = T" if "killed M x y" for x y
        using killed_tenant [OF that] by simp
    qed
  qed simp
qed

text \<open>How the three ways arise from the code that ends the services' methods.\<close>

lemma create_writes:
  assumes run: "conflict_on_unique msg (save_and_record R ctx input row) w = (r, w')"
    and R: "r_orm R = db" "table_lens R"
    and row: "e_id M row = no_id" "fst (key row) = T" "key_free M key (key row) no_id (r_get R w)"
  shows "tenant_write M db key T (r_get R w) (r_get R w')"
proof -
  from conflict_state [OF run] obtain r0 where "save_and_record R ctx input row w = (r0, w')" by blast
  then consider "w' = w" | x where "o_save db row (r_get R w) = Inr (x, r_get R w')"
    using R by (auto dest!: save_and_record_state simp: table_lens_def)
  then show ?thesis
    by cases (auto intro: write_nothing write_new [OF _ row])
qed

lemma update_writes:
  assumes run: "conflict_on_unique msg (save_and_record R ctx input row) w = (r, w')"
    and R: "r_orm R = db" "table_lens R"
    and row: "old \<in> set (r_get R w)" "e_alive M old" "e_id M old = e_id M row" "fst (key old) = T"
      "fst (key row) = T" "key row = key old \<or> key_free M key (key row) (e_id M row) (r_get R w)"
  shows "tenant_write M db key T (r_get R w) (r_get R w')"
proof -
  from conflict_state [OF run] obtain r0 where "save_and_record R ctx input row w = (r0, w')" by blast
  then consider "w' = w" | x where "o_save db row (r_get R w) = Inr (x, r_get R w')"
    using R by (auto dest!: save_and_record_state simp: table_lens_def)
  then show ?thesis
    by cases (auto intro: write_nothing write_old [OF _ row])
qed

lemma remove_writes:
  assumes run: "remove_and_record R ctx input (\<lambda>x. e_id M x = i) w = (r, w')"
    and R: "r_orm R = db" "table_lens R"
    and old: "old \<in> set (r_get R w)" "e_id M old = i" "fst (key old) = T"
  shows "tenant_write M db key T (r_get R w) (r_get R w')"
proof -
  from remove_and_record_state [OF run] R consider "w' = w"
    | n where "o_soft_remove db (\<lambda>x. e_id M x = i) (r_get R w) = Inr (n, r_get R w')"
    by (auto simp: table_lens_def)
  then show ?thesis
  proof cases
    case 2
    then show ?thesis using old by (rule write_remove)
  qed (simp add: write_nothing)
qed

text \<open>A service whose every call writes its table in one of these ways keeps the contract.\<close>

lemma writes_service:
  assumes "\<And>T w w'. step T w w' \<Longrightarrow> table_inv M key (rows w) \<Longrightarrow>
    tenant_write M db key T (rows w) (rows w')"
  shows "tenant_service step rows (\<lambda>x. fst (key x)) (\<lambda>w. table_inv M key (rows w))"
  by unfold_locales (blast intro: assms write_inv, blast intro: assms write_others)

end

section \<open>Small parts several services share\<close>

text \<open>\<open>orderBy(undefined, ...)\<close> orders by nothing.\<close>

definition order_clause :: "jstring option \<Rightarrow> jstring \<Rightarrow> order_by" where
  "order_clause column direction = (case column of None \<Rightarrow> [] | Some c \<Rightarrow> [(c, direction)])"

definition search_pattern :: "jstring \<Rightarrow> jstring" where
  "search_pattern s = js ''%'' @ s @ js ''%''"

lemma truthy_Some: "truthy x = Some s \<Longrightarrow> x = Some s \<and> s \<noteq> []"
  by (auto simp: truthy_def split: option.splits if_splits)

text \<open>A request of a tenant, and the row a service made of it, for the examples.\<close>

definition sample_context :: "uuid \<Rightarrow> audit_context option" where
  "sample_context T = Some \<lparr>ac_tenantId = Some T, ac_actorId = None, ac_requestId = None,
     ac_ipAddress = None, ac_userAgent = None\<rparr>"

end
