(* ===== verification/Supplier.thy ===== *)
theory Supplier
  imports TenantService
begin

text \<open>
  Suppliers (\<open>src/supplier/supplier.service.ts\<close>): create, list, find, update, remove. As for
  warehouses, the company name is kept unique among a tenant's live suppliers by a query before
  the write; the table declares no constraint.
\<close>

section \<open>The service\<close>

record create_supplier_dto =
  cs_companyName :: jstring
  cs_contactEmail :: "jstring option"
  cs_contactPhone :: "jstring option"
  cs_address :: "jstring option"
  cs_leadTimeDays :: "int option"

record update_supplier_dto =
  us_companyName :: "jstring option"
  us_contactEmail :: "jstring option option"
  us_contactPhone :: "jstring option option"
  us_address :: "jstring option option"
  us_leadTimeDays :: "int option option"

record supplier_query =
  sq_page :: "nat option"
  sq_limit :: "nat option"
  sq_search :: "jstring option"
  sq_sortBy :: jstring
  sq_sortOrder :: jstring

definition supplier_name_taken :: jstring where
  "supplier_name_taken = js ''A supplier with this company name already exists for this tenant''"

definition assertCompanyNameUnique ::
  "env \<Rightarrow> uuid \<Rightarrow> jstring \<Rightarrow> uuid option \<Rightarrow> (world, unit) act" where
  "assertCompanyNameUnique E tenantId companyName excludeId =
     throw_if_exists (supplierRepo E) (\<lambda>s. sup_tenantId s = tenantId \<and> sup_companyName s = companyName \<and>
       sup_deletedAt s = None \<and> opt_filter (truthy excludeId) (\<lambda>i. sup_id s \<noteq> i))
     (ConflictException supplier_name_taken)"

definition new_supplier :: "uuid \<Rightarrow> create_supplier_dto \<Rightarrow> supplier" where
  "new_supplier tenantId dto = \<lparr> sup_id = no_id, sup_tenantId = tenantId,
     sup_companyName = cs_companyName dto, sup_contactEmail = cs_contactEmail dto,
     sup_contactPhone = cs_contactPhone dto, sup_address = cs_address dto,
     sup_leadTimeDays = cs_leadTimeDays dto,
     sup_createdAt = 0, sup_updatedAt = 0, sup_deletedAt = None \<rparr>"

definition supplier_create ::
  "env \<Rightarrow> audit_context option \<Rightarrow> uuid \<Rightarrow> create_supplier_dto \<Rightarrow> (world, supplier) act" where
  "supplier_create E ctx tenantId dto =
     andThen (assertCompanyNameUnique E tenantId (cs_companyName dto) None) (\<lambda>_.
     let supplier = new_supplier tenantId dto
     in conflict_on_unique supplier_name_taken (
          save_and_record (supplierRepo E) ctx (\<lambda>saved. audit_input CREATE ET_SUPPLIER (sup_id saved) None
            (Some (JObj [(''companyName'', JStr (sup_companyName saved)),
              (''contactEmail'', jopt JStr (sup_contactEmail saved)),
              (''leadTimeDays'', jopt (\<lambda>n. JNum (of_int n)) (sup_leadTimeDays saved))]))) supplier))"

definition supplier_sortColumns :: "jstring \<Rightarrow> jstring option" where
  "supplier_sortColumns sortBy =
     (if sortBy = js ''company_name'' then Some (js ''s.company_name'')
      else if sortBy = js ''lead_time_days'' then Some (js ''s.lead_time_days'')
      else if sortBy = js ''created_at'' then Some (js ''s.created_at'')
      else if sortBy = js ''updated_at'' then Some (js ''s.updated_at'')
      else None)"

definition supplier_matches :: "env \<Rightarrow> uuid \<Rightarrow> supplier_query \<Rightarrow> supplier \<Rightarrow> bool" where
  "supplier_matches E tenantId query s \<longleftrightarrow>
     sup_tenantId s = tenantId \<and> sup_deletedAt s = None \<and>
     opt_filter (truthy (sq_search query)) (\<lambda>t. ilike E (sup_companyName s) (search_pattern t))"

definition supplier_findAll ::
  "env \<Rightarrow> uuid \<Rightarrow> supplier_query \<Rightarrow> (world, supplier paginated) act" where
  "supplier_findAll E tenantId query =
     (let page = or_default (sq_page query) 1;
          limit = or_default (sq_limit query) 10;
          skip = (page - 1) * limit
      in andThen (get_many_and_count (supplierRepo E) (supplier_matches E tenantId query)
           (order_clause (supplier_sortColumns (sq_sortBy query)) (sq_sortOrder query))
           \<lparr>pg_skip = Some skip, pg_take = sq_limit query, pg_limit = None\<rparr>)
         (\<lambda>(data, total_rows).
         ret (paginated_response (\<lambda>p. page_link (js ''/api/v1/suppliers'') p limit)
           data total_rows (pages_or_one total_rows limit) page limit)))"

definition supplier_findOne :: "env \<Rightarrow> uuid \<Rightarrow> uuid \<Rightarrow> (world, supplier) act" where
  "supplier_findOne E tenantId i =
     find_or_throw (supplierRepo E)
       (\<lambda>s. sup_tenantId s = tenantId \<and> sup_id s = i \<and> sup_deletedAt s = None)
     (NotFoundException (js ''Supplier with ID \"'' @ i @ js ''\" not found for tenant '' @ tenantId))"

definition supplier_values :: "supplier \<Rightarrow> jval" where
  "supplier_values s =
     JObj [(''companyName'', JStr (sup_companyName s)),
       (''contactEmail'', jnullable JStr (sup_contactEmail s)),
       (''contactPhone'', jnullable JStr (sup_contactPhone s)),
       (''address'', jnullable JStr (sup_address s)),
       (''leadTimeDays'', jnullable (\<lambda>n. JNum (of_int n)) (sup_leadTimeDays s))]"

text \<open>The fields \<open>update\<close> copies when the request carries them.\<close>

definition supplier_patch :: "update_supplier_dto \<Rightarrow> supplier \<Rightarrow> supplier" where
  "supplier_patch dto supplier =
     (let supplier = (case us_contactEmail dto of None \<Rightarrow> supplier
            | Some v \<Rightarrow> supplier\<lparr>sup_contactEmail := v\<rparr>);
          supplier = (case us_contactPhone dto of None \<Rightarrow> supplier
            | Some v \<Rightarrow> supplier\<lparr>sup_contactPhone := v\<rparr>);
          supplier = (case us_address dto of None \<Rightarrow> supplier
            | Some v \<Rightarrow> supplier\<lparr>sup_address := v\<rparr>)
      in (case us_leadTimeDays dto of None \<Rightarrow> supplier
            | Some v \<Rightarrow> supplier\<lparr>sup_leadTimeDays := v\<rparr>))"

definition supplier_rename ::
  "env \<Rightarrow> uuid \<Rightarrow> uuid \<Rightarrow> update_supplier_dto \<Rightarrow> supplier \<Rightarrow> (world, supplier) act" where
  "supplier_rename E tenantId i dto supplier =
     (case truthy (us_companyName dto) of
        None \<Rightarrow> ret supplier
      | Some companyName \<Rightarrow> andThen (assertCompanyNameUnique E tenantId companyName (Some i))
          (\<lambda>_. ret (supplier\<lparr>sup_companyName := companyName\<rparr>)))"

definition supplier_update ::
  "env \<Rightarrow> audit_context option \<Rightarrow> uuid \<Rightarrow> uuid \<Rightarrow> update_supplier_dto \<Rightarrow> (world, supplier) act" where
  "supplier_update E ctx tenantId i dto =
     andThen (supplier_findOne E tenantId i) (\<lambda>supplier.
     let oldValues = supplier_values supplier in
     andThen (supplier_rename E tenantId i dto supplier) (\<lambda>supplier.
     conflict_on_unique supplier_name_taken (
       save_and_record (supplierRepo E) ctx (\<lambda>saved. audit_input UPDATE ET_SUPPLIER (sup_id saved)
         (Some oldValues) (Some (supplier_values saved))) (supplier_patch dto supplier))))"

definition supplier_remove ::
  "env \<Rightarrow> audit_context option \<Rightarrow> uuid \<Rightarrow> uuid \<Rightarrow> (world, unit) act" where
  "supplier_remove E ctx tenantId i =
     andThen (supplier_findOne E tenantId i) (\<lambda>supplier.
     let oldValues = JObj [(''companyName'', JStr (sup_companyName supplier))] in
     remove_and_record (supplierRepo E) ctx
       (audit_input DELETE ET_SUPPLIER (sup_id supplier) (Some oldValues) None)
       (\<lambda>s. sup_id s = sup_id supplier))"

section \<open>The contract of a tenant service\<close>

definition supplier_key :: "supplier \<Rightarrow> uuid \<times> jstring" where
  "supplier_key s = (sup_tenantId s, sup_companyName s)"

lemma supplier_table:
  assumes "repository supplier_entity db"
  shows "tenant_table supplier_entity db supplier_key"
proof -
  have "supplier_key x = supplier_key y"
    if "e_cols supplier_entity x = e_cols supplier_entity (e_set_id supplier_entity i y)" for x y i
    using arg_cong [where f = sup_companyName, OF that] arg_cong [where f = sup_tenantId, OF that]
    by (simp add: supplier_entity_def supplier_key_def)
  moreover have "fst (supplier_key y) = fst (supplier_key x)" if "killed supplier_entity x y" for x y
  proof -
    from that have "e_cols supplier_entity (e_kill supplier_entity y) =
        e_cols supplier_entity (e_kill supplier_entity x)" by (simp add: killed_def)
    from arg_cong [where f = sup_tenantId, OF this] show ?thesis
      by (simp add: supplier_entity_def supplier_key_def)
  qed
  ultimately show ?thesis using assms
    by (intro tenant_table.intro keyed_repository.intro keyed_repository_axioms.intro
        tenant_table_axioms.intro) blast+
qed

lemma assertCompanyNameUnique_free:
  assumes db: "repository supplier_entity (supplierOrm E)"
    and run: "assertCompanyNameUnique E T name excl w = (Inr u, w')"
  shows "w' = w \<and> key_free supplier_entity supplier_key (T, name) (or_default excl no_id) (w_suppliers w)"
  using run repository.throw_if_exists_run [OF db, of "supplierRepo E" _ _ w]
  by (fastforce simp: assertCompanyNameUnique_def repos supplier_entity_def key_free_def supplier_key_def
      truthy_def opt_filter_def or_default_def no_id_def split: if_splits option.splits)

lemma supplier_findOne_Inr:
  assumes db: "repository supplier_entity (supplierOrm E)"
    and run: "supplier_findOne E T i w = (Inr x, w')"
  shows "w' = w \<and> x \<in> set (w_suppliers w) \<and> sup_tenantId x = T \<and> sup_id x = i \<and> sup_deletedAt x = None"
  using repository.find_or_throw_Inr [OF db run [unfolded supplier_findOne_def]] by (simp add: repos)

lemma supplier_patch_simps [simp]:
  "sup_id (supplier_patch dto s) = sup_id s" "sup_tenantId (supplier_patch dto s) = sup_tenantId s"
  "sup_companyName (supplier_patch dto s) = sup_companyName s"
  by (auto simp: supplier_patch_def Let_def split: option.splits)

lemma supplier_rename_Inr:
  assumes db: "repository supplier_entity (supplierOrm E)"
    and run: "supplier_rename E T i dto x w = (Inr y, w')" and T: "sup_tenantId x = T"
  shows "w' = w \<and> sup_id y = sup_id x \<and> sup_tenantId y = T \<and>
    (supplier_key y = supplier_key x \<or> key_free supplier_entity supplier_key (supplier_key y) i (w_suppliers w))"
  using run T assertCompanyNameUnique_free [OF db]
  by (fastforce simp: supplier_rename_def flow_simps supplier_key_def or_default_def split: option.splits)

lemma supplier_rename_state: "supplier_rename E T i dto x w = (r, w') \<Longrightarrow> w' = w"
  by (auto simp: supplier_rename_def assertCompanyNameUnique_def ret_eq elim!: andThenE
      dest: throw_if_exists_state split: option.splits)

inductive supplier_step :: "env \<Rightarrow> uuid \<Rightarrow> world \<Rightarrow> world \<Rightarrow> bool" for E :: env where
  sup_create: "supplier_create E ctx T dto w = (r, w') \<Longrightarrow> supplier_step E T w w'"
| sup_findAll: "supplier_findAll E T query w = (r', w') \<Longrightarrow> supplier_step E T w w'"
| sup_findOne: "supplier_findOne E T i w = (r, w') \<Longrightarrow> supplier_step E T w w'"
| sup_update: "supplier_update E ctx T i dto' w = (r, w') \<Longrightarrow> supplier_step E T w w'"
| sup_remove: "supplier_remove E ctx T i w = (r'', w') \<Longrightarrow> supplier_step E T w w'"

lemma supplier_fields [simp]:
  "e_id supplier_entity = sup_id" "e_alive supplier_entity x \<longleftrightarrow> sup_deletedAt x = None"
  by (simp_all add: supplier_entity_def)

lemma supplier_create_writes:
  assumes db: "repository supplier_entity (supplierOrm E)"
    and run: "supplier_create E ctx T dto w = (r, w')"
  shows "tenant_write supplier_entity (supplierOrm E) supplier_key T (w_suppliers w) (w_suppliers w')"
  using run unfolding supplier_create_def Let_def
proof (cases rule: andThenE)
  case (err e)
  then show ?thesis by (auto simp: assertCompanyNameUnique_def dest: throw_if_exists_state intro: write_nothing)
next
  case (ok u w1)
  from assertCompanyNameUnique_free [OF db ok(1)]
    tenant_table.create_writes [OF supplier_table [OF db] ok(2)] show ?thesis
    by (simp add: new_supplier_def supplier_key_def or_default_def)
qed

lemma supplier_update_writes:
  assumes db: "repository supplier_entity (supplierOrm E)"
    and run: "supplier_update E ctx T i dto w = (r, w')"
  shows "tenant_write supplier_entity (supplierOrm E) supplier_key T (w_suppliers w) (w_suppliers w')"
  using run unfolding supplier_update_def Let_def
proof (cases rule: andThenE)
  case (err e)
  then show ?thesis by (auto simp: supplier_findOne_def dest: find_or_throw_state intro: write_nothing)
next
  case (ok old w1)
  note old = supplier_findOne_Inr [OF db ok(1)]
  from ok(2) show ?thesis
  proof (cases rule: andThenE)
    case (err e)
    then show ?thesis using old by (auto dest: supplier_rename_state intro: write_nothing)
  next
    case (ok x w2)
    have "supplier_key (supplier_patch dto x) = supplier_key x" by (simp add: supplier_key_def)
    with supplier_rename_Inr [OF db ok(1)] old
      tenant_table.update_writes [OF supplier_table [OF db] ok(2), of old T]
    show ?thesis by (auto simp: supplier_key_def)
  qed
qed

lemma supplier_remove_writes:
  assumes db: "repository supplier_entity (supplierOrm E)"
    and run: "supplier_remove E ctx T i w = (r, w')"
  shows "tenant_write supplier_entity (supplierOrm E) supplier_key T (w_suppliers w) (w_suppliers w')"
  using run unfolding supplier_remove_def Let_def
proof (cases rule: andThenE)
  case (err e)
  then show ?thesis by (auto simp: supplier_findOne_def dest: find_or_throw_state intro: write_nothing)
next
  case (ok old w1)
  with supplier_findOne_Inr [OF db ok(1)]
    tenant_table.remove_writes [OF supplier_table [OF db], of "supplierRepo E" ctx _ i w r w' old T]
  show ?thesis by (simp add: supplier_key_def)
qed

lemma supplier_findAll_state: "supplier_findAll E T query w = (r, w') \<Longrightarrow> w' = w"
  by (cases r) (auto simp: supplier_findAll_def Let_def flow_simps inv_simps)

lemma supplier_step_writes:
  assumes db: "repository supplier_entity (supplierOrm E)" and "supplier_step E T w w'"
  shows "tenant_write supplier_entity (supplierOrm E) supplier_key T (w_suppliers w) (w_suppliers w')"
  using assms(2)
  by (cases rule: supplier_step.cases)
    (auto simp: supplier_findOne_def intro: supplier_create_writes [OF db] supplier_update_writes [OF db]
      supplier_remove_writes [OF db] write_nothing dest!: supplier_findAll_state find_or_throw_state)

definition supplier_inv :: "world \<Rightarrow> bool" where
  "supplier_inv w \<longleftrightarrow> table_inv supplier_entity supplier_key (w_suppliers w)"

lemma supplier_service:
  assumes "repository supplier_entity (supplierOrm E)"
  shows "tenant_service (supplier_step E) w_suppliers sup_tenantId supplier_inv"
  using tenant_table.writes_service [OF supplier_table [OF assms], of "supplier_step E" w_suppliers]
    supplier_step_writes [OF assms]
  by (simp add: supplier_inv_def [abs_def] supplier_key_def [abs_def])

interpretation suppliers: tenant_service "supplier_step mem_env" w_suppliers sup_tenantId supplier_inv
  by (rule supplier_service) simp

section \<open>Properties\<close>

text \<open>
  Through any history of supplier calls of any tenants, successful or failing, primary keys
  stay distinct, no tenant has two live suppliers of one company name, and the suppliers of a
  tenant that made no call are exactly what they were.
\<close>

theorem supplier_history:
  assumes "repository supplier_entity (supplierOrm E)"
    and "history (supplier_step E) Ts w w'" and "supplier_inv w"
  shows "supplier_inv w' \<and> (T \<notin> set Ts \<longrightarrow>
    {#x \<in># mset (w_suppliers w'). sup_tenantId x = T#} = {#x \<in># mset (w_suppliers w). sup_tenantId x = T#})"
  using assms tenant_service.history_inv [OF supplier_service [OF assms(1)]]
    tenant_service.history_tenant [OF supplier_service [OF assms(1)]] by blast

definition sample_supplier :: create_supplier_dto where
  "sample_supplier = \<lparr>cs_companyName = js ''Acme'', cs_contactEmail = None, cs_contactPhone = None,
     cs_address = None, cs_leadTimeDays = Some 3\<rparr>"

definition sample_supplied :: "uuid \<Rightarrow> world \<Rightarrow> world" where
  "sample_supplied T w = snd (supplier_create mem_env (sample_context T) T sample_supplier w)"

lemma supplier_history_witness:
  "supplier_inv (sample_supplied (js ''B'') (sample_supplied (js ''A'') empty_world)) \<and>
   map sup_tenantId (w_suppliers (sample_supplied (js ''B'') (sample_supplied (js ''A'') empty_world))) =
     [js ''B'', js ''A'']"
proof
  let ?last = "sample_supplied (js ''B'') (sample_supplied (js ''A'') empty_world)"
  have "history (supplier_step mem_env) [js ''A'', js ''B''] empty_world ?last"
    unfolding sample_supplied_def
    by (auto intro!: supplier_step.sup_create prod.collapse [symmetric] exI)
  from supplier_history [OF _ this, of "js ''C''"] show "supplier_inv ?last"
    by (simp add: supplier_inv_def empty_world_def)
  show "map sup_tenantId (w_suppliers ?last) = [js ''B'', js ''A'']"
    by code_simp
qed

end
