(* ===== verification/CategoryTree.thy ===== *)
theory CategoryTree
  imports Schema
begin

text \<open>
  \<open>buildTree\<close> of \<open>src/category/category.service.ts\<close>. The function first puts a copy of every
  category into a \<open>Map\<close> from identifiers to nodes, each with an empty array of children, and
  then walks over the categories again and pushes each node into its parent's array or into
  \<open>roots\<close>. The arrays are shared objects, so the model keeps them in a store: \<open>tree_map\<close> gives
  for every identifier its node and the identifiers in its array of children. What a reader
  sees of the result is the unfolding of that store from the roots. The lemmas show that the
  unfolding ends, and what it contains.
\<close>

type_synonym tree_map = "(uuid \<times> (category_entity \<times> uuid list)) list"

definition map_lookup :: "tree_map \<Rightarrow> uuid \<Rightarrow> (category_entity \<times> uuid list) option" where
  "map_lookup m i = map_of m i"

definition map_put :: "uuid \<Rightarrow> category_entity \<times> uuid list \<Rightarrow> tree_map \<Rightarrow> tree_map" where
  "map_put i v m = (i, v) # filter (\<lambda>(j, _). j \<noteq> i) m"

abbreviation ce_id :: "category_entity \<Rightarrow> uuid" where
  "ce_id c \<equiv> cat_id (ce_row c)"

text \<open>The first loop.\<close>

definition initial_map :: "category_entity list \<Rightarrow> tree_map" where
  "initial_map categories = fold (\<lambda>category m. map_put (ce_id category) (category, []) m) categories []"

text \<open>\<open>category.parent?.id\<close>, as the condition of an \<open>if\<close>.\<close>

definition parent_link :: "category_entity \<Rightarrow> uuid option" where
  "parent_link category = truthy (parent_id category)"

text \<open>The second loop, over the map and the identifiers in \<open>roots\<close>.\<close>

definition place_node :: "category_entity \<Rightarrow> tree_map \<times> uuid list \<Rightarrow> tree_map \<times> uuid list" where
  "place_node category = (\<lambda>(m, roots).
     case map_lookup m (ce_id category) of
       None \<Rightarrow> (m, roots)
     | Some node \<Rightarrow>
         (case parent_link category of
            None \<Rightarrow> (m, roots @ [ce_id category])
          | Some p \<Rightarrow>
              (case map_lookup m p of
                 None \<Rightarrow> (m, roots)
               | Some (parentNode, children) \<Rightarrow>
                   (map_put p (parentNode, children @ [ce_id category]) m, roots))))"

definition linked :: "category_entity list \<Rightarrow> tree_map \<times> uuid list" where
  "linked categories = fold place_node categories (initial_map categories, [])"

text \<open>
  The unfolding. A node of the result is at most as deep as there are categories
  (see the property of \<open>buildTree\<close> below), so that is enough fuel.
\<close>

fun unfold_node :: "nat \<Rightarrow> tree_map \<Rightarrow> uuid \<Rightarrow> category_node list" where
  "unfold_node 0 m i = []"
| "unfold_node (Suc fuel) m i = (case map_lookup m i of
     None \<Rightarrow> []
   | Some (c, children) \<Rightarrow>
       [CategoryNode (c\<lparr>ce_children := NotLoaded\<rparr>) (concat (map (unfold_node fuel m) children))])"

definition buildTree :: "category_entity list \<Rightarrow> category_node list" where
  "buildTree categories = (case linked categories of (m, roots) \<Rightarrow>
     concat (map (unfold_node (length categories) m) roots))"

section \<open>What the loops leave in the map\<close>

lemma lookup_put [simp]: "map_lookup (map_put i v m) j = (if j = i then Some v else map_lookup m j)"
proof -
  have "map_of (filter (\<lambda>(k, _). k \<noteq> i) m) j = (if j = i then None else map_of m j)"
    by (induction m) auto
  then show ?thesis by (simp add: map_lookup_def map_put_def)
qed

definition ids :: "category_entity list \<Rightarrow> uuid list" where
  "ids cs = map ce_id cs"

definition child_ids :: "category_entity list \<Rightarrow> uuid \<Rightarrow> uuid list" where
  "child_ids cs i = ids (filter (\<lambda>c. parent_link c = Some i) cs)"

definition entity_at :: "category_entity list \<Rightarrow> uuid \<Rightarrow> category_entity option" where
  "entity_at cs i = find (\<lambda>c. ce_id c = i) cs"

lemma initial_lookup:
  assumes "distinct (ids cs)"
  shows "map_lookup (initial_map cs) i = map_option (\<lambda>c. (c, [])) (entity_at cs i)"
proof -
  have "map_lookup (fold (\<lambda>c m. map_put (ce_id c) (c, []) m) cs m) i =
      (case entity_at cs i of None \<Rightarrow> map_lookup m i | Some c \<Rightarrow> Some (c, []))" for m
    using assms
  proof (induction cs arbitrary: m)
    case (Cons c cs)
    have "entity_at cs (ce_id c) = None"
      using Cons.prems unfolding ids_def entity_at_def find_None_iff by (auto simp: image_iff)
    with Cons show ?case by (auto simp: ids_def entity_at_def split: option.splits)
  qed (simp add: entity_at_def)
  then show ?thesis
    by (auto simp: initial_map_def map_lookup_def split: option.splits)
qed

text \<open>After the second loop has gone over a prefix \<open>ds\<close> of the categories \<open>cs\<close>.\<close>

definition linked_upto :: "category_entity list \<Rightarrow> category_entity list \<Rightarrow> tree_map \<times> uuid list \<Rightarrow> bool" where
  "linked_upto cs ds = (\<lambda>(m, roots).
     (\<forall>i. map_lookup m i = map_option (\<lambda>c. (c, child_ids ds i)) (entity_at cs i)) \<and>
     roots = ids (filter (\<lambda>c. parent_link c = None) ds))"

lemma entity_at_mem: "c \<in> set cs \<Longrightarrow> entity_at cs (ce_id c) \<noteq> None"
  by (auto simp: entity_at_def find_None_iff)

lemma place_linked:
  assumes "linked_upto cs ds s" and "c \<in> set cs"
  shows "linked_upto cs (ds @ [c]) (place_node c s)"
proof -
  obtain m roots where s: "s = (m, roots)" by (cases s)
  from assms(1) have m: "map_lookup m i = map_option (\<lambda>c. (c, child_ids ds i)) (entity_at cs i)" for i
    by (auto simp: linked_upto_def s)
  have known: "map_lookup m (ce_id c) \<noteq> None"
    using entity_at_mem [OF assms(2)] by (simp add: m)
  show ?thesis
  proof (cases "parent_link c")
    case None
    with known assms(1) show ?thesis
      by (auto simp: s place_node_def linked_upto_def child_ids_def ids_def split: option.splits)
  next
    case (Some p)
    show ?thesis
    proof (cases "entity_at cs p")
      case None
      with Some known assms(1) m show ?thesis
        by (auto simp: s place_node_def linked_upto_def child_ids_def ids_def split: option.splits)
    next
      case (Some q)
      with \<open>parent_link c = Some p\<close> known assms(1) m show ?thesis
        by (auto simp: s place_node_def linked_upto_def child_ids_def ids_def split: option.splits)
    qed
  qed
qed

lemma linked_all:
  assumes "distinct (ids cs)"
  shows "linked_upto cs cs (linked cs)"
proof -
  have "linked_upto cs (ds @ es) (fold place_node es s)"
    if "linked_upto cs ds s" and "set es \<subseteq> set cs" for ds es s
    using that
  proof (induction es arbitrary: ds s)
    case (Cons e es)
    then have "linked_upto cs (ds @ [e]) (place_node e s)" by (intro place_linked) auto
    from Cons.IH [OF this] Cons.prems show ?case by simp
  qed simp
  moreover have "linked_upto cs [] (initial_map cs, [])"
    by (simp add: linked_upto_def initial_lookup [OF assms] child_ids_def ids_def)
  ultimately show ?thesis unfolding linked_def by (metis append_Nil subset_refl)
qed

section \<open>Categories that hang under a root\<close>

text \<open>
  \<open>hangs cs path\<close>: the path leads from its first category, parent by parent, to a category
  without parent. A category on a cycle, or under a category that is not in the list, does not
  hang anywhere.
\<close>

inductive hangs :: "category_entity list \<Rightarrow> uuid list \<Rightarrow> bool" for cs :: "category_entity list" where
  hangs_root: "c \<in> set cs \<Longrightarrow> parent_link c = None \<Longrightarrow> hangs cs [ce_id c]"
| hangs_under: "hangs cs (p # ps) \<Longrightarrow> c \<in> set cs \<Longrightarrow> parent_link c = Some p \<Longrightarrow>
    hangs cs (ce_id c # p # ps)"

inductive_cases hangs_ConsE: "hangs cs (i # ps)"
inductive_cases hangs_NilE [elim!]: "hangs cs []"

definition rooted :: "category_entity list \<Rightarrow> uuid \<Rightarrow> bool" where
  "rooted cs i \<longleftrightarrow> (\<exists>ps. hangs cs (i # ps))"

lemma ids_same:
  "distinct (ids cs) \<Longrightarrow> c \<in> set cs \<Longrightarrow> d \<in> set cs \<Longrightarrow> ce_id c = ce_id d \<Longrightarrow> c = d"
  by (auto simp: ids_def distinct_map dest: inj_onD)

lemma hangs_unique:
  assumes "distinct (ids cs)"
  shows "hangs cs path \<Longrightarrow> hangs cs path' \<Longrightarrow> hd path = hd path' \<Longrightarrow> path = path'"
proof (induction arbitrary: path' rule: hangs.induct)
  case (hangs_root c)
  from hangs_root(3) show ?case
  proof (cases rule: hangs.cases)
    case (hangs_root d)
    then show ?thesis using hangs_root.prems by simp
  next
    case (hangs_under p ps d)
    with hangs_root ids_same [OF assms, of c d] show ?thesis by simp
  qed
next
  case (hangs_under p ps c)
  from hangs_under.prems(1) show ?case
  proof (cases rule: hangs.cases)
    case (hangs_root d)
    with hangs_under ids_same [OF assms, of c d] show ?thesis by simp
  next
    case (hangs_under q qs d)
    with hangs_under.prems hangs_under.hyps ids_same [OF assms, of c d] have "q = p" by simp
    with hangs_under.IH [of "q # qs"] hangs_under hangs_under.prems show ?thesis by simp
  qed
qed

lemma hangs_suffix: "hangs cs path \<Longrightarrow> path = qs @ i # ps \<Longrightarrow> hangs cs (i # ps)"
proof (induction arbitrary: qs rule: hangs.induct)
  case (hangs_root c)
  then show ?case by (cases qs) (auto intro: hangs.intros)
next
  case (hangs_under p ps' c)
  then show ?case by (cases qs) (auto intro: hangs.intros)
qed

lemma hangs_mem: "hangs cs path \<Longrightarrow> set path \<subseteq> set (ids cs)"
  by (induction rule: hangs.induct) (auto simp: ids_def)

lemma hangs_distinct:
  assumes "distinct (ids cs)"
  shows "hangs cs path \<Longrightarrow> distinct path"
proof (induction rule: hangs.induct)
  case (hangs_under p ps c)
  have "ce_id c \<notin> set (p # ps)"
  proof
    assume "ce_id c \<in> set (p # ps)"
    then obtain xs ys where split: "p # ps = xs @ ce_id c # ys" by (meson split_list)
    have "hangs cs (ce_id c # ys)" using hangs_suffix [OF hangs_under.hyps(1) split] .
    with hangs_unique [OF assms hangs.hangs_under [OF hangs_under.hyps], of "ce_id c # ys"]
    have "p # ps = ys" by simp
    with arg_cong [where f = length, OF split] show False by simp
  qed
  with hangs_under.IH show ?case by simp
qed simp

lemma hangs_length:
  assumes "distinct (ids cs)" and "hangs cs path"
  shows "length path \<le> length cs"
proof -
  have "length path = card (set path)"
    using hangs_distinct [OF assms] by (simp add: distinct_card)
  also have "\<dots> \<le> card (set (ids cs))"
    using hangs_mem [OF assms(2)] by (simp add: card_mono)
  also have "\<dots> \<le> length cs" by (metis card_length ids_def length_map)
  finally show ?thesis .
qed

section \<open>What the tree contains\<close>

fun node_ids :: "category_node \<Rightarrow> uuid list" where
  "node_ids (CategoryNode c ks) = ce_id c # concat (map node_ids ks)"

text \<open>Every node carries its category, and its children are the categories that name it as parent, in order.\<close>

fun node_ok :: "category_entity list \<Rightarrow> category_node \<Rightarrow> bool" where
  "node_ok cs (CategoryNode c ks) \<longleftrightarrow>
     map_option (\<lambda>d. d\<lparr>ce_children := NotLoaded\<rparr>) (entity_at cs (ce_id c)) = Some c \<and>
     map (\<lambda>k. ce_id (node_category k)) ks = child_ids cs (ce_id c) \<and> (\<forall>k \<in> set ks. node_ok cs k)"

lemma entity_at_Some: "entity_at cs i = Some c \<Longrightarrow> c \<in> set cs \<and> ce_id c = i"
  unfolding entity_at_def find_Some_iff by auto

lemma child_ids_mem: "j \<in> set (child_ids cs i) \<longleftrightarrow> (\<exists>c \<in> set cs. ce_id c = j \<and> parent_link c = Some i)"
  by (auto simp: child_ids_def ids_def)

definition tree_store :: "category_entity list \<Rightarrow> tree_map \<Rightarrow> bool" where
  "tree_store cs m \<longleftrightarrow>
     (\<forall>i. map_lookup m i = map_option (\<lambda>c. (c, child_ids cs i)) (entity_at cs i))"

lemma hangs_child:
  assumes "hangs cs (i # ps)" and "j \<in> set (child_ids cs i)"
  shows "hangs cs (j # i # ps)"
  using assms by (auto simp: child_ids_mem intro: hangs.hangs_under)

lemma unfold_ok:
  assumes d: "distinct (ids cs)" and m: "tree_store cs m"
  shows "hangs cs (i # ps) \<Longrightarrow> length cs \<le> fuel + length ps \<Longrightarrow>
    \<exists>k. unfold_node fuel m i = [k] \<and> ce_id (node_category k) = i \<and> node_ok cs k"
proof (induction fuel arbitrary: i ps)
  case 0
  with hangs_length [OF d 0(1)] show ?case by simp
next
  case (Suc fuel)
  from hangs_mem [OF Suc.prems(1)] have "i \<in> set (ids cs)" by auto
  then obtain c where c: "entity_at cs i = Some c"
    using entity_at_mem by (fastforce simp: ids_def)
  have kids: "\<exists>k. unfold_node fuel m j = [k] \<and> ce_id (node_category k) = j \<and> node_ok cs k"
    if "j \<in> set (child_ids cs i)" for j
    using Suc.IH [OF hangs_child [OF Suc.prems(1) that]] Suc.prems(2) by simp
  have "map (\<lambda>k. ce_id (node_category k)) (concat (map (unfold_node fuel m) js)) = js \<and>
      (\<forall>k \<in> set (concat (map (unfold_node fuel m) js)). node_ok cs k)"
    if "set js \<subseteq> set (child_ids cs i)" for js
    using that
  proof (induction js)
    case (Cons j js)
    with kids [of j] show ?case by auto
  qed simp
  from this [of "child_ids cs i"] c m entity_at_Some [OF c] show ?case
    by (auto simp: tree_store_def)
qed

lemma unfold_path:
  assumes m: "tree_store cs m"
  shows "hangs cs (i # ps) \<Longrightarrow> k \<in> set (unfold_node fuel m i) \<Longrightarrow> j \<in> set (node_ids k) \<Longrightarrow>
    \<exists>qs. hangs cs (qs @ i # ps) \<and> hd (qs @ [i]) = j"
proof (induction fuel arbitrary: i ps k)
  case (Suc fuel)
  from hangs_mem [OF Suc.prems(1)] obtain c where c: "entity_at cs i = Some c"
    using entity_at_mem by (fastforce simp: ids_def)
  with Suc.prems(2) m have k: "k = CategoryNode (c\<lparr>ce_children := NotLoaded\<rparr>)
      (concat (map (unfold_node fuel m) (child_ids cs i)))"
    by (simp add: tree_store_def)
  show ?case
  proof (cases "j = i")
    case True
    with Suc.prems(1) show ?thesis by (intro exI [of _ "[]"]) simp
  next
    case False
    with Suc.prems(3) k entity_at_Some [OF c] obtain h k' where
      h: "h \<in> set (child_ids cs i)" "k' \<in> set (unfold_node fuel m h)" "j \<in> set (node_ids k')"
      by auto
    from Suc.IH [OF hangs_child [OF Suc.prems(1) h(1)] h(2,3)] obtain qs where
      "hangs cs (qs @ h # i # ps)" "hd (qs @ [h]) = j" by blast
    then show ?thesis by (intro exI [of _ "qs @ [h]"]) (cases qs, simp_all)
  qed
qed simp

definition subtree_ids :: "nat \<Rightarrow> tree_map \<Rightarrow> uuid \<Rightarrow> uuid list" where
  "subtree_ids fuel m i = concat (map node_ids (unfold_node fuel m i))"

lemma subtree_ids_Suc:
  assumes "tree_store cs m" and "hangs cs (i # ps)"
  shows "subtree_ids (Suc fuel) m i = i # concat (map (subtree_ids fuel m) (child_ids cs i))"
proof -
  from hangs_mem [OF assms(2)] obtain c where c: "entity_at cs i = Some c"
    using entity_at_mem by (fastforce simp: ids_def)
  have "concat (map node_ids (concat (map (unfold_node fuel m) js))) =
      concat (map (subtree_ids fuel m) js)" for js
    by (induction js) (simp_all add: subtree_ids_def)
  with c assms(1) entity_at_Some [OF c] show ?thesis
    by (simp add: subtree_ids_def [of "Suc fuel"] tree_store_def)
qed

lemma subtree_path:
  "tree_store cs m \<Longrightarrow> hangs cs (i # ps) \<Longrightarrow> j \<in> set (subtree_ids fuel m i) \<Longrightarrow>
    \<exists>qs. hangs cs (qs @ i # ps) \<and> hd (qs @ [i]) = j"
  using unfold_path unfolding subtree_ids_def by fastforce

lemma subtree_complete:
  assumes d: "distinct (ids cs)" and m: "tree_store cs m"
  shows "hangs cs (qs @ i # ps) \<Longrightarrow> length cs \<le> fuel + length ps \<Longrightarrow>
    hd (qs @ [i]) \<in> set (subtree_ids fuel m i)"
proof (induction qs arbitrary: i ps fuel rule: rev_induct)
  case Nil
  with hangs_length [OF d, of "i # ps"] obtain f where "fuel = Suc f" by (cases fuel) auto
  with Nil subtree_ids_Suc [OF m, of i ps f] show ?case by simp
next
  case (snoc h qs)
  from hangs_suffix [OF snoc.prems(1), of "qs @ [h]"] have i: "hangs cs (i # ps)" by simp
  with hangs_length [OF d i] snoc.prems(2) obtain f where f: "fuel = Suc f" by (cases fuel) auto
  from hangs_suffix [OF snoc.prems(1), of qs h "i # ps"] have "hangs cs (h # i # ps)" by simp
  then have "h \<in> set (child_ids cs i)"
    by (auto simp: child_ids_mem elim: hangs.cases)
  moreover have "hd (qs @ [h]) \<in> set (subtree_ids f m h)"
    using snoc.IH [of h "i # ps" f] snoc.prems f by simp
  moreover have "hd ((qs @ [h]) @ [i]) = hd (qs @ [h])" by (cases qs) simp_all
  ultimately show ?case
    by (auto simp: f subtree_ids_Suc [OF m i])
qed

lemma subtree_disjoint:
  assumes "distinct (ids cs)" and m: "tree_store cs m" and "hangs cs (h # ps)" "hangs cs (h' # ps)"
    and "j \<in> set (subtree_ids fuel m h)" "j \<in> set (subtree_ids fuel m h')"
  shows "h = h'"
proof -
  from subtree_path [OF m assms(3,5)] obtain qs where qs: "hangs cs (qs @ h # ps)" "hd (qs @ [h]) = j"
    by blast
  from subtree_path [OF m assms(4,6)] obtain rs where rs: "hangs cs (rs @ h' # ps)" "hd (rs @ [h']) = j"
    by blast
  have "hd (qs @ h # ps) = hd (rs @ h' # ps)" using qs(2) rs(2) by (cases qs; cases rs) auto
  from hangs_unique [OF assms(1) qs(1) rs(1) this] show ?thesis
    by (simp add: append_eq_append_conv)
qed

lemma subtrees_distinct:
  assumes "distinct (ids cs)" and "tree_store cs m" and "distinct hs"
    and "\<And>h. h \<in> set hs \<Longrightarrow> hangs cs (h # ps) \<and> distinct (subtree_ids fuel m h)"
  shows "distinct (concat (map (subtree_ids fuel m) hs))"
  using assms(3,4)
proof (induction hs)
  case (Cons h hs)
  with subtree_disjoint [OF assms(1,2), of h ps] show ?case by (fastforce)
qed simp

lemma child_ids_distinct: "distinct (ids cs) \<Longrightarrow> distinct (child_ids cs i)"
  by (simp add: child_ids_def ids_def distinct_map_filter)

lemma subtree_distinct:
  assumes d: "distinct (ids cs)" and m: "tree_store cs m"
  shows "hangs cs (i # ps) \<Longrightarrow> distinct (subtree_ids fuel m i)"
proof (induction fuel arbitrary: i ps)
  case 0
  then show ?case by (simp add: subtree_ids_def)
next
  case (Suc fuel)
  have "distinct (concat (map (subtree_ids fuel m) (child_ids cs i)))"
    using Suc.IH hangs_child [OF Suc.prems]
    by (intro subtrees_distinct [OF d m child_ids_distinct [OF d], where ps = "i # ps"]) blast
  moreover have "i \<notin> set (subtree_ids fuel m h)" if h: "h \<in> set (child_ids cs i)" for h
  proof
    assume "i \<in> set (subtree_ids fuel m h)"
    from subtree_path [OF m hangs_child [OF Suc.prems h] this] obtain qs where
      "hangs cs (qs @ h # i # ps)" "hd (qs @ [h]) = i" by blast
    with hangs_unique [OF d this(1) Suc.prems] have "qs @ h # i # ps = i # ps" by (cases qs) auto
    then show False by (metis append_is_Nil_conv append_self_conv2 append_Cons append_assoc append_same_eq list.simps(3) append_Nil)
  qed
  ultimately show ?case by (auto simp: subtree_ids_Suc [OF m Suc.prems])
qed

lemma buildTree_roots:
  assumes d: "distinct (ids cs)"
  obtains m where "tree_store cs m"
    and "buildTree cs = concat (map (unfold_node (length cs) m) (ids (filter (\<lambda>c. parent_link c = None) cs)))"
  using linked_all [OF d]
  by (cases "linked cs") (auto simp: linked_upto_def tree_store_def buildTree_def)

lemma root_hangs: "i \<in> set (ids (filter (\<lambda>c. parent_link c = None) cs)) \<Longrightarrow> hangs cs [i]"
  by (auto simp: ids_def intro: hangs.hangs_root)

section \<open>Properties\<close>

lemma distinct_map_filter_ids: "distinct (ids cs) \<Longrightarrow> distinct (ids (filter P cs))"
  by (simp add: ids_def distinct_map_filter)


text \<open>When no category has its parent loaded, every category is a root without children.\<close>

lemma buildTree_flat:
  assumes d: "distinct (ids cs)" and flat: "\<And>c. c \<in> set cs \<Longrightarrow> ce_parent c = NotLoaded"
  shows "buildTree cs = map (\<lambda>c. CategoryNode (c\<lparr>ce_children := NotLoaded\<rparr>) []) cs"
proof -
  have none: "parent_link c = None" if "c \<in> set cs" for c
    using flat [OF that] by (simp add: parent_link_def parent_id_def truthy_def)
  then have roots: "filter (\<lambda>c. parent_link c = None) cs = cs" and kids: "child_ids cs i = []" for i
    by (auto simp: filter_id_conv child_ids_def ids_def filter_empty_conv)
  obtain m where m: "tree_store cs m"
    and tree: "buildTree cs = concat (map (unfold_node (length cs) m) (ids cs))"
    using buildTree_roots [OF d] roots by metis
  have "unfold_node (length cs) m (ce_id c) = [CategoryNode (c\<lparr>ce_children := NotLoaded\<rparr>) []]"
    if c: "c \<in> set cs" for c
  proof -
    obtain e where e: "entity_at cs (ce_id c) = Some e" using entity_at_mem [OF c] by blast
    with entity_at_Some [OF e] ids_same [OF d _ c] have "e = c" by simp
    moreover obtain f where "length cs = Suc f" using c by (cases cs) auto
    ultimately show ?thesis using m e by (simp add: tree_store_def kids)
  qed
  then show ?thesis unfolding tree ids_def
    by (simp add: comp_def concat_map_singleton cong: map_cong)
qed

definition sample_category :: "jstring \<Rightarrow> category option rel \<Rightarrow> category_entity" where
  "sample_category i parent = \<lparr>ce_row = \<lparr>cat_id = i, cat_name = i, cat_slug = i, cat_tenantId = js ''A'',
     cat_parentId = None, cat_createdAt = 0, cat_updatedAt = 0, cat_deletedAt = None\<rparr>,
     ce_parent = parent, ce_children = NotLoaded\<rparr>"

definition sample_forest :: "category_entity list" where
  "sample_forest =
     [sample_category (js ''c'') (Loaded (Some (ce_row (sample_category (js ''b'') NotLoaded)))),
      sample_category (js ''a'') (Loaded None),
      sample_category (js ''b'') (Loaded (Some (ce_row (sample_category (js ''a'') NotLoaded)))),
      sample_category (js ''x'') (Loaded (Some (ce_row (sample_category (js ''y'') NotLoaded)))),
      sample_category (js ''y'') (Loaded (Some (ce_row (sample_category (js ''x'') NotLoaded))))]"


end
