(* ===== verification/Category.thy ===== *)
theory Category
  imports CategoryTree Cache TenantService Slug
begin

text \<open>
  Categories (\<open>src/category/category.service.ts\<close>): create, list, tree, find, update, remove,
  with the read-through cache in front of the reads. A category returned by a query is a row
  with the relations the query asked for; saving it stores the row, the parent relation when it
  is loaded, and lets the mapper bring the children in line when they are loaded
  (\<open>sync_children\<close>).
\<close>

section \<open>Requests\<close>

record create_category_dto =
  cc_name :: jstring
  cc_slug :: "jstring option"
  cc_parentId :: "jstring option"

text \<open>\<open>parentId\<close>: absent, an explicit \<open>null\<close> (\<open>Some None\<close>), or a value.\<close>

record update_category_dto =
  uc_name :: "jstring option"
  uc_slug :: "jstring option"
  uc_parentId :: "jstring option option"

record category_query =
  cq_page :: "nat option"
  cq_limit :: "nat option"
  cq_search :: "jstring option"
  cq_parentId :: "jstring option"
  cq_includeChildren :: "jstring option"
  cq_sortBy :: "jstring option"
  cq_sortOrder :: "jstring option"

definition category_query_json :: "category_query \<Rightarrow> jval" where
  "category_query_json q = JObj [(''page'', jopt (\<lambda>n. JNum (of_nat n)) (cq_page q)),
     (''limit'', jopt (\<lambda>n. JNum (of_nat n)) (cq_limit q)), (''search'', jopt JStr (cq_search q)),
     (''parentId'', jopt JStr (cq_parentId q)),
     (''includeChildren'', jopt JStr (cq_includeChildren q)), (''sortBy'', jopt JStr (cq_sortBy q)),
     (''sortOrder'', jopt JStr (cq_sortOrder q))]"

section \<open>Loading and saving with relations\<close>

text \<open>\<open>relations: { parent: true, children: true }\<close> joins the live rows only.\<close>

definition load_category :: "env \<Rightarrow> category list \<Rightarrow> category \<Rightarrow> category_entity" where
  "load_category E t c = \<lparr>ce_row = c,
     ce_parent = Loaded (case cat_parentId c of None \<Rightarrow> None
       | Some p \<Rightarrow> (case o_select (categoryOrm E) (\<lambda>x. cat_id x = p) t of [] \<Rightarrow> None | x # _ \<Rightarrow> Some x)),
     ce_children = Loaded (o_select (categoryOrm E) (\<lambda>x. cat_parentId x = Some (cat_id c)) t)\<rparr>"

definition stored_row :: "category_entity \<Rightarrow> category" where
  "stored_row e = (case ce_parent e of
     NotLoaded \<Rightarrow> ce_row e
   | Loaded p \<Rightarrow> (ce_row e)\<lparr>cat_parentId := map_option cat_id p\<rparr>)"

definition save_category :: "env \<Rightarrow> category_entity \<Rightarrow> (world, category_entity) act" where
  "save_category E e = (\<lambda>w. case o_save (categoryOrm E) (stored_row e) (w_categories w) of
     Inl err \<Rightarrow> (Inl err, w)
   | Inr (row, t) \<Rightarrow>
       (case ce_children e of
          NotLoaded \<Rightarrow> (Inr (e\<lparr>ce_row := row\<rparr>), w\<lparr>w_categories := t\<rparr>)
        | Loaded children \<Rightarrow>
            (case sync_children E (cat_id row) children t of
               Inl err \<Rightarrow> (Inl err, w)
             | Inr t' \<Rightarrow> (Inr (e\<lparr>ce_row := row\<rparr>), w\<lparr>w_categories := t'\<rparr>))))"

section \<open>The service\<close>

definition category_slug_taken :: jstring where
  "category_slug_taken = js ''The provided slug must be unique per-tenant''"

definition invalidateCollections :: "env \<Rightarrow> uuid \<Rightarrow> (world, unit) act" where
  "invalidateCollections E tenantId =
     andThen (cache_delByPattern (redis E) (categoriesPattern tenantId)) (\<lambda>_.
     cache_delByPattern (redis E) (productsPattern tenantId))"

definition assertSlugUnique :: "env \<Rightarrow> uuid \<Rightarrow> jstring \<Rightarrow> uuid option \<Rightarrow> (world, unit) act" where
  "assertSlugUnique E tenantId slug excludeId =
     throw_if_exists (categoryRepo E) (\<lambda>c. cat_tenantId c = tenantId \<and> cat_slug c = slug \<and>
       cat_deletedAt c = None \<and> opt_filter (truthy excludeId) (\<lambda>i. cat_id c \<noteq> i))
     (ConflictException category_slug_taken)"

definition assertParentExists :: "env \<Rightarrow> uuid \<Rightarrow> uuid \<Rightarrow> (world, category) act" where
  "assertParentExists E tenantId parentId =
     find_or_throw (categoryRepo E)
       (\<lambda>c. cat_id c = parentId \<and> cat_tenantId c = tenantId \<and> cat_deletedAt c = None)
     (NotFoundException (js ''Parent category with ID \"'' @ parentId @ js ''\" not found''))"

definition category_slug :: "env \<Rightarrow> create_category_dto \<Rightarrow> jstring" where
  "category_slug E dto = (case truthy (cc_slug dto) of
     Some s \<Rightarrow> generateSlug (to_lower_nfd E) s
   | None \<Rightarrow> generateSlug (to_lower_nfd E) (cc_name dto))"

definition new_category :: "uuid \<Rightarrow> jstring \<Rightarrow> jstring \<Rightarrow> category option \<Rightarrow> category_entity" where
  "new_category tenantId name slug parent = \<lparr>
     ce_row = \<lparr>cat_id = no_id, cat_name = name, cat_slug = slug, cat_tenantId = tenantId,
       cat_parentId = None, cat_createdAt = 0, cat_updatedAt = 0, cat_deletedAt = None\<rparr>,
     ce_parent = (case parent of None \<Rightarrow> NotLoaded | Some p \<Rightarrow> Loaded (Some p)),
     ce_children = NotLoaded\<rparr>"

definition category_create ::
  "env \<Rightarrow> audit_context option \<Rightarrow> uuid \<Rightarrow> create_category_dto \<Rightarrow> (world, category_entity) act" where
  "category_create E ctx tenantId dto =
     (let slug = category_slug E dto in
      andThen (assertSlugUnique E tenantId slug None) (\<lambda>_.
      andThen (case truthy (cc_parentId dto) of
          None \<Rightarrow> ret None
        | Some parentId \<Rightarrow> andThen (assertParentExists E tenantId parentId) (\<lambda>p. ret (Some p))) (\<lambda>parent.
      conflict_on_unique category_slug_taken (
        andThen (save_category E (new_category tenantId (cc_name dto) slug parent)) (\<lambda>category.
        andThen (audit_record ctx (audit_input CREATE ET_CATEGORY (ce_id category) None
          (Some (JObj [(''name'', JStr (cat_name (ce_row category))),
                       (''slug'', JStr (cat_slug (ce_row category)))])))) (\<lambda>_.
        andThen (invalidateCollections E tenantId) (\<lambda>_.
        ret category)))))))"

text \<open>
  A cached value is what was stored under its key (theory \<open>Cache\<close>: keys of different kinds
  never clash); a value of another kind has no counterpart in the code and is an error here.
\<close>

definition wrong_kind :: exn where
  "wrong_kind = OtherError (js ''cache entry of another kind'')"

definition category_matches :: "env \<Rightarrow> uuid \<Rightarrow> category_query \<Rightarrow> category \<Rightarrow> bool" where
  "category_matches E tenantId query c \<longleftrightarrow> cat_tenantId c = tenantId \<and>
     opt_filter (truthy (cq_search query)) (\<lambda>s. ilike E (cat_name c) (search_pattern s)) \<and>
     opt_filter (cq_parentId query) (\<lambda>parentId.
       if parentId = [] then cat_deletedAt c = None else cat_parentId c = Some parentId)"

definition listed_category :: "env \<Rightarrow> category_query \<Rightarrow> category list \<Rightarrow> category \<Rightarrow> category_entity" where
  "listed_category E query t c =
     (if cq_includeChildren query = Some (js ''true'')
      then (bare_category c)\<lparr>ce_children :=
        Loaded (o_select (categoryOrm E) (\<lambda>x. cat_parentId x = Some (cat_id c)) t)\<rparr>
      else bare_category c)"

definition category_findAll ::
  "env \<Rightarrow> uuid \<Rightarrow> category_query \<Rightarrow> (world, category_entity paginated) act" where
  "category_findAll E tenantId query =
     (let cacheKey = categoriesList_key E tenantId (category_query_json query) in
      andThen (cache_get (redis E) cacheKey) (\<lambda>cached. case cached of
        Some (CachedCategories page) \<Rightarrow> ret page
      | Some _ \<Rightarrow> throw wrong_kind
      | None \<Rightarrow>
          let page = or_default (cq_page query) 1;
              limit = or_default (cq_limit query) 10;
              skip = (page - 1) * limit;
              sortBy = or_default (cq_sortBy query) (js ''name'');
              sortOrder = or_default (cq_sortOrder query) (js ''ASC'')
          in andThen (get_many_and_count (categoryRepo E) (category_matches E tenantId query)
               [(js ''category.'' @ sortBy, sortOrder)]
               \<lparr>pg_skip = Some skip, pg_take = None, pg_limit = Some limit\<rparr>) (\<lambda>(rows, counts).
             andThen (gets w_categories) (\<lambda>t.
             let response = paginated_response (\<lambda>p. page_link (js ''/api/v1/categories'') p limit)
                   (map (listed_category E query t) rows) counts (ceil_div counts limit) page limit
             in andThen (cache_set (redis E) cacheKey (CachedCategories response) CACHE_TTL_CATEGORY) (\<lambda>_.
                ret response)))))"

definition findTree :: "env \<Rightarrow> uuid \<Rightarrow> (world, category_node list) act" where
  "findTree E tenantId =
     (let cacheKey = categoriesTree_key tenantId in
      andThen (cache_get (redis E) cacheKey) (\<lambda>cached. case cached of
        Some (CachedTree tree) \<Rightarrow> ret tree
      | Some _ \<Rightarrow> throw wrong_kind
      | None \<Rightarrow>
          andThen (find_many (categoryRepo E)
            (\<lambda>c. cat_tenantId c = tenantId \<and> cat_deletedAt c = None) [(js ''name'', js ''ASC'')]) (\<lambda>result.
          if result = [] then throw (NotFoundException (js ''There is no category for tenant '' @ tenantId))
          else let tree = buildTree (map bare_category result)
               in andThen (cache_set (redis E) cacheKey (CachedTree tree) CACHE_TTL_CATEGORY) (\<lambda>_.
                  ret tree))))"

definition category_findOne :: "env \<Rightarrow> uuid \<Rightarrow> uuid \<Rightarrow> (world, category_entity) act" where
  "category_findOne E tenantId i =
     (let cacheKey = category_key tenantId i in
      andThen (cache_get (redis E) cacheKey) (\<lambda>cached. case cached of
        Some (CachedCategory c) \<Rightarrow> ret c
      | Some _ \<Rightarrow> throw wrong_kind
      | None \<Rightarrow>
          andThen (find_or_throw (categoryRepo E)
            (\<lambda>c. cat_id c = i \<and> cat_tenantId c = tenantId \<and> cat_deletedAt c = None)
            (NotFoundException (js ''Category with ID \"'' @ i @ js ''\" not found for tenant '' @ tenantId)))
            (\<lambda>row.
          andThen (gets (\<lambda>w. load_category E (w_categories w) row)) (\<lambda>result.
          andThen (cache_set (redis E) cacheKey (CachedCategory result) CACHE_TTL_CATEGORY) (\<lambda>_.
          ret result)))))"

definition category_values :: "category_entity \<Rightarrow> jval" where
  "category_values c = JObj [(''name'', JStr (cat_name (ce_row c))), (''slug'', JStr (cat_slug (ce_row c))),
     (''parentId'', jnullable JStr (parent_id c))]"

definition rename_category :: "env \<Rightarrow> update_category_dto \<Rightarrow> category_entity \<Rightarrow> category_entity" where
  "rename_category E dto target =
     (let row = ce_row target;
          row = (case truthy (uc_name dto) of Some name \<Rightarrow> row\<lparr>cat_name := name\<rparr> | None \<Rightarrow> row);
          row = (case truthy (uc_slug dto) of
              Some slug \<Rightarrow> row\<lparr>cat_slug := generateSlug (to_lower_nfd E) slug\<rparr>
            | None \<Rightarrow>
                (case truthy (uc_name dto) of
                   Some name \<Rightarrow> row\<lparr>cat_slug := generateSlug (to_lower_nfd E) name\<rparr>
                 | None \<Rightarrow> row))
      in target\<lparr>ce_row := row\<rparr>)"

definition move_category ::
  "env \<Rightarrow> uuid \<Rightarrow> uuid \<Rightarrow> update_category_dto \<Rightarrow> category_entity \<Rightarrow> (world, category_entity) act" where
  "move_category E tenantId i dto target =
     (case uc_parentId dto of
        None \<Rightarrow> ret target
      | Some parentId \<Rightarrow>
          andThen (ensure (parentId \<noteq> Some i) (ConflictException (js ''A category cannot be its own parent''))) (\<lambda>_.
          case truthy parentId of
            Some p \<Rightarrow> andThen (assertParentExists E tenantId p) (\<lambda>parent.
              ret (target\<lparr>ce_parent := Loaded (Some parent)\<rparr>))
          | None \<Rightarrow> ret (target\<lparr>ce_parent := Loaded None\<rparr>)))"

definition category_update ::
  "env \<Rightarrow> audit_context option \<Rightarrow> uuid \<Rightarrow> uuid \<Rightarrow> update_category_dto \<Rightarrow> (world, category_entity) act" where
  "category_update E ctx tenantId i dto =
     andThen (category_findOne E tenantId i) (\<lambda>target.
     let oldValues = category_values target;
         target = rename_category E dto target
     in andThen (assertSlugUnique E tenantId (cat_slug (ce_row target)) (Some i)) (\<lambda>_.
        andThen (move_category E tenantId i dto target) (\<lambda>target.
        conflict_on_unique category_slug_taken (
          andThen (save_category E target) (\<lambda>saved.
          andThen (audit_record ctx (audit_input UPDATE ET_CATEGORY (ce_id saved)
            (Some oldValues) (Some (category_values saved)))) (\<lambda>_.
          andThen (cache_del (redis E) (category_key tenantId i)) (\<lambda>_.
          andThen (invalidateCollections E tenantId) (\<lambda>_.
          ret saved))))))))"

definition category_remove ::
  "env \<Rightarrow> audit_context option \<Rightarrow> uuid \<Rightarrow> uuid \<Rightarrow> (world, unit) act" where
  "category_remove E ctx tenantId i =
     andThen (category_findOne E tenantId i) (\<lambda>target.
     andThen (count_rows (categoryRepo E) (\<lambda>c. cat_parentId c = Some i \<and> cat_tenantId c = tenantId))
       (\<lambda>numberOfChildren.
     andThen (ensure (\<not> numberOfChildren > 0) (ConflictException (js ''Cannot delete category \"'' @ i @
       js ''\" because it has child categories. Please delete or reassign all child categories first.''))) (\<lambda>_.
     andThen (soft_remove (categoryRepo E) (\<lambda>c. cat_id c = ce_id target)) (\<lambda>_.
     andThen (audit_record ctx (audit_input DELETE ET_CATEGORY (ce_id target)
       (Some (JObj [(''name'', JStr (cat_name (ce_row target))), (''slug'', JStr (cat_slug (ce_row target)))]))
       None)) (\<lambda>_.
     andThen (cache_del (redis E) (category_key tenantId i)) (\<lambda>_.
     invalidateCollections E tenantId))))))"

section \<open>The table\<close>

text \<open>
  What the table of categories keeps: distinct identifiers, one live category per tenant and
  slug, and parents that exist and belong to the same tenant. \<open>places\<close> are the identifiers with
  their tenants; they never disappear.
\<close>

definition slug_key :: "category \<Rightarrow> uuid \<times> jstring" where
  "slug_key c = (cat_tenantId c, cat_slug c)"

definition places :: "category list \<Rightarrow> (uuid \<times> uuid) set" where
  "places t = (\<lambda>c. (cat_tenantId c, cat_id c)) ` set t"

definition parents_ok :: "category list \<Rightarrow> bool" where
  "parents_ok t \<longleftrightarrow> (\<forall>c \<in> set t. \<forall>p. cat_parentId c = Some p \<longrightarrow> (cat_tenantId c, p) \<in> places t)"

definition category_table_ok :: "category list \<Rightarrow> bool" where
  "category_table_ok t \<longleftrightarrow> table_inv category_decl slug_key t \<and> parents_ok t"

definition same_others :: "uuid \<Rightarrow> category list \<Rightarrow> category list \<Rightarrow> bool" where
  "same_others T t t' \<longleftrightarrow>
     {#c \<in># mset t'. cat_tenantId c \<noteq> T#} = {#c \<in># mset t. cat_tenantId c \<noteq> T#}"

lemma category_fields [simp]:
  "e_id category_decl = cat_id" "e_alive category_decl x \<longleftrightarrow> cat_deletedAt x = None"
  by (simp_all add: category_decl_def)

lemma category_saved:
  assumes "repository category_decl db" and "o_save db r t = Inr (x, t')"
  shows "cat_tenantId x = cat_tenantId r \<and> cat_slug x = cat_slug r \<and> cat_name x = cat_name r \<and>
    cat_parentId x = cat_parentId r \<and> cat_deletedAt x = cat_deletedAt r"
proof -
  from repository.save_cols [OF assms] have cols: "x\<lparr>cat_createdAt := 0, cat_updatedAt := 0\<rparr> =
      r\<lparr>cat_id := cat_id x, cat_createdAt := 0, cat_updatedAt := 0\<rparr>"
    by (simp add: category_decl_def)
  from arg_cong [where f = cat_tenantId, OF cols] arg_cong [where f = cat_slug, OF cols]
    arg_cong [where f = cat_name, OF cols] arg_cong [where f = cat_parentId, OF cols]
    arg_cong [where f = cat_deletedAt, OF cols]
  show ?thesis by simp
qed

lemma category_killed:
  assumes "killed category_decl x y"
  shows "cat_tenantId y = cat_tenantId x \<and> cat_id y = cat_id x \<and> cat_parentId y = cat_parentId x"
proof -
  from assms have cols: "e_cols category_decl (e_kill category_decl y) =
      e_cols category_decl (e_kill category_decl x)" and "cat_id y = cat_id x"
    by (simp_all add: killed_def)
  from arg_cong [where f = cat_tenantId, OF cols] arg_cong [where f = cat_parentId, OF cols] this(2)
  show ?thesis by (simp add: category_decl_def)
qed

lemma category_keyed:
  "repository category_decl db \<Longrightarrow> keyed_repository category_decl db slug_key"
proof (intro keyed_repository.intro keyed_repository_axioms.intro)
  fix x y :: category and i
  assume "e_cols category_decl x = e_cols category_decl (e_set_id category_decl i y)"
  from arg_cong [where f = cat_slug, OF this] arg_cong [where f = cat_tenantId, OF this]
  show "slug_key x = slug_key y" by (simp add: category_decl_def slug_key_def)
qed

lemma parents_mono:
  "parents_ok t \<Longrightarrow> c \<in> set t \<Longrightarrow> cat_parentId c = Some p \<Longrightarrow> places t \<subseteq> places t' \<Longrightarrow>
    (cat_tenantId c, p) \<in> places t'"
  by (auto simp: parents_ok_def)

lemma place_unique:
  assumes "ids_ok category_decl t" and "(T, i) \<in> places t" and "c \<in> set t" and "cat_id c = i"
  shows "cat_tenantId c = T"
  using assms by (auto simp: places_def ids_ok_def distinct_map dest: inj_onD)

lemma save_category_row:
  assumes db: "repository category_decl db" and s: "o_save db row t = Inr (x, t')"
    and ok: "category_table_ok t" and T: "cat_tenantId row = T"
    and old: "cat_id row = no_id \<or> (T, cat_id row) \<in> places t"
    and parent: "\<And>p. cat_parentId row = Some p \<Longrightarrow> (T, p) \<in> places t"
    and free: "key_free category_decl slug_key (slug_key row) (cat_id row) t"
  shows "category_table_ok t' \<and> places t \<subseteq> places t' \<and> (T, cat_id x) \<in> places t' \<and> same_others T t t'"
proof -
  from ok have ids: "ids_ok category_decl t" and uniq: "live_key_unique category_decl slug_key t"
    and par: "parents_ok t" by (simp_all add: category_table_ok_def table_inv_def)
  note set' = repository.save_set [OF db s, unfolded category_fields]
  note x = category_saved [OF db s]
  have xT: "cat_tenantId x = T" using x T by simp
  have here: "cat_tenantId c = T" if "c \<in> set t" "cat_id c = cat_id x" for c
  proof (cases "cat_id row = no_id")
    case True
    with repository.save_new [OF db s] that show ?thesis by (auto simp: image_iff)
  next
    case False
    with repository.save_old [OF db s] old place_unique [OF ids] that show ?thesis by simp
  qed
  have mono: "places t \<subseteq> places t'"
  proof
    fix q assume "q \<in> places t"
    then obtain c where "c \<in> set t" "q = (cat_tenantId c, cat_id c)" by (auto simp: places_def)
    with here xT show "q \<in> places t'" by (cases "cat_id c = cat_id x") (auto simp: places_def set')
  qed
  have "live_key_unique category_decl slug_key t'"
  proof (rule keyed_repository.save_key_unique [OF category_keyed [OF db] s uniq])
    fix c assume c: "c \<in> set t" "e_alive category_decl c" "slug_key c = slug_key row"
    with free have "cat_id c = cat_id row" by (simp add: key_free_def)
    moreover from this c ids have "cat_id row \<noteq> no_id" by (auto simp: ids_ok_def)
    ultimately show "e_id category_decl c = e_id category_decl x"
      using repository.save_old [OF db s] by simp
  qed
  moreover have "parents_ok t'"
    unfolding parents_ok_def
  proof (intro ballI allI impI)
    fix c p assume c: "c \<in> set t'" "cat_parentId c = Some p"
    then consider "c = x" | "c \<in> set t" using set' by auto
    then show "(cat_tenantId c, p) \<in> places t'"
    proof cases
      case 1
      with c(2) x xT parent mono show ?thesis by auto
    next
      case 2
      with parents_mono [OF par _ c(2) mono] show ?thesis by simp
    qed
  qed
  moreover have "same_others T t t'"
    unfolding same_others_def
    by (rule repository.save_outside [OF db s, where Q = "\<lambda>c. cat_tenantId c = T"]) (auto simp: xT here)
  ultimately show ?thesis
    using repository.save_ids [OF db s ids] mono xT
    by (auto simp: category_table_ok_def table_inv_def places_def set')
qed

text \<open>
  The mapper's part in saving a loaded collection of children: it may only give a row of the
  collection this parent, or take it from a row that had it.
\<close>

definition children_sync :: "(uuid \<Rightarrow> category list \<Rightarrow> category list \<Rightarrow> exn + category list) \<Rightarrow> bool" where
  "children_sync S \<longleftrightarrow> (\<forall>i cs t t'. S i cs t = Inr t' \<longrightarrow> (\<exists>g. mset t' = image_mset g (mset t) \<and>
     (\<forall>r. (\<exists>p u. g r = r\<lparr>cat_parentId := p, cat_updatedAt := u\<rparr> \<and>
         (p = cat_parentId r \<or> p = None \<or> p = Some i)) \<and>
       (cat_parentId r \<noteq> Some i \<and> cat_id r \<notin> cat_id ` set cs \<longrightarrow> g r = r))))"

lemma sync_category_rows:
  assumes S: "children_sync S" and s: "S i cs t = Inr t'"
    and ok: "category_table_ok t" and i: "(T, i) \<in> places t"
    and cs: "\<And>c. c \<in> set cs \<Longrightarrow> (T, cat_id c) \<in> places t"
  shows "category_table_ok t' \<and> places t' = places t \<and> same_others T t t'"
proof -
  from ok have ids: "ids_ok category_decl t" and uniq: "live_key_unique category_decl slug_key t"
    and par: "parents_ok t" by (simp_all add: category_table_ok_def table_inv_def)
  obtain g where g: "mset t' = image_mset g (mset t)"
    and gr: "\<And>r. (\<exists>p u. g r = r\<lparr>cat_parentId := p, cat_updatedAt := u\<rparr> \<and>
         (p = cat_parentId r \<or> p = None \<or> p = Some i))"
    and keep: "\<And>r. cat_parentId r \<noteq> Some i \<Longrightarrow> cat_id r \<notin> cat_id ` set cs \<Longrightarrow> g r = r"
    using S s unfolding children_sync_def by metis
  have cols: "cat_id (g r) = cat_id r \<and> cat_tenantId (g r) = cat_tenantId r \<and> cat_slug (g r) = cat_slug r \<and>
      cat_deletedAt (g r) = cat_deletedAt r \<and>
      (cat_parentId (g r) = cat_parentId r \<or> cat_parentId (g r) = None \<or> cat_parentId (g r) = Some i)" for r
    using gr [of r] by auto
  have set': "set t' = g ` set t" using arg_cong [where f = set_mset, OF g] by simp
  have places': "places t' = places t" by (simp add: places_def set' image_image cols)
  have touched: "cat_tenantId r = T" if r: "r \<in> set t" "g r \<noteq> r" for r
  proof -
    from keep r(2) consider "cat_parentId r = Some i" | "cat_id r \<in> cat_id ` set cs" by blast
    then show ?thesis
    proof cases
      case 1
      with par r(1) have "(cat_tenantId r, i) \<in> places t" by (auto simp: parents_ok_def)
      with i ids show ?thesis by (auto simp: places_def ids_ok_def distinct_map dest: inj_onD)
    next
      case 2
      with cs place_unique [OF ids _ r(1)] show ?thesis by auto
    qed
  qed
  have "mset (map cat_id t') = mset (map cat_id t)"
    by (simp add: g image_mset.compositionality comp_def cols)
  then have "distinct (map cat_id t') \<longleftrightarrow> distinct (map cat_id t)"
    by (rule mset_eq_imp_distinct_iff)
  then have "ids_ok category_decl t'"
    using ids unfolding ids_ok_def category_fields by (simp add: set' cols)
  moreover have "live_key_unique category_decl slug_key t'"
    using uniq unfolding live_key_unique_def set' ball_simps slug_key_def category_fields
    by (simp only: cols simp_thms)
  moreover have "parents_ok t'"
    unfolding parents_ok_def places'
  proof (intro ballI allI impI)
    fix c p assume "c \<in> set t'" and p: "cat_parentId c = Some p"
    then obtain r where r: "r \<in> set t" "c = g r" by (auto simp: set')
    show "(cat_tenantId c, p) \<in> places t"
    proof (cases "g r = r")
      case True
      with r p par show ?thesis by (auto simp: parents_ok_def)
    next
      case False
      with r p cols [of r] touched [OF r(1) False] i par show ?thesis by (auto simp: parents_ok_def)
    qed
  qed
  moreover have "same_others T t t'"
  proof -
    have "{#c \<in># mset t'. cat_tenantId c \<noteq> T#} = image_mset g {#r \<in># mset t. cat_tenantId r \<noteq> T#}"
      by (simp add: g filter_mset_image_mset cols)
    also have "\<dots> = image_mset (\<lambda>r. r) {#r \<in># mset t. cat_tenantId r \<noteq> T#}"
      using touched by (intro image_mset_cong) auto
    finally show ?thesis by (simp add: same_others_def)
  qed
  ultimately show ?thesis
    using places' by (simp add: category_table_ok_def table_inv_def)
qed

lemma remove_category_row:
  assumes db: "repository category_decl db" and s: "o_soft_remove db (\<lambda>c. cat_id c = i) t = Inr (n, t')"
    and ok: "category_table_ok t" and i: "(T, i) \<in> places t"
  shows "category_table_ok t' \<and> places t' = places t \<and> same_others T t t'"
proof -
  from ok have ids: "ids_ok category_decl t" and uniq: "live_key_unique category_decl slug_key t"
    and par: "parents_ok t" by (simp_all add: category_table_ok_def table_inv_def)
  obtain g where g: "mset t' = image_mset g (mset t)"
    and gr: "\<And>x. if cat_id x = i then killed category_decl x (g x) else g x = x"
    using repository.remove_rows [OF db s] by auto
  have cols: "cat_tenantId (g r) = cat_tenantId r \<and> cat_id (g r) = cat_id r \<and>
      cat_parentId (g r) = cat_parentId r" for r
    using gr [of r] category_killed by (cases "cat_id r = i") auto
  have set': "set t' = g ` set t" using arg_cong [where f = set_mset, OF g] by simp
  have places': "places t' = places t" by (simp add: places_def set' image_image cols)
  moreover have "parents_ok t'"
    using par unfolding parents_ok_def places' by (auto simp: set' cols)
  moreover have "same_others T t t'"
    unfolding same_others_def
  proof (rule repository.remove_outside [OF db s, where Q = "\<lambda>c. cat_tenantId c = T"])
    show "cat_tenantId c = T" if "c \<in> set t" "cat_id c = i" for c
      using place_unique [OF ids i that] .
  qed (auto dest: category_killed)
  ultimately show ?thesis
    using repository.remove_ids [OF db s ids] keyed_repository.remove_key_unique [OF category_keyed [OF db] s uniq]
    by (simp add: category_table_ok_def table_inv_def)
qed

section \<open>Table and cache together\<close>

text \<open>
  A cached category belongs to the tenant and the identifier of its key, and its row, its parent
  and its children are rows of that tenant; cached listings and trees hold the tenant's
  categories only.
\<close>

definition known_category :: "(uuid \<times> uuid) set \<Rightarrow> uuid \<Rightarrow> uuid \<Rightarrow> category_entity \<Rightarrow> bool" where
  "known_category P T i e \<longleftrightarrow> ce_id e = i \<and> cat_tenantId (ce_row e) = T \<and> (T, i) \<in> P \<and>
     (\<exists>p. ce_parent e = Loaded p \<and> (\<forall>q. p = Some q \<longrightarrow> (T, cat_id q) \<in> P)) \<and>
     (\<forall>cs. ce_children e = Loaded cs \<longrightarrow> (\<forall>c \<in> set cs. (T, cat_id c) \<in> P))"

fun node_tenant :: "uuid \<Rightarrow> category_node \<Rightarrow> bool" where
  "node_tenant T (CategoryNode c ks) \<longleftrightarrow> cat_tenantId (ce_row c) = T \<and> (\<forall>k \<in> set ks. node_tenant T k)"

definition category_entry :: "env \<Rightarrow> (uuid \<times> uuid) set \<Rightarrow> jstring \<Rightarrow> cached \<Rightarrow> bool" where
  "category_entry E P k v \<longleftrightarrow>
     (\<forall>T i. plain_tenant T \<longrightarrow> k = category_key T i \<longrightarrow> (\<exists>e. v = CachedCategory e \<and> known_category P T i e)) \<and>
     (\<forall>T q. plain_tenant T \<longrightarrow> k = categoriesList_key E T q \<longrightarrow> (\<exists>page. v = CachedCategories page \<and>
        (\<forall>e \<in> set (pg_data page). cat_tenantId (ce_row e) = T))) \<and>
     (\<forall>T. plain_tenant T \<longrightarrow> k = categoriesTree_key T \<longrightarrow> (\<exists>tree. v = CachedTree tree \<and>
        (\<forall>n \<in> set tree. node_tenant T n)))"

definition category_inv :: "env \<Rightarrow> world \<Rightarrow> bool" where
  "category_inv E w \<longleftrightarrow> category_table_ok (w_categories w) \<and>
     entries_ok (category_entry E (places (w_categories w))) (w_redis w)"

lemma known_mono: "known_category P T i e \<Longrightarrow> P \<subseteq> Q \<Longrightarrow> known_category Q T i e"
  unfolding known_category_def by blast

lemma entry_mono: "category_entry E P k v \<Longrightarrow> P \<subseteq> Q \<Longrightarrow> category_entry E Q k v"
  using known_mono [of P _ _ _ Q] by (fastforce simp: category_entry_def)

lemma entries_mono:
  "entries_ok (category_entry E P) st \<Longrightarrow> P \<subseteq> Q \<Longrightarrow> entries_ok (category_entry E Q) st"
  unfolding entries_ok_def using entry_mono by blast

lemma key_kinds:
  assumes "plain_tenant T" "plain_tenant T'"
  shows "category_key T i = category_key T' j \<longleftrightarrow> T = T' \<and> i = j"
    "category_key T i \<noteq> categoriesList_key E T' q" "category_key T i \<noteq> categoriesTree_key T'"
    "categoriesList_key E T q \<noteq> category_key T' i" "categoriesTree_key T \<noteq> category_key T' i"
    "categoriesList_key E T q \<noteq> categoriesTree_key T'" "categoriesTree_key T \<noteq> categoriesList_key E T' q"
    "categoriesTree_key T = categoriesTree_key T' \<longleftrightarrow> T = T'"
    "categoriesList_key E T q = categoriesList_key E T' q' \<Longrightarrow> T = T'"
  using assms
  by (auto simp: keys_as_tenant_keys suffix_kinds suffix_kinds [symmetric] dest!: tenant_key_inject [rotated 2])

text \<open>One call, for a tenant: what it keeps, and that it leaves the other tenants' rows alone.\<close>

definition advances :: "env \<Rightarrow> uuid \<Rightarrow> world \<Rightarrow> world \<Rightarrow> bool" where
  "advances E T w w' \<longleftrightarrow> category_inv E w' \<and> same_others T (w_categories w) (w_categories w') \<and>
     places (w_categories w) \<subseteq> places (w_categories w')"

lemma advances_refl: "category_inv E w \<Longrightarrow> advances E T w w"
  by (simp add: advances_def same_others_def)

lemma advances_trans: "advances E T u v \<Longrightarrow> advances E T v w \<Longrightarrow> advances E T u w"
  unfolding advances_def same_others_def by auto

lemma advances_cache_only: "cache_only w w' \<Longrightarrow> category_inv E w \<Longrightarrow> advances E T w w'"
  using cache_only_rows [of w w'] by (auto simp: advances_def category_inv_def same_others_def)

context redis_server begin

lemma cached_category:
  assumes "cache_get R k w = (Inr (Some c), w')" and "category_inv E w"
  shows "w' = w \<and> category_entry E (places (w_categories w)) k c"
  using get_entry [OF _ assms(1)] assms(2) unfolding category_inv_def by blast

lemma store_category:
  assumes "cache_set R k v ttl w = (r, w')" and "category_inv E w"
    and "category_entry E (places (w_categories w)) k v"
  shows "r = Inr () \<and> advances E T w w'"
proof -
  from set_run [of k v ttl w] assms(1) obtain st where w': "w' = w\<lparr>w_redis := st\<rparr>" "r = Inr ()" by auto
  from assms(2) have "entries_ok (category_entry E (places (w_categories w))) (w_redis w)"
    by (simp add: category_inv_def)
  from set_entries [OF this assms(3,1)] w' assms(2) show ?thesis
    by (simp add: advances_def category_inv_def same_others_def)
qed

lemma get_total: "cache_get R k w = (r, w') \<Longrightarrow> \<exists>v. r = Inr v \<and> w' = w"
  using get_run [of k w] by auto

end

lemma loaded_known:
  assumes db: "repository category_decl (categoryOrm E)" and ok: "category_table_ok (w_categories w)"
    and row: "row \<in> set (w_categories w)" "cat_tenantId row = T"
  shows "known_category (places (w_categories w)) T (cat_id row) (load_category E (w_categories w) row)"
proof -
  let ?t = "w_categories w"
  note sel = repository.select_set [OF db]
  have par: "parents_ok ?t" and ids: "ids_ok category_decl ?t"
    using ok by (simp_all add: category_table_ok_def table_inv_def)
  have here: "(T, cat_id row) \<in> places ?t" using row by (auto simp: places_def)
  have "(T, cat_id q) \<in> places ?t"
    if "cat_parentId row = Some p" "o_select (categoryOrm E) (\<lambda>x. cat_id x = p) ?t = q # qs" for p q qs
  proof -
    from that(2) sel [of "\<lambda>x. cat_id x = p" ?t] have "cat_id q = p" by auto
    with par row that(1) show ?thesis by (auto simp: parents_ok_def)
  qed
  moreover have "(T, cat_id c) \<in> places ?t"
    if "c \<in> set (o_select (categoryOrm E) (\<lambda>x. cat_parentId x = Some (cat_id row)) ?t)" for c
  proof -
    from that sel have c: "c \<in> set ?t" "cat_parentId c = Some (cat_id row)" by auto
    with par have "(cat_tenantId c, cat_id row) \<in> places ?t" by (auto simp: parents_ok_def)
    with place_unique [OF ids this row(1)] row(2) c(1) show ?thesis by (auto simp: places_def)
  qed
  ultimately show ?thesis
    using here row by (auto simp: known_category_def load_category_def split: option.splits list.splits)
qed

lemma category_findOne_run:
  assumes db: "repository category_decl (categoryOrm E)" and R: "redis_server (redis E) glob rank"
    and T: "plain_tenant T" and inv: "category_inv E w"
    and run: "category_findOne E T i w = (r, w')"
  shows "advances E T w w' \<and> w_categories w' = w_categories w \<and>
    (\<forall>e. r = Inr e \<longrightarrow> known_category (places (w_categories w)) T i e)"
  using run unfolding category_findOne_def Let_def
proof (cases rule: andThenE)
  case (err e)
  with redis_server.get_total [OF R] show ?thesis by fastforce
next
  case (ok cached w1)
  show ?thesis
  proof (cases cached)
    case (Some c)
    from redis_server.cached_category [OF R ok(1) [unfolded Some] inv] have c: "w1 = w"
      "category_entry E (places (w_categories w)) (category_key T i) c" by auto
    then obtain e where "c = CachedCategory e" "known_category (places (w_categories w)) T i e"
      using T unfolding category_entry_def by blast
    with ok(2) Some c(1) advances_refl [OF inv] show ?thesis by (auto simp: ret_eq)
  next
    case None
    have w1: "w1 = w" using redis_server.get_total [OF R ok(1)] by auto
    from ok(2) [unfolded None w1 option.case] show ?thesis
    proof (cases rule: andThenE)
      case (err e)
      with find_or_throw_state [OF err(1)] advances_refl [OF inv] show ?thesis by simp
    next
      case (ok row w2)
      from repository.find_or_throw_Inr [OF db ok(1)] have row: "w2 = w" "row \<in> set (w_categories w)"
        "cat_id row = i" "cat_tenantId row = T" by auto
      let ?e = "load_category E (w_categories w) row"
      have known: "known_category (places (w_categories w)) T i ?e"
        using loaded_known [OF db _ row(2,4)] inv row(3) by (simp add: category_inv_def)
      have entry: "category_entry E (places (w_categories w)) (category_key T i) (CachedCategory ?e)"
        unfolding category_entry_def using known T by (auto simp: key_kinds)
      from ok(2) row(1) obtain u w3 where set: "cache_set (redis E) (category_key T i)
          (CachedCategory ?e) CACHE_TTL_CATEGORY w = (u, w3)" and
        last: "(case u of Inr _ \<Rightarrow> r = Inr ?e | Inl x \<Rightarrow> r = Inl x) \<and> w' = w3"
        by (auto simp: andThen_def gets_def ret_def split: prod.splits sum.splits)
      from redis_server.store_category [OF R set inv entry] last have "r = Inr ?e" "advances E T w w'"
        by auto
      moreover have "w_categories w' = w_categories w"
        using set last by (auto simp: cache_set_def split: prod.splits sum.splits)
      ultimately show ?thesis using known by auto
    qed
  qed
qed

lemma advances_rows:
  assumes "category_inv E w" and "category_table_ok t" and "same_others T (w_categories w) t"
    and "places (w_categories w) \<subseteq> places t"
  shows "advances E T w (w\<lparr>w_categories := t\<rparr>)"
  using assms by (auto simp: advances_def category_inv_def intro: entries_mono)

text \<open>Saving an entity whose relations are the tenant's, and whose slug nobody else has.\<close>

lemma save_category_run:
  assumes db: "repository category_decl (categoryOrm E)" and S: "children_sync (sync_children E)"
    and inv: "category_inv E w" and T: "cat_tenantId (ce_row e) = T"
    and old: "ce_id e = no_id \<or> (T, ce_id e) \<in> places (w_categories w)"
    and parent: "\<And>p. cat_parentId (stored_row e) = Some p \<Longrightarrow> (T, p) \<in> places (w_categories w)"
    and children: "\<And>cs c. ce_children e = Loaded cs \<Longrightarrow> c \<in> set cs \<Longrightarrow>
      (T, cat_id c) \<in> places (w_categories w)"
    and free: "key_free category_decl slug_key (T, cat_slug (ce_row e)) (ce_id e) (w_categories w)"
    and run: "save_category E e w = (r, w')"
  shows "advances E T w w'"
proof -
  have row: "cat_tenantId (stored_row e) = T" "cat_id (stored_row e) = ce_id e"
    "slug_key (stored_row e) = (T, cat_slug (ce_row e))"
    using T by (auto simp: stored_row_def slug_key_def split: rel.splits)
  have ok: "category_table_ok (w_categories w)" using inv by (simp add: category_inv_def)
  note step = advances_rows [OF inv]
  show ?thesis
  proof (cases "o_save (categoryOrm E) (stored_row e) (w_categories w)")
    case (Inl x)
    with run advances_refl [OF inv] show ?thesis by (simp add: save_category_def)
  next
    case (Inr p)
    obtain x t where p: "p = (x, t)" by (cases p)
    have t: "category_table_ok t" "places (w_categories w) \<subseteq> places t" "(T, cat_id x) \<in> places t"
      "same_others T (w_categories w) t"
      using save_category_row [OF db Inr [unfolded p] ok row(1)] old parent free row by auto
    show ?thesis
    proof (cases "ce_children e")
      case NotLoaded
      with run Inr p step [OF t(1,4,2)] show ?thesis by (simp add: save_category_def)
    next
      case (Loaded cs)
      show ?thesis
      proof (cases "sync_children E (cat_id x) cs t")
        case (Inl y)
        with run Inr p Loaded advances_refl [OF inv] show ?thesis by (simp add: save_category_def)
      next
        case (Inr t')
        have "category_table_ok t' \<and> places t' = places t \<and> same_others T t t'"
          using children [OF Loaded] t(2) by (intro sync_category_rows [OF S Inr t(1,3)]) blast
        with t have "category_table_ok t'" "same_others T (w_categories w) t'"
          "places (w_categories w) \<subseteq> places t'" by (auto simp: same_others_def)
        from step [OF this] run \<open>o_save _ _ _ = _\<close> p Loaded Inr show ?thesis
          by (simp add: save_category_def)
      qed
    qed
  qed
qed

lemma audit_cache_only: "keeps cache_only (audit_record ctx input)"
proof (rule keepsI)
  fix w r w' assume "audit_record ctx input w = (r, w')"
  then show "cache_only w w'"
    unfolding cache_only_def
    by (intro exI [of _ "w_redis w"] exI [of _ "audit_events ctx input"])
      (simp add: audit_record_cases emitted_def)
qed

lemma invalidate_cache_only:
  "redis_server (redis E) glob rank \<Longrightarrow> keeps cache_only (invalidateCollections E T)"
  unfolding invalidateCollections_def
  by (intro cache_frame.keeps_rules cache_only_delByPattern)

text \<open>Saving followed by a tail that only records and invalidates.\<close>

lemma save_then_run:
  assumes run: "conflict_on_unique msg (andThen (save_category E e) k) w = (r, w')"
    and save: "\<And>r w'. save_category E e w = (r, w') \<Longrightarrow> advances E T w w'"
    and tail: "\<And>x. keeps cache_only (k x)"
  shows "advances E T w w'"
proof -
  from conflict_state [OF run] obtain r0 where "andThen (save_category E e) k w = (r0, w')" by blast
  then show ?thesis
  proof (cases rule: andThenE)
    case (err x)
    from save [OF err(1)] show ?thesis .
  next
    case (ok x w1)
    from save [OF ok(1)] have w1: "advances E T w w1" .
    then have "category_inv E w1" by (simp add: advances_def)
    from advances_trans [OF w1 advances_cache_only [OF keepsD [OF tail ok(2)] this]] show ?thesis .
  qed
qed

lemma assertSlugUnique_state: "assertSlugUnique E T slug excl w = (r, w') \<Longrightarrow> w' = w"
  unfolding assertSlugUnique_def by (rule throw_if_exists_state)

lemma assertSlugUnique_free:
  assumes db: "repository category_decl (categoryOrm E)"
    and run: "assertSlugUnique E T slug excl w = (Inr u, w')"
  shows "w' = w \<and> key_free category_decl slug_key (T, slug) (or_default excl no_id) (w_categories w)"
  using run repository.throw_if_exists_run [OF db, of "categoryRepo E" _ _ w]
  by (fastforce simp: assertSlugUnique_def key_free_def slug_key_def
      truthy_def opt_filter_def or_default_def no_id_def split: if_splits option.splits)

lemma assertParentExists_Inr:
  assumes db: "repository category_decl (categoryOrm E)"
    and run: "assertParentExists E T i w = (Inr p, w')"
  shows "w' = w \<and> cat_id p = i \<and> (T, i) \<in> places (w_categories w)"
  using repository.find_or_throw_Inr [OF db run [unfolded assertParentExists_def]]
  by (auto simp: places_def)

text \<open>Each method, for whatever result.\<close>

lemma category_create_run:
  assumes db: "repository category_decl (categoryOrm E)" and R: "redis_server (redis E) glob rank"
    and S: "children_sync (sync_children E)" and inv: "category_inv E w"
    and run: "category_create E ctx T dto w = (r, w')"
  shows "advances E T w w'"
  using run unfolding category_create_def Let_def
proof (cases rule: andThenE)
  case (err e)
  then show ?thesis
    using advances_refl [OF inv] assertSlugUnique_state by blast
next
  case (ok u w1)
  from assertSlugUnique_free [OF db ok(1)] have w1: "w1 = w"
    and free: "key_free category_decl slug_key (T, category_slug E dto) no_id (w_categories w)"
    by (simp_all add: or_default_def)
  from ok(2) [unfolded w1] show ?thesis
  proof (cases rule: andThenE)
    case (err e)
    then show ?thesis
      using advances_refl [OF inv]
      by (auto simp: flow_simps assertParentExists_def dest: find_or_throw_state split: option.splits)
  next
    case (ok parent w2)
    then have w2: "w2 = w" and parent: "\<And>p. parent = Some p \<Longrightarrow> (T, cat_id p) \<in> places (w_categories w)"
      by (auto simp: flow_simps dest!: assertParentExists_Inr [OF db] split: option.splits)
    show ?thesis
    proof (rule save_then_run [OF ok(2) [unfolded w2]])
      show "advances E T w w'" if "save_category E (new_category T (cc_name dto) (category_slug E dto) parent) w
          = (r, w')" for r w'
        using parent free
        by (intro save_category_run [OF db S inv _ _ _ _ _ that])
          (auto simp: new_category_def stored_row_def split: option.splits)
    qed (intro cache_frame.keeps_rules audit_cache_only invalidate_cache_only [OF R])
  qed
qed

lemma rename_category_fields [simp]:
  "ce_parent (rename_category E dto e) = ce_parent e" "ce_children (rename_category E dto e) = ce_children e"
  "ce_id (rename_category E dto e) = ce_id e"
  "cat_tenantId (ce_row (rename_category E dto e)) = cat_tenantId (ce_row e)"
  by (auto simp: rename_category_def Let_def split: option.splits)

lemma move_category_Inr:
  assumes db: "repository category_decl (categoryOrm E)"
    and run: "move_category E T i dto e w = (Inr e', w')"
    and e: "\<exists>p. ce_parent e = Loaded p \<and> (\<forall>q. p = Some q \<longrightarrow> (T, cat_id q) \<in> places (w_categories w))"
  shows "w' = w \<and> ce_row e' = ce_row e \<and> ce_children e' = ce_children e \<and>
    (\<exists>p. ce_parent e' = Loaded p \<and> (\<forall>q. p = Some q \<longrightarrow> (T, cat_id q) \<in> places (w_categories w)))"
  using run e
  by (auto simp: move_category_def flow_simps dest!: assertParentExists_Inr [OF db] split: option.splits)

lemma move_category_state: "move_category E T i dto e w = (r, w') \<Longrightarrow> w' = w"
  by (auto simp: move_category_def assertParentExists_def ensure_def ret_eq throw_eq elim!: andThenE
      dest: find_or_throw_state split: option.splits if_splits)

lemma category_update_run:
  assumes db: "repository category_decl (categoryOrm E)" and R: "redis_server (redis E) glob rank"
    and S: "children_sync (sync_children E)" and T: "plain_tenant T" and inv: "category_inv E w"
    and run: "category_update E ctx T i dto w = (r, w')"
  shows "advances E T w w'"
  using run unfolding category_update_def Let_def
proof (cases rule: andThenE)
  case (err e)
  from category_findOne_run [OF db R T inv err(1)] show ?thesis ..
next
  case (ok target w1)
  let ?t = "w_categories w" and ?new = "rename_category E dto target"
  from category_findOne_run [OF db R T inv ok(1)] have w1: "advances E T w w1" "w_categories w1 = ?t"
    and known: "known_category (places ?t) T i target" by auto
  then have inv1: "category_inv E w1" by (simp add: advances_def)
  from known have i: "ce_id target = i" "cat_tenantId (ce_row target) = T" "(T, i) \<in> places ?t"
    by (simp_all add: known_category_def)
  moreover have "ids_ok category_decl ?t"
    using inv by (simp add: category_inv_def category_table_ok_def table_inv_def)
  ultimately have "i \<noteq> no_id" by (auto simp: places_def ids_ok_def)
  from ok(2) have "advances E T w1 w'"
  proof (cases rule: andThenE)
    case (err e)
    then show ?thesis
      using advances_refl [OF inv1] assertSlugUnique_state by blast
  next
    case (ok u w2)
    from assertSlugUnique_free [OF db ok(1)] have w2: "w2 = w1"
      and free: "key_free category_decl slug_key (T, cat_slug (ce_row ?new)) i (w_categories w1)"
      by (simp_all add: or_default_def)
    from ok(2) [unfolded w2] show ?thesis
    proof (cases rule: andThenE)
      case (err e)
      with move_category_state [OF err(1)] advances_refl [OF inv1] show ?thesis by simp
    next
      case (ok e w3)
      from move_category_Inr [OF db ok(1)] known w1(2) have e: "w3 = w1" "ce_row e = ce_row ?new"
        "ce_children e = ce_children target"
        "\<exists>p. ce_parent e = Loaded p \<and> (\<forall>q. p = Some q \<longrightarrow> (T, cat_id q) \<in> places (w_categories w1))"
        by (auto simp: known_category_def)
      then have fields: "ce_id e = i" "cat_tenantId (ce_row e) = T" "cat_slug (ce_row e) = cat_slug (ce_row ?new)"
        using i rename_category_fields [of E dto target] by (simp_all add:)
      show ?thesis
      proof (rule save_then_run [OF ok(2) [unfolded e(1)]])
        show "advances E T w1 w'" if "save_category E e w1 = (r, w')" for r w'
        proof (rule save_category_run [OF db S inv1 fields(2) _ _ _ _ that])
          show "(T, p) \<in> places (w_categories w1)" if "cat_parentId (stored_row e) = Some p" for p
            using e(4) that by (auto simp: stored_row_def)
          show "(T, cat_id c) \<in> places (w_categories w1)" if "ce_children e = Loaded cs" "c \<in> set cs" for cs c
            using known that e(3) w1(2) by (auto simp: known_category_def)
        qed (use free fields i w1(2) in simp_all)
      qed (intro cache_frame.keeps_rules audit_cache_only invalidate_cache_only [OF R]
          cache_only_del [OF R])
    qed
  qed
  with w1(1) show ?thesis by (rule advances_trans)
qed

text \<open>A tail of recordings and invalidations.\<close>

lemma advances_tail:
  assumes "advances E T w w1" and "keeps cache_only m" and "m w1 = (r, w')"
  shows "advances E T w w'"
proof -
  from assms(1) have "category_inv E w1" by (simp add: advances_def)
  from advances_cache_only [OF keepsD [OF assms(2,3)] this, of T] assms(1) show ?thesis
    by (rule advances_trans [rotated])
qed

lemma category_remove_run:
  assumes db: "repository category_decl (categoryOrm E)" and R: "redis_server (redis E) glob rank"
    and T: "plain_tenant T" and inv: "category_inv E w"
    and run: "category_remove E ctx T i w = (r, w')"
  shows "advances E T w w'"
  using run unfolding category_remove_def
proof (cases rule: andThenE)
  case (err e)
  from category_findOne_run [OF db R T inv err(1)] show ?thesis ..
next
  case (ok target w1)
  from category_findOne_run [OF db R T inv ok(1)] have w1: "advances E T w w1"
    and i: "ce_id target = i" "(T, i) \<in> places (w_categories w1)" by (auto simp: known_category_def)
  then have inv1: "category_inv E w1" by (simp add: advances_def)
  from ok(2) show ?thesis
  proof (cases rule: andThenE)
    case (err e)
    with w1 show ?thesis by (simp add: count_rows_eq)
  next
    case (ok n w2)
    then have w2: "w2 = w1" by (simp add: count_rows_eq)
    from ok(2) [unfolded w2] show ?thesis
    proof (cases rule: andThenE)
      case (err e)
      with w1 show ?thesis by (simp add: ensure_Inl)
    next
      case (ok u w3)
      then have w3: "w3 = w1" by (simp add: ensure_Inr)
      from ok(2) [unfolded w3] show ?thesis
      proof (cases rule: andThenE)
        case (err e)
        with w1 show ?thesis by (simp add: soft_remove_Inl)
      next
        case (ok m w4)
        then obtain t where s: "o_soft_remove (categoryOrm E) (\<lambda>c. cat_id c = i) (w_categories w1) = Inr (m, t)"
          and w4: "w4 = w1\<lparr>w_categories := t\<rparr>"
          by (auto simp: soft_remove_Inr i(1) categoryRepo_def)
        have "category_table_ok (w_categories w1)" using inv1 by (simp add: category_inv_def)
        from remove_category_row [OF db s this i(2)] advances_rows [OF inv1, of t T] have "advances E T w1 w4"
          by (simp add: w4)
        from advances_trans [OF w1 this] _ ok(2) show ?thesis
          by (rule advances_tail) (intro cache_frame.keeps_rules audit_cache_only
            invalidate_cache_only [OF R] cache_only_del [OF R])
      qed
    qed
  qed
qed

text \<open>The reads that only fill the cache.\<close>

lemma cached_read:
  assumes R: "redis_server (redis E) glob rank" and inv: "category_inv E w"
    and run: "andThen (cache_get (redis E) k) (\<lambda>cached. case cached of
        Some v \<Rightarrow> hit v | None \<Rightarrow> miss) w = (r, w')"
    and hit: "\<And>v r w'. hit v w = (r, w') \<Longrightarrow> w' = w"
    and miss: "\<And>r w'. miss w = (r, w') \<Longrightarrow> advances E T w w'"
  shows "advances E T w w'"
  using run
proof (cases rule: andThenE)
  case (err e)
  with redis_server.get_total [OF R] show ?thesis by fastforce
next
  case (ok cached w1)
  then have "w1 = w" using redis_server.get_total [OF R] by fastforce
  with ok(2) hit miss advances_refl [OF inv] show ?thesis by (cases cached) (simp, metis option.case(2))
qed

lemma stored_read:
  assumes R: "redis_server (redis E) glob rank" and inv: "category_inv E w"
    and entry: "category_entry E (places (w_categories w)) k v"
    and run: "andThen (cache_set (redis E) k v ttl) (\<lambda>_. ret x) w = (r, w')"
  shows "advances E T w w'"
  using run
  by (cases rule: andThenE) (use redis_server.store_category [OF R _ inv entry] in \<open>auto simp: ret_eq\<close>)

lemma list_entry:
  "plain_tenant T \<Longrightarrow> (\<And>e. e \<in> set (pg_data page) \<Longrightarrow> cat_tenantId (ce_row e) = T) \<Longrightarrow>
    category_entry E P (categoriesList_key E T q) (CachedCategories page)"
  unfolding category_entry_def using key_kinds by metis

lemma tree_entry:
  "plain_tenant T \<Longrightarrow> (\<And>n. n \<in> set tree \<Longrightarrow> node_tenant T n) \<Longrightarrow>
    category_entry E P (categoriesTree_key T) (CachedTree tree)"
  unfolding category_entry_def using key_kinds by metis

lemma category_findAll_run:
  assumes db: "repository category_decl (categoryOrm E)" and R: "redis_server (redis E) glob rank"
    and T: "plain_tenant T" and inv: "category_inv E w"
    and run: "category_findAll E T query w = (r, w')"
  shows "advances E T w w'"
proof (rule cached_read [OF R inv run [unfolded category_findAll_def Let_def]], goal_cases)
  case (1 v r w')
  then show ?case by (cases v) (simp_all add: ret_eq throw_eq)
next
  case (2 r w')
  note run = this [unfolded get_many_and_count_def andThen_gets Let_def prod.case]
  have tenant: "cat_tenantId c = T"
    if c: "c \<in> set (o_page (categoryOrm E) pg (o_order (categoryOrm E) ord
      (o_select (categoryOrm E) (category_matches E T query) t)))" for c pg ord t
  proof -
    from c repository.page_sub [OF db] have "c \<in> set (o_order (categoryOrm E) ord
      (o_select (categoryOrm E) (category_matches E T query) t))" by blast
    then show ?thesis
      by (simp add: repository.order_set [OF db] repository.select_set [OF db] category_matches_def)
  qed
  have "ce_row (listed_category E query t c) = c" for t c
    by (simp add: listed_category_def bare_category_def)
  then show ?case
    by (intro stored_read [OF R inv list_entry [OF T] run])
      (auto simp: paginated_response_def tenant)
qed

lemma live_ids:
  assumes db: "repository category_decl (categoryOrm E)" and "category_table_ok t"
  shows "distinct (ids (map bare_category (o_order (categoryOrm E) ord (o_select (categoryOrm E) P t))))"
proof -
  let ?rows = "o_order (categoryOrm E) ord (o_select (categoryOrm E) P t)"
  have "mset ?rows = {#c \<in># mset t. cat_deletedAt c = None \<and> P c#}"
    by (simp add: repository.order_rows [OF db] repository.select_rows [OF db])
  also have "\<dots> = mset (filter (\<lambda>c. cat_deletedAt c = None \<and> P c) t)" by simp
  finally have "image_mset cat_id (mset ?rows) =
      image_mset cat_id (mset (filter (\<lambda>c. cat_deletedAt c = None \<and> P c) t))"
    by (rule arg_cong)
  then have same: "mset (map cat_id ?rows) = mset (map cat_id (filter (\<lambda>c. cat_deletedAt c = None \<and> P c) t))"
    by (simp only: mset_map)
  have "distinct (map cat_id t)"
    using assms(2) by (simp add: category_table_ok_def table_inv_def ids_ok_def)
  then have "distinct (map cat_id (filter (\<lambda>c. cat_deletedAt c = None \<and> P c) t))"
    by (rule distinct_map_filter)
  with mset_eq_imp_distinct_iff [OF same] have "distinct (map cat_id ?rows)" by simp
  then show ?thesis by (simp add: ids_def comp_def bare_category_def)
qed

lemma findTree_tree:
  assumes "repository category_decl (categoryOrm E)" and "category_table_ok t"
  shows "buildTree (map bare_category (o_order (categoryOrm E) ord (o_select (categoryOrm E) P t))) =
    map (\<lambda>c. CategoryNode (bare_category c) []) (o_order (categoryOrm E) ord (o_select (categoryOrm E) P t))"
  by (subst buildTree_flat [OF live_ids [OF assms]]) (auto simp: bare_category_def)

lemma findTree_run:
  assumes db: "repository category_decl (categoryOrm E)" and R: "redis_server (redis E) glob rank"
    and T: "plain_tenant T" and inv: "category_inv E w"
    and run: "findTree E T w = (r, w')"
  shows "advances E T w w'"
proof (rule cached_read [OF R inv run [unfolded findTree_def Let_def]], goal_cases)
  case (1 v r w')
  then show ?case by (cases v) (simp_all add: ret_eq throw_eq)
next
  case (2 r w')
  let ?rows = "o_order (categoryOrm E) [(js ''name'', js ''ASC'')]
    (o_select (categoryOrm E) (\<lambda>c. cat_tenantId c = T \<and> cat_deletedAt c = None) (w_categories w))"
  note run = 2 [unfolded find_many_def andThen_gets repo_simps]
  show ?case
  proof (cases "?rows = []")
    case True
    with run advances_refl [OF inv] show ?thesis by (simp add: throw_eq)
  next
    case False
    have ok: "category_table_ok (w_categories w)" using inv by (simp add: category_inv_def)
    have "node_tenant T n" if "n \<in> set (buildTree (map bare_category ?rows))" for n
      using that repository.order_set [OF db] repository.select_set [OF db]
      by (auto simp: findTree_tree [OF db ok] bare_category_def)
    from stored_read [OF R inv tree_entry [OF T this]] run False show ?thesis by simp
  qed
qed

section \<open>The contract of a tenant service\<close>

inductive category_step :: "env \<Rightarrow> uuid \<Rightarrow> world \<Rightarrow> world \<Rightarrow> bool" for E :: env where
  cat_create: "category_create E ctx T dto w = (r, w') \<Longrightarrow> category_step E T w w'"
| cat_findAll: "category_findAll E T query w = (r', w') \<Longrightarrow> category_step E T w w'"
| cat_findTree: "findTree E T w = (r'', w') \<Longrightarrow> category_step E T w w'"
| cat_findOne: "category_findOne E T i w = (r, w') \<Longrightarrow> category_step E T w w'"
| cat_update: "category_update E ctx T i dto' w = (r, w') \<Longrightarrow> category_step E T w w'"
| cat_remove: "category_remove E ctx T i w = (r3, w') \<Longrightarrow> category_step E T w w'"

text \<open>The calls of tenants whose identifier is a UUID.\<close>

definition plain_category_step :: "env \<Rightarrow> uuid \<Rightarrow> world \<Rightarrow> world \<Rightarrow> bool" where
  "plain_category_step E T w w' \<longleftrightarrow> plain_tenant T \<and> category_step E T w w'"

lemma category_step_advances:
  assumes db: "repository category_decl (categoryOrm E)" and R: "redis_server (redis E) glob rank"
    and S: "children_sync (sync_children E)" and "plain_category_step E T w w'" and inv: "category_inv E w"
  shows "advances E T w w'"
proof -
  from assms(4) have T: "plain_tenant T" and "category_step E T w w'"
    by (simp_all add: plain_category_step_def)
  from this(2) show ?thesis
  proof cases
    case cat_create
    then show ?thesis by (rule category_create_run [OF db R S inv])
  next
    case cat_findAll
    then show ?thesis by (rule category_findAll_run [OF db R T inv])
  next
    case cat_findTree
    then show ?thesis by (rule findTree_run [OF db R T inv])
  next
    case cat_findOne
    from category_findOne_run [OF db R T inv this] show ?thesis ..
  next
    case cat_update
    then show ?thesis by (rule category_update_run [OF db R S T inv])
  next
    case cat_remove
    then show ?thesis by (rule category_remove_run [OF db R T inv])
  qed
qed

lemma category_service:
  assumes "repository category_decl (categoryOrm E)" and "redis_server (redis E) glob rank"
    and "children_sync (sync_children E)"
  shows "tenant_service (plain_category_step E) w_categories cat_tenantId (category_inv E)"
  using category_step_advances [OF assms]
  by unfold_locales (simp_all add: advances_def same_others_def)

lemma mem_sync [simp]: "children_sync (sync_children mem_env)"
proof -
  have "\<exists>p u. (r :: category) = r\<lparr>cat_parentId := p, cat_updatedAt := u\<rparr> \<and>
      (p = cat_parentId r \<or> p = None \<or> p = Some i)" for r i
    by (rule exI [of _ "cat_parentId r"], rule exI [of _ "cat_updatedAt r"]) simp
  then show ?thesis
    unfolding children_sync_def mem_env_def by (auto intro!: exI [of _ "\<lambda>c. c"])
qed

lemma mem_redis_env [simp]: "redis mem_env = mem_redis"
  by (simp add: mem_env_def)

interpretation categories: tenant_service "plain_category_step mem_env" w_categories cat_tenantId
  "category_inv mem_env"
  by (rule category_service [where glob = mem_glob and rank = length])
    (simp_all add: mem_cache.redis_server_axioms)

section \<open>Properties\<close>

text \<open>
  C14: Through any history of category calls of any tenants, successful or failing, with any cache
  behaviour Redis allows: no tenant has two live categories of one slug, every category's parent
  is a category of the same tenant, every cache entry under a tenant's key holds that tenant's
  categories only (and the one its key names), and the categories of a tenant that made no call
  are exactly what they were.
\<close>

theorem category_history:
  assumes "repository category_decl (categoryOrm E)" and "redis_server (redis E) glob rank"
    and "children_sync (sync_children E)"
    and "history (plain_category_step E) Ts w w'" and "category_inv E w"
  shows "live_key_unique category_decl (\<lambda>c. (cat_tenantId c, cat_slug c)) (w_categories w') \<and>
    (\<forall>c \<in> set (w_categories w'). \<forall>p. cat_parentId c = Some p \<longrightarrow>
      (\<exists>d \<in> set (w_categories w'). cat_id d = p \<and> cat_tenantId d = cat_tenantId c)) \<and>
    (\<forall>T i v ttl. plain_tenant T \<longrightarrow> map_of (w_redis w') (category_key T i) = Some (v, ttl) \<longrightarrow>
      (\<exists>e. v = CachedCategory e \<and> ce_id e = i \<and> cat_tenantId (ce_row e) = T)) \<and>
    (T \<notin> set Ts \<longrightarrow> {#c \<in># mset (w_categories w'). cat_tenantId c = T#} =
      {#c \<in># mset (w_categories w). cat_tenantId c = T#})"
proof -
  note service = category_service [OF assms(1-3)]
  have "category_inv E w'" using tenant_service.history_inv [OF service assms(4,5)] .
  then have ok: "live_key_unique category_decl slug_key (w_categories w')" "parents_ok (w_categories w')"
    "entries_ok (category_entry E (places (w_categories w'))) (w_redis w')"
    by (simp_all add: category_inv_def category_table_ok_def table_inv_def)
  from ok(3) have "\<forall>T i v ttl. plain_tenant T \<longrightarrow> map_of (w_redis w') (category_key T i) = Some (v, ttl) \<longrightarrow>
      (\<exists>e. v = CachedCategory e \<and> ce_id e = i \<and> cat_tenantId (ce_row e) = T)"
    unfolding entries_ok_def category_entry_def known_category_def by blast
  moreover have "\<forall>c \<in> set (w_categories w'). \<forall>p. cat_parentId c = Some p \<longrightarrow>
      (\<exists>d \<in> set (w_categories w'). cat_id d = p \<and> cat_tenantId d = cat_tenantId c)"
    using ok(2) by (fastforce simp: parents_ok_def places_def)
  ultimately show ?thesis
    using ok(1) tenant_service.history_tenant [OF service assms(4,5), of T]
    by (simp add: slug_key_def [abs_def])
qed

definition sample_category_dto :: "jstring \<Rightarrow> uuid option \<Rightarrow> create_category_dto" where
  "sample_category_dto name parent = \<lparr>cc_name = name, cc_slug = None, cc_parentId = parent\<rparr>"

definition sample_created :: "uuid \<Rightarrow> jstring \<Rightarrow> uuid option \<Rightarrow> world \<Rightarrow> world" where
  "sample_created T name parent w =
     snd (category_create mem_env (sample_context T) T (sample_category_dto name parent) w)"

lemma created_step:
  "plain_tenant T \<Longrightarrow> plain_category_step mem_env T w (sample_created T name parent w)"
  unfolding plain_category_step_def sample_created_def
  by (auto intro!: category_step.cat_create prod.collapse [symmetric])

lemma empty_category_inv [simp]: "category_inv E empty_world"
  by (simp add: category_inv_def empty_world_def category_table_ok_def parents_ok_def entries_ok_def)

lemma category_history_witness:
  "live_key_unique category_decl (\<lambda>c. (cat_tenantId c, cat_slug c))
     (w_categories (sample_created (js ''B'') (js ''Shoes'') None
       (sample_created (js ''A'') (js ''Shoes'') None empty_world))) \<and>
   map cat_slug (w_categories (sample_created (js ''B'') (js ''Shoes'') None
     (sample_created (js ''A'') (js ''Shoes'') None empty_world))) = [js ''shoes'', js ''shoes'']"
proof
  let ?w = "sample_created (js ''A'') (js ''Shoes'') None empty_world"
  let ?last = "sample_created (js ''B'') (js ''Shoes'') None ?w"
  have "history (plain_category_step mem_env) [js ''A'', js ''B''] empty_world ?last"
    by (auto intro!: exI [of _ ?w] created_step simp: plain_tenant_def js_def)
  from category_history [OF _ _ _ this] mem_cache.redis_server_axioms
  show "live_key_unique category_decl (\<lambda>c. (cat_tenantId c, cat_slug c)) (w_categories ?last)" by simp
qed code_simp

definition slug_in_use :: "uuid \<Rightarrow> jstring \<Rightarrow> world \<Rightarrow> bool" where
  "slug_in_use T slug w \<longleftrightarrow>
     (\<exists>c \<in> set (w_categories w). cat_tenantId c = T \<and> cat_slug c = slug \<and> cat_deletedAt c = None)"

definition live_category :: "uuid \<Rightarrow> uuid \<Rightarrow> world \<Rightarrow> bool" where
  "live_category T i w \<longleftrightarrow>
     (\<exists>c \<in> set (w_categories w). cat_id c = i \<and> cat_tenantId c = T \<and> cat_deletedAt c = None)"

definition parent_not_found :: "uuid \<Rightarrow> exn" where
  "parent_not_found p = NotFoundException (js ''Parent category with ID \"'' @ p @ js ''\" not found'')"

lemma assertSlugUnique_run:
  assumes "repository category_decl (categoryOrm E)"
  shows "assertSlugUnique E T slug None w =
    (if slug_in_use T slug w then Inl (ConflictException category_slug_taken) else Inr (), w)"
  using repository.throw_if_exists_run [OF assms, of "categoryRepo E"]
  by (auto simp: assertSlugUnique_def truthy_def opt_filter_def slug_in_use_def)

lemma assertParentExists_run:
  assumes db: "repository category_decl (categoryOrm E)" and run: "assertParentExists E T i w = (r, w')"
  shows "w' = w \<and> (if live_category T i w then \<exists>p. r = Inr p \<and> cat_id p = i
    else r = Inl (parent_not_found i))"
proof (cases r)
  case (Inl e)
  from repository.find_or_throw_Inl [OF db, of "categoryRepo E"] run Inl show ?thesis
    by (fastforce simp: assertParentExists_def live_category_def parent_not_found_def)
next
  case (Inr p)
  from repository.find_or_throw_Inr [OF db, of "categoryRepo E"] run Inr show ?thesis
    by (fastforce simp: assertParentExists_def live_category_def)
qed

lemma find_parent_run:
  assumes db: "repository category_decl (categoryOrm E)"
    and run: "(case truthy parentId of None \<Rightarrow> ret None
      | Some p \<Rightarrow> andThen (assertParentExists E T p) (\<lambda>p. ret (Some p))) w = (r, w')"
  shows "w' = w \<and> (case truthy parentId of
      None \<Rightarrow> r = Inr None
    | Some p \<Rightarrow> (if live_category T p w then \<exists>c. r = Inr (Some c) \<and> cat_id c = p
        else r = Inl (parent_not_found p)))"
proof (cases "truthy parentId")
  case None
  with run show ?thesis by (simp add: ret_eq)
next
  case (Some p)
  with run have "andThen (assertParentExists E T p) (\<lambda>p. ret (Some p)) w = (r, w')" by simp
  then show ?thesis
    by (cases rule: andThenE) (auto simp: Some ret_eq dest!: assertParentExists_run [OF db] split: if_splits)
qed

lemma saved_category:
  assumes db: "repository category_decl (categoryOrm E)"
    and run: "save_category E (new_category T name slug parent) w = (Inr e, w')"
  shows "mset (w_categories w') = add_mset (ce_row e) (mset (w_categories w)) \<and>
    cat_tenantId (ce_row e) = T \<and> cat_name (ce_row e) = name \<and> cat_slug (ce_row e) = slug \<and>
    cat_parentId (ce_row e) = map_option cat_id parent \<and> cat_deletedAt (ce_row e) = None"
proof -
  let ?row = "stored_row (new_category T name slug parent)"
  from run obtain t where s: "o_save (categoryOrm E) ?row (w_categories w) = Inr (ce_row e, t)"
    and "w_categories w' = t"
    by (auto simp: save_category_def new_category_def split: sum.splits prod.splits)
  moreover have "cat_id ?row = no_id \<and> cat_tenantId ?row = T \<and> cat_name ?row = name \<and> cat_slug ?row = slug \<and>
      cat_parentId ?row = map_option cat_id parent \<and> cat_deletedAt ?row = None"
    by (auto simp: stored_row_def new_category_def split: option.splits)
  ultimately show ?thesis
    using repository.save_insert [OF db s] category_saved [OF db s] by simp
qed

text \<open>
  Creating a category, before the row is written: when a live category of the tenant has the
  slug the answer is the 409 of the slug; otherwise, when a parent is named that is no live
  category of the tenant, a 404 names it; neither changes anything. When the call succeeds, the
  created category is a new row of the tenant, live, under the slug computed from the request
  and below the parent named, and every other category is as before.
\<close>

theorem category_create_spec:
  assumes db: "repository category_decl (categoryOrm E)" and R: "redis_server (redis E) glob rank"
    and run: "category_create E ctx T dto w = (r, w')"
  shows "(slug_in_use T (category_slug E dto) w \<longrightarrow>
      r = Inl (ConflictException category_slug_taken) \<and> w' = w) \<and>
    (\<not> slug_in_use T (category_slug E dto) w \<and> truthy (cc_parentId dto) = Some p \<and> \<not> live_category T p w \<longrightarrow>
      r = Inl (parent_not_found p) \<and> w' = w) \<and>
    (\<forall>e. r = Inr e \<longrightarrow> mset (w_categories w') = add_mset (ce_row e) (mset (w_categories w)) \<and>
      cat_tenantId (ce_row e) = T \<and> cat_name (ce_row e) = cc_name dto \<and>
      cat_slug (ce_row e) = category_slug E dto \<and> cat_parentId (ce_row e) = truthy (cc_parentId dto) \<and>
      cat_deletedAt (ce_row e) = None)"
  using run unfolding category_create_def Let_def
proof (cases rule: andThenE)
  case (err e)
  then show ?thesis by (auto simp: assertSlugUnique_run [OF db] split: if_splits)
next
  case (ok u w1)
  then have free: "\<not> slug_in_use T (category_slug E dto) w" "w1 = w"
    by (auto simp: assertSlugUnique_run [OF db] split: if_splits)
  from ok(2) [unfolded free(2)] show ?thesis
  proof (cases rule: andThenE)
    case (err e)
    with find_parent_run [OF db err(1)] free show ?thesis by (auto split: option.splits if_splits)
  next
    case (ok parent w2)
    from find_parent_run [OF db ok(1)] have parent: "w2 = w" "map_option cat_id parent = truthy (cc_parentId dto)"
      "truthy (cc_parentId dto) = Some p \<Longrightarrow> live_category T p w"
      by (auto split: option.splits if_splits)
    have "mset (w_categories w') = add_mset (ce_row e) (mset (w_categories w)) \<and>
        cat_tenantId (ce_row e) = T \<and> cat_name (ce_row e) = cc_name dto \<and>
        cat_slug (ce_row e) = category_slug E dto \<and> cat_parentId (ce_row e) = truthy (cc_parentId dto) \<and>
        cat_deletedAt (ce_row e) = None" if r: "r = Inr e" for e
    proof -
      from ok(2) [unfolded r parent(1) conflict_on_unique_Inr] show ?thesis
      proof (cases rule: andThenE)
        case tail: (ok x w3)
        have "keeps cache_only (andThen (audit_record ctx input) (\<lambda>_. andThen (invalidateCollections E T) (\<lambda>_. ret x)))"
          for input by (intro cache_frame.keeps_rules audit_cache_only invalidate_cache_only [OF R])
        from cache_only_rows [OF keepsD [OF this tail(2)]] tail(2) saved_category [OF db tail(1)]
        show ?thesis by (auto simp: flow_simps parent(2))
      qed simp
    qed
    with free parent(3) show ?thesis by auto
  qed
qed

lemma category_create_spec_witness:
  "fst (category_create mem_env (sample_context (js ''A'')) (js ''A'') (sample_category_dto (js ''Shoes'') None)
     (sample_created (js ''A'') (js ''Shoes'') None empty_world)) = Inl (ConflictException category_slug_taken)"
proof -
  let ?w = "sample_created (js ''A'') (js ''Shoes'') None empty_world"
  obtain r w' where run: "category_create mem_env (sample_context (js ''A'')) (js ''A'')
      (sample_category_dto (js ''Shoes'') None) ?w = (r, w')" by (metis surj_pair)
  have "slug_in_use (js ''A'') (category_slug mem_env (sample_category_dto (js ''Shoes'') None)) ?w"
    by code_simp
  with category_create_spec [OF _ _ run, of mem_glob length] mem_cache.redis_server_axioms
  show ?thesis by (simp add: run)
qed

text \<open>
  C21: Building the tree, when it is not cached: a tenant without live categories gets a 404;
  otherwise every live category of the tenant is returned, as a root without children, whatever
  its parent: the query loads no parent relation, so the tree is always flat.
\<close>

theorem findTree_flat:
  assumes db: "repository category_decl (categoryOrm E)" and inv: "category_inv E w"
    and miss: "rd_get (redis E) (categoriesTree_key T) (w_redis w) = Inr None"
    and run: "findTree E T w = (r, w')"
  shows "w_categories w' = w_categories w \<and>
    (if \<exists>c \<in> set (w_categories w). cat_tenantId c = T \<and> cat_deletedAt c = None
     then \<exists>tree. r = Inr tree \<and> (\<forall>n \<in> set tree. node_children n = []) \<and>
       image_mset (\<lambda>n. ce_row (node_category n)) (mset tree) =
         {#c \<in># mset (w_categories w). cat_tenantId c = T \<and> cat_deletedAt c = None#}
     else r = Inl (NotFoundException (js ''There is no category for tenant '' @ T)))"
proof -
  let ?rows = "o_order (categoryOrm E) [(js ''name'', js ''ASC'')]
    (o_select (categoryOrm E) (\<lambda>c. cat_tenantId c = T \<and> cat_deletedAt c = None) (w_categories w))"
  let ?tree = "map (\<lambda>c. CategoryNode (bare_category c) []) ?rows"
  have ok: "category_table_ok (w_categories w)" using inv by (simp add: category_inv_def)
  have rows: "mset ?rows = {#c \<in># mset (w_categories w). cat_tenantId c = T \<and> cat_deletedAt c = None#}"
    by (simp add: repository.order_rows [OF db] repository.select_rows [OF db] conj_ac cong: conj_cong)
  from arg_cong [where f = set_mset, OF this] have none: "?rows = [] \<longleftrightarrow>
      \<not> (\<exists>c \<in> set (w_categories w). cat_tenantId c = T \<and> cat_deletedAt c = None)"
    by (subst set_empty [symmetric]) auto
  have get: "cache_get (redis E) (categoriesTree_key T) w = (Inr None, w)"
    by (simp add: cache_get_def miss)
  have run: "(if ?rows = [] then throw (NotFoundException (js ''There is no category for tenant '' @ T))
      else andThen (cache_set (redis E) (categoriesTree_key T) (CachedTree ?tree) CACHE_TTL_CATEGORY)
        (\<lambda>_. ret ?tree)) w = (r, w')"
    using run [unfolded findTree_def Let_def andThen_ok [where m = "cache_get (redis E) (categoriesTree_key T)" and w = w, OF get]
        option.case find_many_def andThen_gets repo_simps findTree_tree [OF db ok]] .
  show ?thesis
  proof (cases "?rows = []")
    case True
    with run none show ?thesis by (simp add: throw_eq)
  next
    case False
    with run have "r = Inr ?tree" "w_categories w' = w_categories w"
      by (auto simp: andThen_def cache_set_def ret_def split: prod.splits sum.splits)
    moreover have "image_mset (\<lambda>n. ce_row (node_category n)) (mset ?tree) = mset ?rows"
      by (simp add: image_mset.compositionality comp_def bare_category_def)
    ultimately show ?thesis using False none rows by auto
  qed
qed

text \<open>A parent with a child, and the child's parent in turn below the child.\<close>

definition moved_below :: "uuid \<Rightarrow> uuid \<Rightarrow> world \<Rightarrow> world" where
  "moved_below i parent w = snd (category_update mem_env (sample_context (js ''A'')) (js ''A'') i
     \<lparr>uc_name = None, uc_slug = None, uc_parentId = Some (Some parent)\<rparr> w)"

definition nested :: world where
  "nested = (let w = sample_created (js ''A'') (js ''a'') None empty_world
     in sample_created (js ''A'') (js ''b'') (Some (cat_id (hd (w_categories w)))) w)"

definition looped :: world where
  "looped = moved_below (cat_id (w_categories nested ! 1)) (cat_id (w_categories nested ! 0)) nested"

lemma findTree_flat_witness:
  "\<exists>tree. fst (findTree mem_env (js ''A'') nested) = Inr tree \<and> list_all (\<lambda>n. node_children n = []) tree \<and>
     cat_parentId (hd (w_categories nested)) \<noteq> None"
proof -
  obtain r w' where run: "findTree mem_env (js ''A'') nested = (r, w')" by (metis surj_pair)
  have "history (plain_category_step mem_env) [js ''A'', js ''A''] empty_world nested"
    unfolding nested_def Let_def by (auto intro!: created_step exI simp: plain_tenant_def js_def)
  then have inv: "category_inv mem_env nested"
    using categories.history_inv empty_category_inv by blast
  have "rd_get (redis mem_env) (categoriesTree_key (js ''A'')) (w_redis nested) = Inr None" by code_simp
  from findTree_flat [OF _ inv this run] have "r = Inr tree \<longrightarrow> (\<forall>n \<in> set tree. node_children n = [])" for tree
    by (auto split: if_splits)
  moreover have "\<not> isl (fst (findTree mem_env (js ''A'') nested)) \<and> cat_parentId (hd (w_categories nested)) \<noteq> None"
    by code_simp
  ultimately show ?thesis using run by (cases r) (auto simp: list_all_iff)
qed

text \<open>
  Removing a category that has a live child is refused and leaves every category as it was;
  after a successful removal there is no live category of the tenant under that identifier, no
  live category below it, and every other live category is still there.
\<close>

theorem category_remove_spec:
  assumes db: "repository category_decl (categoryOrm E)" and R: "redis_server (redis E) glob rank"
    and T: "plain_tenant T" and inv: "category_inv E w"
    and run: "category_remove E ctx T i w = (r, w')"
  shows "((\<exists>c \<in> set (w_categories w). cat_tenantId c = T \<and> cat_parentId c = Some i \<and> cat_deletedAt c = None) \<longrightarrow>
      (\<exists>e. r = Inl e) \<and> w_categories w' = w_categories w) \<and>
    (r = Inr () \<longrightarrow> {c \<in> set (w_categories w'). cat_deletedAt c = None} =
        {c \<in> set (w_categories w). cat_deletedAt c = None \<and> cat_id c \<noteq> i} \<and>
      \<not> live_category T i w' \<and>
      (\<forall>c \<in> set (w_categories w'). cat_deletedAt c = None \<longrightarrow> cat_tenantId c = T \<longrightarrow> cat_parentId c \<noteq> Some i))"
  using run unfolding category_remove_def
proof (cases rule: andThenE)
  case (err e)
  from category_findOne_run [OF db R T inv err(1)] err(2) show ?thesis by simp
next
  case (ok target w1)
  from category_findOne_run [OF db R T inv ok(1)] have w1: "w_categories w1 = w_categories w"
    and i: "ce_id target = i" by (auto simp: known_category_def)
  let ?kids = "o_select (categoryOrm E) (\<lambda>c. cat_parentId c = Some i \<and> cat_tenantId c = T) (w_categories w)"
  have kids: "?kids = [] \<longleftrightarrow> (\<forall>c \<in> set (w_categories w). cat_tenantId c = T \<longrightarrow> cat_parentId c = Some i \<longrightarrow>
      cat_deletedAt c \<noteq> None)"
    using repository.select_Nil [OF db] by auto
  note rest = ok(2) [unfolded count_rows_def andThen_gets repo_simps w1]
  show ?thesis
  proof (cases "?kids = []")
    case False
    with rest have "(\<exists>e. r = Inl e) \<and> w' = w1"
      by (auto simp: andThen_ensure)
    with w1 show ?thesis by auto
  next
    case True
    from rest True have "andThen (soft_remove (categoryRepo E) (\<lambda>c. cat_id c = i)) (\<lambda>_.
        andThen (audit_record ctx (audit_input DELETE ET_CATEGORY i
          (Some (JObj [(''name'', JStr (cat_name (ce_row target))), (''slug'', JStr (cat_slug (ce_row target)))])) None))
        (\<lambda>_. andThen (cache_del (redis E) (category_key T i)) (\<lambda>_. invalidateCollections E T))) w1 = (r, w')"
      by (simp add: andThen_ensure i)
    then show ?thesis
    proof (cases rule: andThenE)
      case (err e)
      with True kids w1 show ?thesis by (simp add: soft_remove_Inl)
    next
      case (ok n w2)
      then obtain t where s: "o_soft_remove (categoryOrm E) (\<lambda>c. cat_id c = i) (w_categories w) = Inr (n, t)"
        and w2: "w_categories w2 = t"
        by (auto simp: soft_remove_Inr w1 categoryRepo_def)
      have "keeps cache_only (andThen (audit_record ctx input)
          (\<lambda>_. andThen (cache_del (redis E) (category_key T i)) (\<lambda>_. invalidateCollections E T)))" for input
        by (intro cache_frame.keeps_rules audit_cache_only invalidate_cache_only [OF R] cache_only_del [OF R])
      from cache_only_rows [OF keepsD [OF this ok(2)]] w2 have w': "w_categories w' = t" by simp
      have "{c \<in> set t. cat_deletedAt c = None} = {c \<in> set (w_categories w). cat_deletedAt c = None \<and> cat_id c \<noteq> i}"
        using repository.remove_live [OF db s] by simp
      with True kids w' show ?thesis by (auto simp: live_category_def)
    qed
  qed
qed

lemma category_remove_spec_witness:
  "\<exists>e w'. category_remove mem_env (sample_context (js ''A'')) (js ''A'') (cat_id (w_categories nested ! 1)) nested = (Inl e, w') \<and>
     w_categories w' = w_categories nested"
proof -
  let ?i = "cat_id (w_categories nested ! 1)"
  obtain r w' where run: "category_remove mem_env (sample_context (js ''A'')) (js ''A'') ?i nested = (r, w')"
    by (metis surj_pair)
  have kid: "list_ex (\<lambda>c. cat_tenantId c = js ''A'' \<and> cat_parentId c = Some ?i \<and> cat_deletedAt c = None)
      (w_categories nested)" by code_simp
  have "history (plain_category_step mem_env) [js ''A'', js ''A''] empty_world nested"
    unfolding nested_def Let_def by (auto intro!: created_step exI simp: plain_tenant_def js_def)
  then have inv: "category_inv mem_env nested"
    using categories.history_inv empty_category_inv by blast
  from category_remove_spec [OF _ _ _ inv run, of mem_glob length] mem_cache.redis_server_axioms kid run
  show ?thesis by (simp add: list_ex_iff plain_tenant_def js_def)
qed


end
