(* ===== verification/Variant.thy ===== *)
theory Variant
  imports TenantService
begin

text \<open>
  Product variants (\<open>src/catalog/variant/variant.service.ts\<close>): create, list, find, update,
  remove, and \<open>findOneById\<close>, which the inventory uses. A SKU is unique per tenant, by a query
  before the write and by the table's \<open>@Unique(['tenant', 'sku'])\<close>.
\<close>

section \<open>The service\<close>

record create_variant_dto =
  cv_sku :: jstring
  cv_price :: rat
  cv_attributes :: "(jstring \<times> jstring) list option"

record update_variant_dto =
  uv_sku :: "jstring option"
  uv_price :: "rat option"
  uv_attributes :: "(jstring \<times> jstring) list option"

record variant_query =
  vq_page :: "nat option"
  vq_limit :: "nat option"
  vq_search :: "jstring option"
  vq_minPrice :: "rat option"
  vq_maxPrice :: "rat option"
  vq_sortBy :: jstring
  vq_sortOrder :: jstring

definition variant_sku_conflict :: jstring where
  "variant_sku_conflict = js ''The provided SKU must be unique per-tenant''"

definition variant_assertSkuUniqueness ::
  "env \<Rightarrow> uuid \<Rightarrow> jstring \<Rightarrow> uuid option \<Rightarrow> (world, unit) act" where
  "variant_assertSkuUniqueness E tenantId sku excludeId =
     throw_if_exists (variantRepo E) (\<lambda>v. v_tenantId v = tenantId \<and> v_sku v = sku \<and>
       v_deletedAt v = None \<and> opt_filter (truthy excludeId) (\<lambda>i. v_id v \<noteq> i))
     (ConflictException (js ''The provided SKU already exists''))"

text \<open>The product a variant belongs to must be one of the tenant's live products.\<close>

definition find_product_of ::
  "env \<Rightarrow> uuid \<Rightarrow> uuid \<Rightarrow> (world, product) act" where
  "find_product_of E tenantId productId =
     find_or_throw (productRepo E)
       (\<lambda>p. p_id p = productId \<and> p_tenantId p = tenantId \<and> p_deletedAt p = None)
     (NotFoundException (js ''There is no product in this tenant with this ID: '' @ productId))"

definition new_variant :: "uuid \<Rightarrow> uuid \<Rightarrow> create_variant_dto \<Rightarrow> variant" where
  "new_variant tenantId productId dto = \<lparr> v_id = no_id, v_tenantId = tenantId, v_productId = productId,
     v_sku = cv_sku dto, v_price = cv_price dto, v_attributes = or_default (cv_attributes dto) [],
     v_createdAt = 0, v_updatedAt = 0, v_deletedAt = None \<rparr>"

definition variant_create ::
  "env \<Rightarrow> audit_context option \<Rightarrow> uuid \<Rightarrow> uuid \<Rightarrow> create_variant_dto \<Rightarrow> (world, variant) act" where
  "variant_create E ctx tenantId productId dto =
     andThen (find_product_of E tenantId productId) (\<lambda>_.
     andThen (variant_assertSkuUniqueness E tenantId (cv_sku dto) None) (\<lambda>_.
     let newVariant = new_variant tenantId productId dto
     in conflict_on_unique variant_sku_conflict (
          save_and_record (variantRepo E) ctx (\<lambda>saved. audit_input CREATE ET_PRODUCT_VARIANT (v_id saved) None
            (Some (JObj [(''sku'', JStr (v_sku saved)), (''price'', JNum (v_price saved)),
              (''productId'', JStr productId)]))) newVariant)))"

definition variant_findOneById :: "env \<Rightarrow> uuid \<Rightarrow> uuid \<Rightarrow> (world, variant) act" where
  "variant_findOneById E tenantId variantId =
     find_or_throw (variantRepo E)
       (\<lambda>v. v_id v = variantId \<and> v_tenantId v = tenantId \<and> v_deletedAt v = None)
     (NotFoundException (js ''There is no variant with this Id in tenant '' @ tenantId))"

definition variant_sortColumns :: "jstring \<Rightarrow> jstring option" where
  "variant_sortColumns sortBy =
     (if sortBy = js ''sku'' then Some (js ''v.sku'')
      else if sortBy = js ''price'' then Some (js ''v.price'')
      else if sortBy = js ''created_at'' then Some (js ''v.created_at'')
      else if sortBy = js ''updated_at'' then Some (js ''v.updated_at'')
      else None)"

definition variant_matches :: "env \<Rightarrow> uuid \<Rightarrow> uuid \<Rightarrow> variant_query \<Rightarrow> variant \<Rightarrow> bool" where
  "variant_matches E tenantId productId query v \<longleftrightarrow>
     v_tenantId v = tenantId \<and> v_productId v = productId \<and> v_deletedAt v = None \<and>
     opt_filter (truthy (vq_search query)) (\<lambda>t. ilike E (v_sku v) (search_pattern t)) \<and>
     opt_filter (vq_minPrice query) (\<lambda>minPrice. v_price v \<ge> minPrice) \<and>
     opt_filter (vq_maxPrice query) (\<lambda>maxPrice. v_price v \<le> maxPrice)"

definition variant_findAll ::
  "env \<Rightarrow> uuid \<Rightarrow> uuid \<Rightarrow> variant_query \<Rightarrow> (world, variant paginated) act" where
  "variant_findAll E tenantId productId query =
     andThen (find_product_of E tenantId productId) (\<lambda>_.
     let page = or_default (vq_page query) 1;
         limit = or_default (vq_limit query) 10;
         skip = (page - 1) * limit
     in andThen (get_many_and_count (variantRepo E) (variant_matches E tenantId productId query)
          (order_clause (variant_sortColumns (vq_sortBy query)) (vq_sortOrder query))
          (skip_take skip limit))
        (\<lambda>(data, total_rows).
        ret (paginated_response
          (\<lambda>p. page_link (js ''/api/v1/products/'' @ productId @ js ''/variants'') p limit)
          data total_rows (pages_or_one total_rows limit) page limit)))"

definition variant_findOne :: "env \<Rightarrow> uuid \<Rightarrow> uuid \<Rightarrow> uuid \<Rightarrow> (world, variant) act" where
  "variant_findOne E tenantId productId variantId =
     find_or_throw (variantRepo E)
       (\<lambda>v. v_id v = variantId \<and> v_tenantId v = tenantId \<and> v_productId v = productId \<and>
          v_deletedAt v = None)
     (NotFoundException (js ''There is no product variant with ID: '' @ variantId))"

definition variant_values :: "variant \<Rightarrow> jval" where
  "variant_values v = JObj [(''sku'', JStr (v_sku v)), (''price'', JNum (v_price v))]"

definition variant_resku ::
  "env \<Rightarrow> uuid \<Rightarrow> uuid \<Rightarrow> update_variant_dto \<Rightarrow> variant \<Rightarrow> (world, variant) act" where
  "variant_resku E tenantId variantId dto variant =
     (case truthy (uv_sku dto) of
        None \<Rightarrow> ret variant
      | Some sku \<Rightarrow>
          if sku \<noteq> v_sku variant
          then andThen (variant_assertSkuUniqueness E tenantId sku (Some variantId))
                 (\<lambda>_. ret (variant\<lparr>v_sku := sku\<rparr>))
          else ret variant)"

definition variant_patch :: "update_variant_dto \<Rightarrow> variant \<Rightarrow> variant" where
  "variant_patch dto variant =
     (let variant = (case uv_price dto of None \<Rightarrow> variant | Some price \<Rightarrow> variant\<lparr>v_price := price\<rparr>)
      in (case uv_attributes dto of None \<Rightarrow> variant
            | Some attributes \<Rightarrow> variant\<lparr>v_attributes := attributes\<rparr>))"

definition variant_update ::
  "env \<Rightarrow> audit_context option \<Rightarrow> uuid \<Rightarrow> uuid \<Rightarrow> uuid \<Rightarrow> update_variant_dto \<Rightarrow> (world, variant) act" where
  "variant_update E ctx tenantId productId variantId dto =
     andThen (variant_findOne E tenantId productId variantId) (\<lambda>variant.
     let oldValues = variant_values variant in
     andThen (variant_resku E tenantId variantId dto variant) (\<lambda>variant.
     conflict_on_unique variant_sku_conflict (
       save_and_record (variantRepo E) ctx (\<lambda>saved. audit_input UPDATE ET_PRODUCT_VARIANT (v_id saved)
         (Some oldValues) (Some (variant_values saved))) (variant_patch dto variant))))"

definition variant_remove ::
  "env \<Rightarrow> audit_context option \<Rightarrow> uuid \<Rightarrow> uuid \<Rightarrow> uuid \<Rightarrow> (world, unit) act" where
  "variant_remove E ctx tenantId productId variantId =
     andThen (variant_findOne E tenantId productId variantId) (\<lambda>variant.
     let oldValues = variant_values variant in
     remove_and_record (variantRepo E) ctx
       (audit_input DELETE ET_PRODUCT_VARIANT (v_id variant) (Some oldValues) None)
       (\<lambda>v. v_id v = v_id variant))"

section \<open>The contract of a tenant service\<close>

definition variant_key :: "variant \<Rightarrow> uuid \<times> jstring" where
  "variant_key v = (v_tenantId v, v_sku v)"

lemma variant_fields [simp]:
  "e_id variant_entity = v_id" "e_alive variant_entity x \<longleftrightarrow> v_deletedAt x = None"
  by (simp_all add: variant_entity_def)

lemma variant_table:
  assumes "repository variant_entity db"
  shows "tenant_table variant_entity db variant_key"
proof -
  have "variant_key x = variant_key y"
    if "e_cols variant_entity x = e_cols variant_entity (e_set_id variant_entity i y)" for x y i
    using arg_cong [where f = v_sku, OF that] arg_cong [where f = v_tenantId, OF that]
    by (simp add: variant_entity_def variant_key_def)
  moreover have "fst (variant_key y) = fst (variant_key x)" if "killed variant_entity x y" for x y
  proof -
    from that have "e_cols variant_entity (e_kill variant_entity y) =
        e_cols variant_entity (e_kill variant_entity x)" by (simp add: killed_def)
    from arg_cong [where f = v_tenantId, OF this] show ?thesis
      by (simp add: variant_entity_def variant_key_def)
  qed
  ultimately show ?thesis using assms
    by (intro tenant_table.intro keyed_repository.intro keyed_repository_axioms.intro
        tenant_table_axioms.intro) blast+
qed

lemma variant_assertSkuUniqueness_free:
  assumes db: "repository variant_entity (variantOrm E)"
    and run: "variant_assertSkuUniqueness E T sku excl w = (Inr u, w')"
  shows "w' = w \<and> key_free variant_entity variant_key (T, sku) (or_default excl no_id) (w_variants w)"
  using run repository.throw_if_exists_run [OF db, of "variantRepo E" _ _ w]
  by (fastforce simp: variant_assertSkuUniqueness_def key_free_def variant_key_def
      truthy_def opt_filter_def or_default_def no_id_def split: if_splits option.splits)

lemma variant_findOneById_Inr:
  assumes db: "repository variant_entity (variantOrm E)"
    and run: "variant_findOneById E T i w = (Inr x, w')"
  shows "w' = w \<and> x \<in> set (w_variants w) \<and> v_id x = i \<and> v_tenantId x = T \<and> v_deletedAt x = None"
  using repository.find_or_throw_Inr [OF db run [unfolded variant_findOneById_def]] by simp

lemma variant_findOneById_state: "variant_findOneById E T i w = (r, w') \<Longrightarrow> w' = w"
  unfolding variant_findOneById_def by (rule find_or_throw_state)

lemma variant_findOne_Inr:
  assumes db: "repository variant_entity (variantOrm E)"
    and run: "variant_findOne E T p i w = (Inr x, w')"
  shows "w' = w \<and> x \<in> set (w_variants w) \<and> v_id x = i \<and> v_tenantId x = T \<and> v_productId x = p \<and>
    v_deletedAt x = None"
  using repository.find_or_throw_Inr [OF db run [unfolded variant_findOne_def]] by simp

lemma variant_patch_simps [simp]:
  "v_id (variant_patch dto v) = v_id v" "v_tenantId (variant_patch dto v) = v_tenantId v"
  "v_sku (variant_patch dto v) = v_sku v"
  by (auto simp: variant_patch_def Let_def split: option.splits)

lemma variant_resku_Inr:
  assumes db: "repository variant_entity (variantOrm E)"
    and run: "variant_resku E T i dto x w = (Inr y, w')" and T: "v_tenantId x = T"
  shows "w' = w \<and> v_id y = v_id x \<and> v_tenantId y = T \<and>
    (variant_key y = variant_key x \<or> key_free variant_entity variant_key (variant_key y) i (w_variants w))"
  using run T variant_assertSkuUniqueness_free [OF db]
  by (fastforce simp: variant_resku_def flow_simps variant_key_def or_default_def
      split: option.splits if_splits)

lemma variant_resku_state: "variant_resku E T i dto x w = (r, w') \<Longrightarrow> w' = w"
  by (auto simp: variant_resku_def variant_assertSkuUniqueness_def ret_eq elim!: andThenE
      dest: throw_if_exists_state split: option.splits if_splits)

inductive variant_step :: "env \<Rightarrow> uuid \<Rightarrow> world \<Rightarrow> world \<Rightarrow> bool" for E :: env where
  var_create: "variant_create E ctx T p dto w = (r, w') \<Longrightarrow> variant_step E T w w'"
| var_findAll: "variant_findAll E T p query w = (r', w') \<Longrightarrow> variant_step E T w w'"
| var_findOne: "variant_findOne E T p i w = (r, w') \<Longrightarrow> variant_step E T w w'"
| var_findOneById: "variant_findOneById E T i w = (r, w') \<Longrightarrow> variant_step E T w w'"
| var_update: "variant_update E ctx T p i dto' w = (r, w') \<Longrightarrow> variant_step E T w w'"
| var_remove: "variant_remove E ctx T p i w = (r'', w') \<Longrightarrow> variant_step E T w w'"

lemma variant_create_writes:
  assumes db: "repository variant_entity (variantOrm E)"
    and run: "variant_create E ctx T p dto w = (r, w')"
  shows "tenant_write variant_entity (variantOrm E) variant_key T (w_variants w) (w_variants w')"
  using run unfolding variant_create_def Let_def
proof (cases rule: andThenE)
  case (err e)
  then show ?thesis by (auto simp: find_product_of_def dest: find_or_throw_state intro: write_nothing)
next
  case (ok prod w1)
  then have w1: "w1 = w" by (auto simp: find_product_of_def dest: find_or_throw_state)
  from ok(2) show ?thesis
  proof (cases rule: andThenE)
    case (err e)
    then show ?thesis using w1
      by (auto simp: variant_assertSkuUniqueness_def dest: throw_if_exists_state intro: write_nothing)
  next
    case (ok u w2)
    from variant_assertSkuUniqueness_free [OF db ok(1)] w1
      tenant_table.create_writes [OF variant_table [OF db] ok(2)] show ?thesis
      by (simp add: new_variant_def variant_key_def or_default_def)
  qed
qed

lemma variant_update_writes:
  assumes db: "repository variant_entity (variantOrm E)"
    and run: "variant_update E ctx T p i dto w = (r, w')"
  shows "tenant_write variant_entity (variantOrm E) variant_key T (w_variants w) (w_variants w')"
  using run unfolding variant_update_def Let_def
proof (cases rule: andThenE)
  case (err e)
  then show ?thesis by (auto simp: variant_findOne_def dest: find_or_throw_state intro: write_nothing)
next
  case (ok old w1)
  note old = variant_findOne_Inr [OF db ok(1)]
  from ok(2) show ?thesis
  proof (cases rule: andThenE)
    case (err e)
    then show ?thesis using old by (auto dest: variant_resku_state intro: write_nothing)
  next
    case (ok x w2)
    have "variant_key (variant_patch dto x) = variant_key x" by (simp add: variant_key_def)
    with variant_resku_Inr [OF db ok(1)] old
      tenant_table.update_writes [OF variant_table [OF db] ok(2), of old T]
    show ?thesis by (auto simp: variant_key_def)
  qed
qed

lemma variant_remove_writes:
  assumes db: "repository variant_entity (variantOrm E)"
    and run: "variant_remove E ctx T p i w = (r, w')"
  shows "tenant_write variant_entity (variantOrm E) variant_key T (w_variants w) (w_variants w')"
  using run unfolding variant_remove_def Let_def
proof (cases rule: andThenE)
  case (err e)
  then show ?thesis by (auto simp: variant_findOne_def dest: find_or_throw_state intro: write_nothing)
next
  case (ok old w1)
  with variant_findOne_Inr [OF db ok(1)]
    tenant_table.remove_writes [OF variant_table [OF db], of "variantRepo E" ctx _ i w r w' old T]
  show ?thesis by (simp add: variant_key_def)
qed

lemma variant_findAll_state: "variant_findAll E T p query w = (r, w') \<Longrightarrow> w' = w"
  by (cases r) (auto simp: variant_findAll_def find_product_of_def Let_def flow_simps inv_simps
      dest: find_or_throw_state)

lemma variant_step_writes:
  assumes db: "repository variant_entity (variantOrm E)" and "variant_step E T w w'"
  shows "tenant_write variant_entity (variantOrm E) variant_key T (w_variants w) (w_variants w')"
  using assms(2)
  by (cases rule: variant_step.cases)
    (auto simp: variant_findOne_def intro: variant_create_writes [OF db] variant_update_writes [OF db]
      variant_remove_writes [OF db] write_nothing
      dest!: variant_findAll_state variant_findOneById_state find_or_throw_state)

definition variant_inv :: "world \<Rightarrow> bool" where
  "variant_inv w \<longleftrightarrow> table_inv variant_entity variant_key (w_variants w)"

lemma variant_service:
  assumes "repository variant_entity (variantOrm E)"
  shows "tenant_service (variant_step E) w_variants v_tenantId variant_inv"
  using tenant_table.writes_service [OF variant_table [OF assms], of "variant_step E" w_variants]
    variant_step_writes [OF assms]
  by (simp add: variant_inv_def [abs_def] variant_key_def [abs_def])

interpretation variants: tenant_service "variant_step mem_env" w_variants v_tenantId variant_inv
  by (rule variant_service) simp

section \<open>Properties\<close>

text \<open>
  Through any history of variant calls of any tenants, successful or failing, primary keys
  stay distinct, no tenant has two live variants of one SKU, and the variants of a tenant that
  made no call are exactly what they were.
\<close>

theorem variant_history:
  assumes "repository variant_entity (variantOrm E)"
    and "history (variant_step E) Ts w w'" and "variant_inv w"
  shows "variant_inv w' \<and> (T \<notin> set Ts \<longrightarrow>
    {#x \<in># mset (w_variants w'). v_tenantId x = T#} = {#x \<in># mset (w_variants w). v_tenantId x = T#})"
  using assms tenant_service.history_inv [OF variant_service [OF assms(1)]]
    tenant_service.history_tenant [OF variant_service [OF assms(1)]] by blast

definition sample_product :: "uuid \<Rightarrow> product" where
  "sample_product T = \<lparr>p_id = js ''P'' @ T, p_tenantId = T, p_categoryId = js ''K'', p_name = js ''Shirt'',
     p_description = None, p_skuPrefix = js ''TSH'', p_isActive = True, p_createdAt = 0,
     p_updatedAt = 0, p_deletedAt = None\<rparr>"

definition sample_variant :: create_variant_dto where
  "sample_variant = \<lparr>cv_sku = js ''TSH-M'', cv_price = 10, cv_attributes = None\<rparr>"

definition sample_varied :: "uuid \<Rightarrow> world \<Rightarrow> world" where
  "sample_varied T w =
     snd (variant_create mem_env (sample_context T) T (js ''P'' @ T) sample_variant w)"

definition sample_catalog :: world where
  "sample_catalog = empty_world\<lparr>w_products := [sample_product (js ''A''), sample_product (js ''B'')]\<rparr>"

lemma variant_history_witness:
  "variant_inv (sample_varied (js ''B'') (sample_varied (js ''A'') sample_catalog)) \<and>
   map v_tenantId (w_variants (sample_varied (js ''B'') (sample_varied (js ''A'') sample_catalog))) =
     [js ''B'', js ''A'']"
proof
  let ?last = "sample_varied (js ''B'') (sample_varied (js ''A'') sample_catalog)"
  have "history (variant_step mem_env) [js ''A'', js ''B''] sample_catalog ?last"
    unfolding sample_varied_def
    by (auto intro!: variant_step.var_create prod.collapse [symmetric] exI)
  from variant_history [OF _ this, of "js ''C''"] show "variant_inv ?last"
    by (simp add: variant_inv_def sample_catalog_def empty_world_def)
  show "map v_tenantId (w_variants ?last) = [js ''B'', js ''A'']"
    by code_simp
qed

text \<open>
  A variant is only ever created under a live product of the calling tenant, with a SKU no
  live variant of the tenant has; the row stored has exactly the given SKU, price and attributes
  (none becomes the empty object).
\<close>

theorem variant_create_parent:
  assumes db: "repository variant_entity (variantOrm E)" "repository product_decl (productOrm E)"
    and inv: "variant_inv w" and run: "variant_create E ctx T p dto w = (Inr x, w')"
  shows "(\<exists>q \<in> set (w_products w). p_id q = p \<and> p_tenantId q = T \<and> p_deletedAt q = None) \<and>
    \<not> (\<exists>v \<in> set (w_variants w). variant_key v = (T, cv_sku dto) \<and> v_deletedAt v = None) \<and>
    x\<lparr>v_id := no_id, v_createdAt := 0, v_updatedAt := 0\<rparr> = new_variant T p dto \<and>
    mset (w_variants w') = add_mset x (mset (w_variants w)) \<and> w_products w' = w_products w"
proof -
  from run obtain q w1 where q: "find_product_of E T p w = (Inr q, w1)"
    and "andThen (variant_assertSkuUniqueness E T (cv_sku dto) None) (\<lambda>_.
      conflict_on_unique variant_sku_conflict (save_and_record (variantRepo E) ctx
        (\<lambda>saved. audit_input CREATE ET_PRODUCT_VARIANT (v_id saved) None
            (Some (JObj [(''sku'', JStr (v_sku saved)), (''price'', JNum (v_price saved)),
              (''productId'', JStr p)]))) (new_variant T p dto))) w1 = (Inr x, w')"
    unfolding variant_create_def Let_def andThen_Inr [of "find_product_of E T p"] by blast
  then obtain w2 where free: "variant_assertSkuUniqueness E T (cv_sku dto) None w1 = (Inr (), w2)"
    and s: "save_and_record (variantRepo E) ctx
        (\<lambda>saved. audit_input CREATE ET_PRODUCT_VARIANT (v_id saved) None
            (Some (JObj [(''sku'', JStr (v_sku saved)), (''price'', JNum (v_price saved)),
              (''productId'', JStr p)]))) (new_variant T p dto) w2 = (Inr x, w')"
    by (auto simp: andThen_Inr conflict_on_unique_Inr)
  note q = repository.find_or_throw_Inr [OF db(2) q [unfolded find_product_of_def]]
  note free = variant_assertSkuUniqueness_free [OF db(1) free]
  from s obtain t' where t: "o_save (variantOrm E) (new_variant T p dto) (w_variants w2) = Inr (x, t')"
    and w': "w_variants w' = t'" "w_products w' = w_products w2"
    by (auto simp: save_and_record_Inr emitted_def variantRepo_def)
  have new: "e_id variant_entity (new_variant T p dto) = no_id" by (simp add: new_variant_def)
  have "x\<lparr>v_createdAt := 0, v_updatedAt := 0\<rparr> = (new_variant T p dto)\<lparr>v_id := v_id x\<rparr>"
    using repository.save_cols [OF db(1) t] by (simp add: variant_entity_def new_variant_def)
  then have "x\<lparr>v_id := no_id, v_createdAt := 0, v_updatedAt := 0\<rparr> = new_variant T p dto"
    by (cases x) (simp add: new_variant_def)
  moreover have "\<forall>v \<in> set (w_variants w). v_id v \<noteq> no_id"
    using inv by (simp add: variant_inv_def table_inv_def ids_ok_def)
  ultimately show ?thesis
    using q free repository.save_insert [OF db(1) t new] w'
    by (auto simp: product_decl_def key_free_def or_default_def)
qed

lemma variant_create_parent_witness:
  "\<exists>q \<in> set (w_products sample_catalog). p_id q = js ''PA'' \<and> p_tenantId q = js ''A''"
proof -
  have "\<not> isl (fst (variant_create mem_env (sample_context (js ''A'')) (js ''A'') (js ''PA'')
      sample_variant sample_catalog))"
    by code_simp
  then obtain x w' where "variant_create mem_env (sample_context (js ''A'')) (js ''A'') (js ''PA'')
      sample_variant sample_catalog = (Inr x, w')" by (metis prod.collapse sum.collapse(2))
  from variant_create_parent [OF _ _ _ this] show ?thesis
    by (auto simp: variant_inv_def sample_catalog_def empty_world_def)
qed

end
