(* ===== verification/Catalog.thy ===== *)
theory Catalog
  imports Category Variant
begin

text \<open>
  What the three tables of the catalog (categories, products, variants) and their cache entries
  keep together: products are in categories of their tenant, variants belong to products of
  their tenant, no product changes its SKU prefix, and a cached product shows rows of its tenant
  only. This theory states the invariant and shows that the calls of the category and variant
  services keep it; \<open>Product\<close> adds the product service.
\<close>

section \<open>What a category call touches\<close>

definition category_keys :: "env \<Rightarrow> uuid \<Rightarrow> jstring set" where
  "category_keys E T = {k. (\<exists>i. k = category_key T i) \<or> (\<exists>q. k = categoriesList_key E T q) \<or>
     k = categoriesTree_key T}"

definition holds_value :: "redis_store \<Rightarrow> jstring \<Rightarrow> cached \<Rightarrow> bool" where
  "holds_value st k v \<longleftrightarrow> (\<exists>ttl. map_of st k = Some (v, ttl))"

lemma entries_ok_iff: "entries_ok \<Phi> st \<longleftrightarrow> (\<forall>k v. holds_value st k v \<longrightarrow> \<Phi> k v)"
  by (auto simp: entries_ok_def holds_value_def)

definition stores_only :: "jstring set \<Rightarrow> redis_store \<Rightarrow> redis_store \<Rightarrow> bool" where
  "stores_only K st st' \<longleftrightarrow> (\<forall>k v. holds_value st' k v \<longrightarrow> holds_value st k v \<or> k \<in> K)"

definition category_effect :: "env \<Rightarrow> uuid \<Rightarrow> world \<Rightarrow> world \<Rightarrow> bool" where
  "category_effect E T w w' \<longleftrightarrow> w_products w' = w_products w \<and> w_variants w' = w_variants w \<and>
     stores_only (category_keys E T) (w_redis w) (w_redis w')"

interpretation category_frame: frame "category_effect E T" for E T
proof
  show "category_effect E T w w" for w
    by (simp add: category_effect_def stores_only_def)
next
  fix u v w
  assume "category_effect E T u v" and "category_effect E T v w"
  then show "category_effect E T u w"
    unfolding category_effect_def stores_only_def by metis
qed

lemma cache_only_stores:
  assumes "cache_only w w'"
  shows "stores_only K (w_redis w) (w_redis w')"
  using cache_only_rows [OF assms] unfolding stores_only_def entries_ok_iff by blast

lemma cache_only_effect: "cache_only w w' \<Longrightarrow> category_effect E T w w'"
  using cache_only_rows [of w w'] cache_only_stores [of w w'] by (auto simp: category_effect_def)

lemma keeps_cache_only: "keeps cache_only m \<Longrightarrow> keeps (category_effect E T) m"
  by (simp add: keeps_def cache_only_effect)

lemma cache_set_stores:
  assumes "redis_server R glob rank" and "cache_set R k v ttl w = (r, w')" and "k \<in> K"
  shows "\<exists>st. w' = w\<lparr>w_redis := st\<rparr> \<and> stores_only K (w_redis w) st"
proof -
  from cache_service.set_run [OF redis_server.service [OF assms(1)], of k v ttl w] assms(2)
  obtain st where st: "w' = w\<lparr>w_redis := st\<rparr>" "\<forall>k'. map_of st k' \<noteq> None \<longrightarrow>
      map_of st k' = map_of (w_redis w) k' \<or> (k' = k \<and> map_of st k' = Some (v, ttl))" by auto
  have "stores_only K (w_redis w) st"
    unfolding stores_only_def
  proof (intro allI impI)
    fix k' v' assume "holds_value st k' v'"
    then show "holds_value (w_redis w) k' v' \<or> k' \<in> K"
      using st(2) [rule_format, of k'] assms(3)
      by (auto simp: holds_value_def dest!: sym [of "Some _"])
  qed
  with st(1) show ?thesis by blast
qed

lemma keeps_set:
  "redis_server R glob rank \<Longrightarrow> k \<in> category_keys E T \<Longrightarrow> keeps (category_effect E T) (cache_set R k v ttl)"
  by (rule keepsI) (auto simp: category_effect_def dest: cache_set_stores)

lemma keeps_get: "redis_server R glob rank \<Longrightarrow> keeps (category_effect E T) (cache_get R k)"
  by (rule category_frame.keeps_pure) (use redis_server.get_total in blast)

lemma keeps_reads:
  "keeps (category_effect E T) (find_or_throw R P e)" "keeps (category_effect E T) (throw_if_exists R P e)"
  "keeps (category_effect E T) (count_rows R P)" "keeps (category_effect E T) (get_many_and_count R P ord pg)"
  "keeps (category_effect E T) (find_many R P ord)"
  by (rule category_frame.keeps_pure, auto simp: inv_simps dest: find_or_throw_state throw_if_exists_state)+

lemma keeps_save_category: "keeps (category_effect E T) (save_category E e)"
  by (rule keepsI) (auto simp: save_category_def category_effect_def stores_only_def
      split: sum.splits prod.splits rel.splits)

lemma keeps_remove_category: "keeps (category_effect E T) (soft_remove (categoryRepo E) P)"
  by (rule keepsI) (auto simp: soft_remove_def category_effect_def stores_only_def categoryRepo_def
      split: sum.splits prod.splits)

lemma keeps_cached:
  assumes "\<And>x. keeps R (a x)" "\<And>x. keeps R (b x)" "\<And>x. keeps R (c x)" "\<And>x. keeps R (d x)"
    "\<And>x. keeps R (e x)" "\<And>x. keeps R (f x)"
  shows "keeps R (case v of CachedCategory x \<Rightarrow> a x | CachedCategories x \<Rightarrow> b x | CachedTree x \<Rightarrow> c x
    | CachedProduct x \<Rightarrow> d x | CachedProducts x \<Rightarrow> e x | CachedUser x \<Rightarrow> f x)"
  using assms by (cases v) simp_all

lemma category_key_mem [simp]:
  "category_key T i \<in> category_keys E T" "categoriesList_key E T q \<in> category_keys E T"
  "categoriesTree_key T \<in> category_keys E T"
  by (auto simp: category_keys_def)

lemma category_step_effect:
  assumes R: "redis_server (redis E) glob rank" and "category_step E T w w'"
  shows "category_effect E T w w'"
proof -
  note rules = category_frame.keeps_rules keeps_cached keeps_reads keeps_get [OF R] keeps_set [OF R]
    category_key_mem keeps_save_category keeps_remove_category keeps_cache_only [OF audit_cache_only]
    keeps_cache_only [OF invalidate_cache_only [OF R]] keeps_cache_only [OF cache_only_del [OF R]]
  have one: "keeps (category_effect E T) (category_findOne E T i)" for i
    unfolding category_findOne_def Let_def by (intro rules)
  have slug: "keeps (category_effect E T) (assertSlugUnique E T s x)" for s x
    unfolding assertSlugUnique_def by (intro rules)
  have parent: "keeps (category_effect E T) (assertParentExists E T i)" for i
    unfolding assertParentExists_def by (intro rules)
  have create: "keeps (category_effect E T) (category_create E ctx T dto)" for ctx dto
    unfolding category_create_def Let_def by (intro rules slug parent)
  have all: "keeps (category_effect E T) (category_findAll E T query)" for query
    unfolding category_findAll_def Let_def by (intro rules)
  have tree: "keeps (category_effect E T) (findTree E T)"
    unfolding findTree_def Let_def by (intro rules)
  have upd: "keeps (category_effect E T) (category_update E ctx T i dto)" for ctx i dto
    unfolding category_update_def move_category_def Let_def by (intro rules one slug parent)
  have rem: "keeps (category_effect E T) (category_remove E ctx T i)" for ctx i
    unfolding category_remove_def Let_def by (intro rules one)
  from assms(2) show ?thesis
    by (cases rule: category_step.cases)
      (auto dest: keepsD [OF create] keepsD [OF all] keepsD [OF tree] keepsD [OF one] keepsD [OF upd]
        keepsD [OF rem])
qed

section \<open>The invariant of the catalog\<close>

text \<open>Who owns which product under which SKU prefix, and who owns which variant: nothing of this
  is ever forgotten.\<close>

definition product_places :: "product list \<Rightarrow> (uuid \<times> uuid \<times> jstring) set" where
  "product_places t = (\<lambda>p. (p_tenantId p, p_id p, p_skuPrefix p)) ` set t"

definition variant_places :: "variant list \<Rightarrow> (uuid \<times> uuid) set" where
  "variant_places t = (\<lambda>v. (v_tenantId v, v_id v)) ` set t"

definition products_ok :: "(uuid \<times> uuid) set \<Rightarrow> product list \<Rightarrow> bool" where
  "products_ok C t \<longleftrightarrow> ids_ok product_decl t \<and> (\<forall>p \<in> set t. (p_tenantId p, p_categoryId p) \<in> C)"

definition variants_ok :: "(uuid \<times> uuid \<times> jstring) set \<Rightarrow> variant list \<Rightarrow> bool" where
  "variants_ok P t \<longleftrightarrow> table_inv variant_entity variant_key t \<and>
     (\<forall>v \<in> set t. \<exists>s. (v_tenantId v, v_productId v, s) \<in> P)"

text \<open>The cache: a product under its key, with a category and variants of its tenant.\<close>

definition known_product ::
  "(uuid \<times> uuid) set \<Rightarrow> (uuid \<times> uuid \<times> jstring) set \<Rightarrow> (uuid \<times> uuid) set \<Rightarrow> uuid \<Rightarrow> uuid \<Rightarrow>
     product_entity \<Rightarrow> bool" where
  "known_product C P V T i e \<longleftrightarrow> p_id (pe_row e) = i \<and> p_tenantId (pe_row e) = T \<and>
     (T, i, p_skuPrefix (pe_row e)) \<in> P \<and> pe_category e \<noteq> NotLoaded \<and>
     (\<forall>r. pe_category e = Loaded (Some r) \<longrightarrow> (T, ref_id r) \<in> C) \<and>
     (\<forall>vs. pe_variants e = Loaded vs \<longrightarrow> (\<forall>v \<in> set vs. (T, v_id v) \<in> V))"

definition product_entry ::
  "env \<Rightarrow> (uuid \<times> uuid) set \<Rightarrow> (uuid \<times> uuid \<times> jstring) set \<Rightarrow> (uuid \<times> uuid) set \<Rightarrow> jstring \<Rightarrow>
     cached \<Rightarrow> bool" where
  "product_entry E C P V k v \<longleftrightarrow>
     (\<forall>T i. plain_tenant T \<longrightarrow> k = product_key T i \<longrightarrow>
        (\<exists>e. v = CachedProduct e \<and> known_product C P V T i e)) \<and>
     (\<forall>T q. plain_tenant T \<longrightarrow> k = productsList_key E T q \<longrightarrow>
        (\<exists>page. v = CachedProducts page \<and> (\<forall>e \<in> set (pg_data page). p_tenantId (pe_row e) = T)))"

definition catalog_inv :: "env \<Rightarrow> world \<Rightarrow> bool" where
  "catalog_inv E w \<longleftrightarrow> category_inv E w \<and> products_ok (places (w_categories w)) (w_products w) \<and>
     variants_ok (product_places (w_products w)) (w_variants w) \<and>
     entries_ok (product_entry E (places (w_categories w)) (product_places (w_products w))
       (variant_places (w_variants w))) (w_redis w)"

text \<open>The rows of all three tables, as one table with tenants.\<close>

datatype catalog_row = CategoryRow category | ProductRow product | VariantRow variant

fun row_tenant :: "catalog_row \<Rightarrow> uuid" where
  "row_tenant (CategoryRow c) = cat_tenantId c"
| "row_tenant (ProductRow p) = p_tenantId p"
| "row_tenant (VariantRow v) = v_tenantId v"

definition catalog_rows :: "world \<Rightarrow> catalog_row list" where
  "catalog_rows w = map CategoryRow (w_categories w) @ map ProductRow (w_products w) @
     map VariantRow (w_variants w)"

definition other_rows :: "uuid \<Rightarrow> world \<Rightarrow> catalog_row multiset" where
  "other_rows T w = {#x \<in># mset (catalog_rows w). row_tenant x \<noteq> T#}"

lemma other_rows_split:
  "other_rows T w =
     image_mset CategoryRow {#c \<in># mset (w_categories w). cat_tenantId c \<noteq> T#} +
     image_mset ProductRow {#p \<in># mset (w_products w). p_tenantId p \<noteq> T#} +
     image_mset VariantRow {#v \<in># mset (w_variants w). v_tenantId v \<noteq> T#}"
  by (simp add: other_rows_def catalog_rows_def filter_mset_image_mset)

definition catalog_advances :: "env \<Rightarrow> uuid \<Rightarrow> world \<Rightarrow> world \<Rightarrow> bool" where
  "catalog_advances E T w w' \<longleftrightarrow> catalog_inv E w' \<and> other_rows T w' = other_rows T w \<and>
     places (w_categories w) \<subseteq> places (w_categories w') \<and>
     product_places (w_products w) \<subseteq> product_places (w_products w') \<and>
     variant_places (w_variants w) \<subseteq> variant_places (w_variants w')"

lemma catalog_refl: "catalog_inv E w \<Longrightarrow> catalog_advances E T w w"
  by (simp add: catalog_advances_def)

lemma catalog_trans: "catalog_advances E T u v \<Longrightarrow> catalog_advances E T v w \<Longrightarrow> catalog_advances E T u w"
  unfolding catalog_advances_def by auto

lemma known_product_mono:
  "known_product C P V T i e \<Longrightarrow> C \<subseteq> C' \<Longrightarrow> P \<subseteq> P' \<Longrightarrow> V \<subseteq> V' \<Longrightarrow> known_product C' P' V' T i e"
  unfolding known_product_def by blast

lemma product_entry_mono:
  assumes "product_entry E C P V k v" and sub: "C \<subseteq> C'" "P \<subseteq> P'" "V \<subseteq> V'"
  shows "product_entry E C' P' V' k v"
  using assms(1) known_product_mono [OF _ sub] unfolding product_entry_def by metis

lemma product_entries_mono:
  assumes "entries_ok (product_entry E C P V) st" and "C \<subseteq> C'" "P \<subseteq> P'" "V \<subseteq> V'"
  shows "entries_ok (product_entry E C' P' V') st"
  using assms(1) product_entry_mono [OF _ assms(2-4)] unfolding entries_ok_def by blast

lemma variants_ok_mono: "variants_ok P t \<Longrightarrow> P \<subseteq> Q \<Longrightarrow> variants_ok Q t"
  unfolding variants_ok_def by blast

lemma products_ok_mono: "products_ok C t \<Longrightarrow> C \<subseteq> D \<Longrightarrow> products_ok D t"
  unfolding products_ok_def by blast

text \<open>An entry stored under a category's key says nothing about products.\<close>

lemma category_keys_no_product:
  assumes "plain_tenant T" and "k \<in> category_keys E T"
  shows "product_entry E' C P V k v"
proof -
  have "k \<noteq> product_key T' i" "k \<noteq> productsList_key E' T' q" if "plain_tenant T'" for T' i q
    using assms that by (auto simp: category_keys_def keys_as_tenant_keys suffix_kinds
        suffix_kinds [symmetric] dest!: tenant_key_inject [rotated 2])
  then show ?thesis unfolding product_entry_def by metis
qed

lemma category_advances:
  assumes inv: "catalog_inv E w" and T: "plain_tenant T"
    and adv: "advances E T w w'" and eff: "category_effect E T w w'"
  shows "catalog_advances E T w w'"
proof -
  from adv have c: "category_inv E w'" "same_others T (w_categories w) (w_categories w')"
    and sub: "places (w_categories w) \<subseteq> places (w_categories w')" by (simp_all add: advances_def)
  from eff have same: "w_products w' = w_products w" "w_variants w' = w_variants w"
    and st: "stores_only (category_keys E T) (w_redis w) (w_redis w')" by (simp_all add: category_effect_def)
  let ?entry = "product_entry E (places (w_categories w')) (product_places (w_products w'))
    (variant_places (w_variants w'))"
  have "entries_ok ?entry (w_redis w)"
    using inv sub same by (auto simp: catalog_inv_def intro: product_entries_mono)
  then have "entries_ok ?entry (w_redis w')"
    using st category_keys_no_product [OF T] unfolding entries_ok_iff stores_only_def by blast
  then show ?thesis
    using inv c same sub products_ok_mono [OF _ sub]
    by (simp add: catalog_advances_def catalog_inv_def other_rows_split same_others_def)
qed

lemma category_step_catalog:
  assumes "repository category_decl (categoryOrm E)" "redis_server (redis E) glob rank"
    and "children_sync (sync_children E)" and "plain_tenant T" and "category_step E T w w'"
    and inv: "catalog_inv E w"
  shows "catalog_advances E T w w'"
  using assms(4,5) category_step_advances [OF assms(1-3), of T w w'] inv
    category_step_effect [OF assms(2,5)]
  by (intro category_advances [OF inv assms(4)]) (simp_all add: plain_category_step_def catalog_inv_def)

section \<open>Variant calls\<close>

text \<open>A variant call writes its table and the bus, and moves no variant to another product.\<close>

definition variant_effect :: "world \<Rightarrow> world \<Rightarrow> bool" where
  "variant_effect w w' \<longleftrightarrow> (\<exists>t es. w' = w\<lparr>w_variants := t, w_bus := w_bus w @ es\<rparr> \<and>
     variant_places (w_variants w) \<subseteq> variant_places t \<and>
     (\<forall>v \<in> set t. (\<exists>u \<in> set (w_variants w). v_tenantId v = v_tenantId u \<and> v_productId v = v_productId u) \<or>
       (\<exists>p \<in> set (w_products w). p_id p = v_productId v \<and> p_tenantId p = v_tenantId v)))"

lemma variant_effect_refl: "variant_effect w w"
  unfolding variant_effect_def by (intro exI [of _ "w_variants w"] exI [of _ "[]"]) auto

lemma variant_saved:
  assumes db: "repository variant_entity db" and s: "o_save db r t = Inr (x, t')"
  shows "v_tenantId x = v_tenantId r \<and> v_productId x = v_productId r"
proof -
  from repository.save_cols [OF assms] have cols: "x\<lparr>v_createdAt := 0, v_updatedAt := 0\<rparr> =
      r\<lparr>v_id := v_id x, v_createdAt := 0, v_updatedAt := 0\<rparr>"
    by (simp add: variant_entity_def)
  from arg_cong [where f = v_tenantId, OF cols] arg_cong [where f = v_productId, OF cols]
  show ?thesis by simp
qed

lemma variant_save_effect:
  assumes db: "repository variant_entity (variantOrm E)" and inv: "variant_inv w"
    and run: "conflict_on_unique msg (save_and_record (variantRepo E) ctx input row) w = (r, w')"
    and old: "v_id row = no_id \<or> (\<exists>u \<in> set (w_variants w). v_id u = v_id row \<and> v_tenantId u = v_tenantId row)"
    and parent: "(\<exists>u \<in> set (w_variants w). v_tenantId row = v_tenantId u \<and> v_productId row = v_productId u) \<or>
       (\<exists>p \<in> set (w_products w). p_id p = v_productId row \<and> p_tenantId p = v_tenantId row)"
  shows "variant_effect w w'"
proof -
  from conflict_state [OF run] obtain r0 where "save_and_record (variantRepo E) ctx input row w = (r0, w')" by blast
  from save_and_record_state [OF this] show ?thesis
  proof (elim disjE exE conjE)
    fix x t assume "o_save (r_orm (variantRepo E)) row (r_get (variantRepo E) w) = Inr (x, t)"
      and w': "w' = emitted (audit_events ctx (input x)) (r_set (variantRepo E) t w)"
    then have s: "o_save (variantOrm E) row (w_variants w) = Inr (x, t)" by simp
    note set' = repository.save_set [OF db s, unfolded variant_fields]
    note x = variant_saved [OF db s]
    have ids: "ids_ok variant_entity (w_variants w)" using inv by (simp add: variant_inv_def table_inv_def)
    have same: "v_tenantId u = v_tenantId x" if u: "u \<in> set (w_variants w)" "v_id u = v_id x" for u
    proof (cases "v_id row = no_id")
      case True
      with repository.save_new [OF db s] u show ?thesis by (auto simp: image_iff)
    next
      case False
      with old obtain y where y: "y \<in> set (w_variants w)" "v_id y = v_id row" "v_tenantId y = v_tenantId row" by blast
      with repository.save_old [OF db s] False u(2) have "v_id u = v_id y" by simp
      with repository.same_id [OF db ids u(1) y(1)] x y(3) show ?thesis by simp
    qed
    have "variant_places (w_variants w) \<subseteq> variant_places t"
    proof
      fix q assume "q \<in> variant_places (w_variants w)"
      then obtain u where "u \<in> set (w_variants w)" "q = (v_tenantId u, v_id u)" by (auto simp: variant_places_def)
      with same show "q \<in> variant_places t"
        by (cases "v_id u = v_id x") (auto simp: variant_places_def set')
    qed
    with set' x parent w' show ?thesis
      unfolding variant_effect_def
      by (intro exI [of _ t] exI [of _ "audit_events ctx (input x)"]) (auto simp: emitted_def variantRepo_def)
  qed (simp add: variant_effect_refl)
qed

lemma variant_killed:
  assumes "killed variant_entity x y"
  shows "v_tenantId y = v_tenantId x \<and> v_id y = v_id x \<and> v_productId y = v_productId x"
proof -
  from assms have cols: "e_cols variant_entity (e_kill variant_entity y) =
      e_cols variant_entity (e_kill variant_entity x)" and "v_id y = v_id x"
    by (simp_all add: killed_def)
  from arg_cong [where f = v_tenantId, OF cols] arg_cong [where f = v_productId, OF cols] this(2)
  show ?thesis by (simp add: variant_entity_def)
qed

lemma variant_remove_effect:
  assumes db: "repository variant_entity (variantOrm E)"
    and run: "remove_and_record (variantRepo E) ctx input P w = (r, w')"
  shows "variant_effect w w'"
  using remove_and_record_state [OF run]
proof (elim disjE exE conjE)
  fix n t assume "o_soft_remove (r_orm (variantRepo E)) P (r_get (variantRepo E) w) = Inr (n, t)"
    and w': "w' = emitted (audit_events ctx input) (r_set (variantRepo E) t w)"
  then have "o_soft_remove (variantOrm E) P (w_variants w) = Inr (n, t)" by simp
  from repository.remove_rows [OF db this] obtain g where g: "mset t = image_mset g (mset (w_variants w))"
    and gx: "\<And>x. if P x then killed variant_entity x (g x) else g x = x" by blast
  have cols: "v_tenantId (g v) = v_tenantId v \<and> v_id (g v) = v_id v \<and> v_productId (g v) = v_productId v" for v
    using gx [of v] variant_killed by (cases "P v") auto
  have "set t = g ` set (w_variants w)" using arg_cong [where f = set_mset, OF g] by simp
  then have "variant_places t = variant_places (w_variants w)" "\<forall>v \<in> set t. \<exists>u \<in> set (w_variants w).
      v_tenantId v = v_tenantId u \<and> v_productId v = v_productId u"
    by (auto simp: variant_places_def image_image cols)
  with w' show ?thesis
    unfolding variant_effect_def
    by (intro exI [of _ t] exI [of _ "audit_events ctx input"]) (simp add: emitted_def variantRepo_def)
qed (simp add: variant_effect_refl)

lemma variant_patch_product [simp]: "v_productId (variant_patch dto v) = v_productId v"
  by (auto simp: variant_patch_def Let_def split: option.splits)

lemma variant_resku_product: "variant_resku E T i dto x w = (Inr y, w') \<Longrightarrow> v_productId y = v_productId x"
  by (auto simp: variant_resku_def flow_simps split: option.splits if_splits)

lemma variant_create_effect:
  assumes db: "repository variant_entity (variantOrm E)" "repository product_decl (productOrm E)"
    and inv: "variant_inv w" and run: "variant_create E ctx T p dto w = (r, w')"
  shows "variant_effect w w'"
  using run unfolding variant_create_def Let_def
proof (cases rule: andThenE)
  case (err e)
  then show ?thesis by (auto simp: find_product_of_def dest: find_or_throw_state intro: variant_effect_refl)
next
  case (ok q w1)
  with repository.find_or_throw_Inr [OF db(2) ok(1) [unfolded find_product_of_def]]
  have q: "w1 = w" "q \<in> set (w_products w)" "p_id q = p" "p_tenantId q = T" by auto
  from ok(2) [unfolded q(1)] show ?thesis
  proof (cases rule: andThenE)
    case (err e)
    then show ?thesis
      by (auto simp: variant_assertSkuUniqueness_def dest: throw_if_exists_state intro: variant_effect_refl)
  next
    case (ok u w2)
    then have "w2 = w" by (auto simp: variant_assertSkuUniqueness_def dest: throw_if_exists_state)
    from variant_save_effect [OF db(1) inv ok(2) [unfolded this]] q show ?thesis
      by (auto simp: new_variant_def)
  qed
qed

lemma variant_update_effect:
  assumes db: "repository variant_entity (variantOrm E)"
    and inv: "variant_inv w" and run: "variant_update E ctx T p i dto w = (r, w')"
  shows "variant_effect w w'"
  using run unfolding variant_update_def Let_def
proof (cases rule: andThenE)
  case (err e)
  then show ?thesis by (auto simp: variant_findOne_def dest: find_or_throw_state intro: variant_effect_refl)
next
  case (ok old w1)
  note old = variant_findOne_Inr [OF db ok(1)]
  from ok(2) show ?thesis
  proof (cases rule: andThenE)
    case (err e)
    then show ?thesis using old by (auto dest: variant_resku_state intro: variant_effect_refl)
  next
    case (ok x w2)
    with variant_resku_Inr [OF db ok(1)] old have w2: "w2 = w" by auto
    have "v_id old = v_id x" "v_tenantId old = v_tenantId x" "v_productId old = v_productId x"
      using variant_resku_Inr [OF db ok(1)] variant_resku_product [OF ok(1)] old by simp_all
    then show ?thesis
      using variant_save_effect [OF db inv ok(2) [unfolded w2]] old by (metis variant_patch_simps(1,2) variant_patch_product)
  qed
qed

lemma variant_step_effect:
  assumes db: "repository variant_entity (variantOrm E)" "repository product_decl (productOrm E)"
    and "variant_step E T w w'" and inv: "variant_inv w"
  shows "variant_effect w w'"
  using assms(3)
proof cases
  case var_create
  then show ?thesis by (rule variant_create_effect [OF db inv])
next
  case var_update
  then show ?thesis by (rule variant_update_effect [OF db(1) inv])
next
  case (var_remove ctx p i r)
  then show ?thesis
    by (auto simp: variant_remove_def variant_findOne_def Let_def intro: variant_effect_refl
        variant_remove_effect [OF db(1)] dest: find_or_throw_state elim!: andThenE)
qed (auto simp: variant_findOne_def intro: variant_effect_refl
    dest!: variant_findAll_state variant_findOneById_state find_or_throw_state)

lemma variant_step_catalog:
  assumes db: "repository variant_entity (variantOrm E)" "repository product_decl (productOrm E)"
    and step: "variant_step E T w w'" and inv: "catalog_inv E w"
  shows "catalog_advances E T w w'"
proof -
  let ?P = "product_places (w_products w)"
  have vok: "variants_ok ?P (w_variants w)" using inv by (simp add: catalog_inv_def)
  then have tab: "table_inv variant_entity variant_key (w_variants w)" by (simp add: variants_ok_def)
  then have "variant_inv w" by (simp add: variant_inv_def)
  from variant_step_effect [OF db step this] obtain t es where
    w': "w' = w\<lparr>w_variants := t, w_bus := w_bus w @ es\<rparr>"
    and sub: "variant_places (w_variants w) \<subseteq> variant_places t"
    and par: "\<forall>v \<in> set t. (\<exists>u \<in> set (w_variants w). v_tenantId v = v_tenantId u \<and> v_productId v = v_productId u) \<or>
       (\<exists>p \<in> set (w_products w). p_id p = v_productId v \<and> p_tenantId p = v_tenantId v)"
    unfolding variant_effect_def by blast
  have tw: "tenant_write variant_entity (variantOrm E) variant_key T (w_variants w) t"
    using variant_step_writes [OF db(1) step] w' by simp
  have "\<forall>v \<in> set t. \<exists>s. (v_tenantId v, v_productId v, s) \<in> ?P"
  proof
    fix v assume "v \<in> set t"
    with par consider u where "u \<in> set (w_variants w)" "v_tenantId v = v_tenantId u" "v_productId v = v_productId u"
      | p where "p \<in> set (w_products w)" "p_id p = v_productId v" "p_tenantId p = v_tenantId v" by blast
    then show "\<exists>s. (v_tenantId v, v_productId v, s) \<in> ?P"
    proof cases
      case 1
      with vok show ?thesis by (auto simp: variants_ok_def)
    next
      case (2 p)
      then have "(v_tenantId v, v_productId v, p_skuPrefix p) \<in> ?P" by (force simp: product_places_def)
      then show ?thesis ..
    qed
  qed
  with tenant_table.write_inv [OF variant_table [OF db(1)] tw tab] have "variants_ok ?P t"
    by (simp add: variants_ok_def)
  moreover have "{#v \<in># mset t. v_tenantId v \<noteq> T#} = {#v \<in># mset (w_variants w). v_tenantId v \<noteq> T#}"
    using tenant_table.write_others [OF variant_table [OF db(1)] tw tab] by (simp add: variant_key_def)
  moreover have "entries_ok (product_entry E (places (w_categories w)) ?P (variant_places t)) (w_redis w)"
    using inv sub by (auto simp: catalog_inv_def intro: product_entries_mono)
  ultimately show ?thesis
    using inv w' sub by (simp add: catalog_advances_def catalog_inv_def category_inv_def other_rows_split)
qed

end
