(* ===== verification/Product.thy ===== *)
theory Product
  imports Catalog
begin

text \<open>
  Products (\<open>src/catalog/product/product.service.ts\<close>): create, list, find, update, remove, with
  the read-through cache. A product returned by \<open>findOne\<close> carries its category and its
  variants; saving it stores the row with the category's identifier and lets the mapper bring
  the loaded variants in line (\<open>sync_variants\<close>). The service calls the category service to check
  the category of a request.
\<close>

section \<open>Requests\<close>

record create_product_dto =
  cp_name :: jstring
  cp_description :: "jstring option"
  cp_categoryId :: jstring
  cp_skuPrefix :: jstring
  cp_isActive :: "bool option"

text \<open>\<open>description\<close>: absent, an explicit \<open>null\<close> (\<open>Some None\<close>), or a value.\<close>

record update_product_dto =
  up_name :: "jstring option"
  up_description :: "jstring option option"
  up_categoryId :: "jstring option"
  up_skuPrefix :: "jstring option"
  up_isActive :: "bool option"

record product_query =
  pq_page :: "nat option"
  pq_limit :: "nat option"
  pq_search :: "jstring option"
  pq_categoryId :: "jstring option"
  pq_isActive :: "jstring option"
  pq_sortBy :: jstring
  pq_sortOrder :: jstring

definition product_query_json :: "product_query \<Rightarrow> jval" where
  "product_query_json q = JObj [(''page'', jopt (\<lambda>n. JNum (of_nat n)) (pq_page q)),
     (''limit'', jopt (\<lambda>n. JNum (of_nat n)) (pq_limit q)), (''search'', jopt JStr (pq_search q)),
     (''categoryId'', jopt JStr (pq_categoryId q)), (''isActive'', jopt JStr (pq_isActive q)),
     (''sortBy'', JStr (pq_sortBy q)), (''sortOrder'', JStr (pq_sortOrder q))]"

section \<open>Loading and saving with relations\<close>

definition load_product :: "env \<Rightarrow> world \<Rightarrow> product \<Rightarrow> product_entity" where
  "load_product E w p = \<lparr>pe_row = p,
     pe_category = Loaded (case o_select (categoryOrm E) (\<lambda>c. cat_id c = p_categoryId p) (w_categories w) of
       [] \<Rightarrow> None | c # _ \<Rightarrow> Some (CategoryFull c)),
     pe_variants = Loaded (o_select (variantOrm E) (\<lambda>v. v_productId v = p_id p) (w_variants w))\<rparr>"

text \<open>
  The row to store. A loaded but missing category (\<open>null\<close>, when the category has been
  soft-deleted) asks for a NULL in the NOT NULL column \<open>category_id\<close>: error 23502.
\<close>

definition stored_product :: "product_entity \<Rightarrow> product option" where
  "stored_product e = (case pe_category e of
     NotLoaded \<Rightarrow> Some (pe_row e)
   | Loaded None \<Rightarrow> None
   | Loaded (Some r) \<Rightarrow> Some ((pe_row e)\<lparr>p_categoryId := ref_id r\<rparr>))"

definition save_product :: "env \<Rightarrow> product_entity \<Rightarrow> (world, product_entity) act" where
  "save_product E e = (\<lambda>w. case stored_product e of
     None \<Rightarrow> (Inl (QueryFailed (js ''23502'')), w)
   | Some r \<Rightarrow>
       (case o_save (productOrm E) r (w_products w) of
          Inl err \<Rightarrow> (Inl err, w)
        | Inr (row, t) \<Rightarrow>
            (case pe_variants e of
               NotLoaded \<Rightarrow> (Inr (e\<lparr>pe_row := row\<rparr>), w\<lparr>w_products := t\<rparr>)
             | Loaded vs \<Rightarrow>
                 (case sync_variants E (p_id row) vs (w_variants w) of
                    Inl err \<Rightarrow> (Inl err, w)
                  | Inr vt \<Rightarrow> (Inr (e\<lparr>pe_row := row\<rparr>), w\<lparr>w_products := t, w_variants := vt\<rparr>)))))"

section \<open>The service\<close>

definition product_sku_taken :: jstring where
  "product_sku_taken = js ''The provided SKU must be unique per-tenant''"

definition assertSkuUniqueness :: "env \<Rightarrow> jstring \<Rightarrow> uuid \<Rightarrow> (world, unit) act" where
  "assertSkuUniqueness E skuPrefix tenantId =
     throw_if_exists (productRepo E)
       (\<lambda>p. p_tenantId p = tenantId \<and> p_skuPrefix p = skuPrefix \<and> p_deletedAt p = None)
     (ConflictException (js ''The provided SKU already exist''))"

definition new_product :: "uuid \<Rightarrow> create_product_dto \<Rightarrow> product_entity" where
  "new_product tenantId dto = \<lparr>
     pe_row = \<lparr>p_id = no_id, p_tenantId = tenantId, p_categoryId = cp_categoryId dto, p_name = cp_name dto,
       p_description = cp_description dto, p_skuPrefix = cp_skuPrefix dto,
       p_isActive = or_default (cp_isActive dto) True, p_createdAt = 0, p_updatedAt = 0, p_deletedAt = None\<rparr>,
     pe_category = Loaded (Some (CategoryStub (cp_categoryId dto))), pe_variants = NotLoaded\<rparr>"

definition created_values :: "product_entity \<Rightarrow> jval" where
  "created_values p = JObj [(''name'', JStr (p_name (pe_row p))), (''skuPrefix'', JStr (p_skuPrefix (pe_row p))),
     (''categoryId'', jnullable JStr (product_category_id p)), (''isActive'', JBool (p_isActive (pe_row p))),
     (''description'', jopt JStr (p_description (pe_row p)))]"

definition product_create ::
  "env \<Rightarrow> audit_context option \<Rightarrow> uuid \<Rightarrow> create_product_dto \<Rightarrow> (world, product_entity) act" where
  "product_create E ctx tenantId dto =
     andThen (category_findOne E tenantId (cp_categoryId dto)) (\<lambda>_.
     andThen (assertSkuUniqueness E (cp_skuPrefix dto) tenantId) (\<lambda>_.
     conflict_on_unique product_sku_taken (
       andThen (save_product E (new_product tenantId dto)) (\<lambda>result.
       andThen (audit_record ctx (audit_input CREATE ET_PRODUCT (p_id (pe_row result)) None
         (Some (created_values result)))) (\<lambda>_.
       andThen (cache_delByPattern (redis E) (productsPattern tenantId)) (\<lambda>_.
       ret result))))))"

definition product_matches :: "env \<Rightarrow> uuid \<Rightarrow> product_query \<Rightarrow> product \<Rightarrow> bool" where
  "product_matches E tenantId query p \<longleftrightarrow> p_tenantId p = tenantId \<and> p_deletedAt p = None \<and>
     opt_filter (truthy (pq_search query)) (\<lambda>s. ilike E (p_name p) (search_pattern s)) \<and>
     opt_filter (truthy (pq_categoryId query)) (\<lambda>categoryId. p_categoryId p = categoryId) \<and>
     opt_filter (pq_isActive query) (\<lambda>isActive. p_isActive p = (isActive = js ''true''))"

definition product_sortColumns :: "jstring \<Rightarrow> jstring option" where
  "product_sortColumns sortBy =
     (if sortBy = js ''name'' then Some (js ''p.name'')
      else if sortBy = js ''created_at'' then Some (js ''p.created_at'')
      else if sortBy = js ''updated_at'' then Some (js ''p.updated_at'')
      else None)"

definition product_findAll ::
  "env \<Rightarrow> uuid \<Rightarrow> product_query \<Rightarrow> (world, product_entity paginated) act" where
  "product_findAll E tenantId query =
     (let cacheKey = productsList_key E tenantId (product_query_json query) in
      andThen (cache_get (redis E) cacheKey) (\<lambda>cached. case cached of
        Some (CachedProducts page) \<Rightarrow> ret page
      | Some _ \<Rightarrow> throw wrong_kind
      | None \<Rightarrow>
          let page = or_default (pq_page query) 1;
              limit = or_default (pq_limit query) 10;
              skip = (page - 1) * limit
          in andThen (get_many_and_count (productRepo E) (product_matches E tenantId query)
               (order_clause (product_sortColumns (pq_sortBy query)) (pq_sortOrder query))
               (skip_take skip limit)) (\<lambda>(data, total_rows).
             let response = paginated_response (\<lambda>p. page_link (js ''/api/v1/products'') p limit)
                   (map bare_product data) total_rows (pages_or_one total_rows limit) page limit
             in andThen (cache_set (redis E) cacheKey (CachedProducts response) CACHE_TTL_PRODUCT) (\<lambda>_.
                ret response))))"

definition product_not_found :: "uuid \<Rightarrow> uuid \<Rightarrow> exn" where
  "product_not_found tenantId i =
     NotFoundException (js ''There is no product with ID '' @ i @ js '' in tenant '' @ tenantId)"

definition product_findOne :: "env \<Rightarrow> uuid \<Rightarrow> uuid \<Rightarrow> (world, product_entity) act" where
  "product_findOne E tenantId i =
     (let cacheKey = product_key tenantId i in
      andThen (cache_get (redis E) cacheKey) (\<lambda>cached. case cached of
        Some (CachedProduct p) \<Rightarrow> ret p
      | Some _ \<Rightarrow> throw wrong_kind
      | None \<Rightarrow>
          andThen (find_or_throw (productRepo E)
            (\<lambda>p. p_id p = i \<and> p_tenantId p = tenantId \<and> p_deletedAt p = None)
            (product_not_found tenantId i)) (\<lambda>row.
          andThen (gets (\<lambda>w. load_product E w row)) (\<lambda>product.
          andThen (cache_set (redis E) cacheKey (CachedProduct product) CACHE_TTL_PRODUCT) (\<lambda>_.
          ret product)))))"

definition product_values :: "product_entity \<Rightarrow> jval" where
  "product_values p = JObj [(''name'', JStr (p_name (pe_row p))), (''isActive'', JBool (p_isActive (pe_row p))),
     (''description'', jnullable JStr (p_description (pe_row p))),
     (''categoryId'', jnullable JStr (product_category_id p))]"

definition product_sku_frozen :: exn where
  "product_sku_frozen = ConflictException (js
     ''Cannot change skuPrefix after creation. Existing variant SKUs depend on this prefix.'')"

definition move_product ::
  "env \<Rightarrow> uuid \<Rightarrow> update_product_dto \<Rightarrow> product_entity \<Rightarrow> (world, product_entity) act" where
  "move_product E tenantId dto product =
     (case truthy (up_categoryId dto) of
        None \<Rightarrow> ret product
      | Some categoryId \<Rightarrow> andThen (category_findOne E tenantId categoryId) (\<lambda>_.
          ret (product\<lparr>pe_category := Loaded (Some (CategoryStub categoryId))\<rparr>)))"

definition product_patch :: "update_product_dto \<Rightarrow> product_entity \<Rightarrow> product_entity" where
  "product_patch dto product =
     (let row = pe_row product;
          row = (case up_name dto of None \<Rightarrow> row | Some name \<Rightarrow> row\<lparr>p_name := name\<rparr>);
          row = (case up_description dto of None \<Rightarrow> row | Some d \<Rightarrow> row\<lparr>p_description := d\<rparr>);
          row = (case up_isActive dto of None \<Rightarrow> row | Some a \<Rightarrow> row\<lparr>p_isActive := a\<rparr>)
      in product\<lparr>pe_row := row\<rparr>)"

definition product_update ::
  "env \<Rightarrow> audit_context option \<Rightarrow> uuid \<Rightarrow> uuid \<Rightarrow> update_product_dto \<Rightarrow> (world, product_entity) act" where
  "product_update E ctx tenantId i dto =
     andThen (product_findOne E tenantId i) (\<lambda>product.
     let oldValues = product_values product in
     andThen (ensure (opt_filter (truthy (up_skuPrefix dto)) (\<lambda>s. s = p_skuPrefix (pe_row product)))
       product_sku_frozen) (\<lambda>_.
     andThen (move_product E tenantId dto product) (\<lambda>product.
     conflict_on_unique product_sku_taken (
       andThen (save_product E (product_patch dto product)) (\<lambda>saved.
       andThen (audit_record ctx (audit_input UPDATE ET_PRODUCT (p_id (pe_row saved))
         (Some oldValues) (Some (product_values saved)))) (\<lambda>_.
       andThen (cache_del (redis E) (product_key tenantId i)) (\<lambda>_.
       andThen (cache_delByPattern (redis E) (productsPattern tenantId)) (\<lambda>_.
       ret saved))))))))"

definition removed_values :: "product_entity \<Rightarrow> jval" where
  "removed_values p = JObj [(''name'', JStr (p_name (pe_row p))), (''skuPrefix'', JStr (p_skuPrefix (pe_row p))),
     (''categoryId'', jnullable JStr (product_category_id p)), (''isActive'', JBool (p_isActive (pe_row p)))]"

definition product_remove ::
  "env \<Rightarrow> audit_context option \<Rightarrow> uuid \<Rightarrow> uuid \<Rightarrow> (world, unit) act" where
  "product_remove E ctx tenantId i =
     andThen (product_findOne E tenantId i) (\<lambda>product.
     andThen (count_rows (variantRepo E) (\<lambda>v. v_productId v = p_id (pe_row product) \<and>
       v_tenantId v = tenantId \<and> v_deletedAt v = None)) (\<lambda>variantCount.
     andThen (ensure (\<not> variantCount > 0) (ConflictException (js
       ''Cannot delete product that has variants. Delete or reassign all variants first.''))) (\<lambda>_.
     andThen (soft_remove (productRepo E) (\<lambda>p. p_id p = p_id (pe_row product))) (\<lambda>_.
     andThen (audit_record ctx (audit_input DELETE_PRODUCT ET_PRODUCT (p_id (pe_row product))
       (Some (removed_values product)) None)) (\<lambda>_.
     andThen (cache_del (redis E) (product_key tenantId i)) (\<lambda>_.
     cache_delByPattern (redis E) (productsPattern tenantId)))))))"

section \<open>The tables\<close>

lemma product_fields [simp]:
  "e_id product_decl = p_id" "e_alive product_decl x \<longleftrightarrow> p_deletedAt x = None"
  by (simp_all add: product_decl_def)

lemma product_saved:
  assumes "repository product_decl db" and "o_save db r t = Inr (x, t')"
  shows "p_tenantId x = p_tenantId r \<and> p_skuPrefix x = p_skuPrefix r \<and> p_categoryId x = p_categoryId r \<and>
    p_name x = p_name r \<and> p_description x = p_description r \<and> p_isActive x = p_isActive r \<and>
    p_deletedAt x = p_deletedAt r"
proof -
  from repository.save_cols [OF assms] have cols: "x\<lparr>p_createdAt := 0, p_updatedAt := 0\<rparr> =
      r\<lparr>p_id := p_id x, p_createdAt := 0, p_updatedAt := 0\<rparr>"
    by (simp add: product_decl_def)
  from arg_cong [where f = p_tenantId, OF cols] arg_cong [where f = p_skuPrefix, OF cols]
    arg_cong [where f = p_categoryId, OF cols] arg_cong [where f = p_name, OF cols]
    arg_cong [where f = p_description, OF cols] arg_cong [where f = p_isActive, OF cols]
    arg_cong [where f = p_deletedAt, OF cols]
  show ?thesis by simp
qed

lemma product_killed:
  assumes "killed product_decl x y"
  shows "p_tenantId y = p_tenantId x \<and> p_id y = p_id x \<and> p_skuPrefix y = p_skuPrefix x \<and>
    p_categoryId y = p_categoryId x"
proof -
  from assms have cols: "e_cols product_decl (e_kill product_decl y) =
      e_cols product_decl (e_kill product_decl x)" and "p_id y = p_id x"
    by (simp_all add: killed_def)
  from arg_cong [where f = p_tenantId, OF cols] arg_cong [where f = p_skuPrefix, OF cols]
    arg_cong [where f = p_categoryId, OF cols] this(2)
  show ?thesis by (simp add: product_decl_def)
qed

lemma product_place_unique:
  assumes "ids_ok product_decl t" and "(T, i, s) \<in> product_places t" and "p \<in> set t" and "p_id p = i"
  shows "p_tenantId p = T \<and> p_skuPrefix p = s"
  using assms by (auto simp: product_places_def ids_ok_def distinct_map dest: inj_onD)

lemma save_product_row:
  assumes db: "repository product_decl db" and s: "o_save db row t = Inr (x, t')"
    and ok: "products_ok C t" and T: "p_tenantId row = T" and cat: "(T, p_categoryId row) \<in> C"
    and old: "p_id row = no_id \<or> (T, p_id row, p_skuPrefix row) \<in> product_places t"
  shows "products_ok C t' \<and> product_places t \<subseteq> product_places t' \<and>
    (T, p_id x, p_skuPrefix x) \<in> product_places t' \<and>
    {#p \<in># mset t'. p_tenantId p \<noteq> T#} = {#p \<in># mset t. p_tenantId p \<noteq> T#}"
proof -
  from ok have ids: "ids_ok product_decl t" by (simp add: products_ok_def)
  note set' = repository.save_set [OF db s, unfolded product_fields]
  note x = product_saved [OF db s]
  have xT: "p_tenantId x = T" using x T by simp
  have here: "p_tenantId c = T \<and> p_skuPrefix c = p_skuPrefix x" if "c \<in> set t" "p_id c = p_id x" for c
  proof (cases "p_id row = no_id")
    case True
    with repository.save_new [OF db s] that show ?thesis by (auto simp: image_iff)
  next
    case False
    with repository.save_old [OF db s] old product_place_unique [OF ids] that x show ?thesis by simp
  qed
  have "product_places t \<subseteq> product_places t'"
  proof
    fix q assume "q \<in> product_places t"
    then obtain c where "c \<in> set t" "q = (p_tenantId c, p_id c, p_skuPrefix c)" by (auto simp: product_places_def)
    with here xT show "q \<in> product_places t'" by (cases "p_id c = p_id x") (auto simp: product_places_def set')
  qed
  moreover have "{#p \<in># mset t'. p_tenantId p \<noteq> T#} = {#p \<in># mset t. p_tenantId p \<noteq> T#}"
    by (rule repository.save_outside [OF db s, where Q = "\<lambda>p. p_tenantId p = T"]) (auto simp: xT here)
  ultimately show ?thesis
    using repository.save_ids [OF db s ids] ok xT x cat
    by (auto simp: products_ok_def product_places_def set')
qed

lemma remove_product_row:
  assumes db: "repository product_decl db" and s: "o_soft_remove db (\<lambda>p. p_id p = i) t = Inr (n, t')"
    and ok: "products_ok C t" and i: "(T, i, u) \<in> product_places t"
  shows "products_ok C t' \<and> product_places t' = product_places t \<and>
    {#p \<in># mset t'. p_tenantId p \<noteq> T#} = {#p \<in># mset t. p_tenantId p \<noteq> T#}"
proof -
  from ok have ids: "ids_ok product_decl t" by (simp add: products_ok_def)
  obtain g where g: "mset t' = image_mset g (mset t)"
    and gr: "\<And>x. if p_id x = i then killed product_decl x (g x) else g x = x"
    using repository.remove_rows [OF db s] by auto
  have cols: "p_tenantId (g r) = p_tenantId r \<and> p_id (g r) = p_id r \<and> p_skuPrefix (g r) = p_skuPrefix r \<and>
      p_categoryId (g r) = p_categoryId r" for r
    using gr [of r] product_killed by (cases "p_id r = i") auto
  have set': "set t' = g ` set t" using arg_cong [where f = set_mset, OF g] by simp
  have "{#p \<in># mset t'. p_tenantId p \<noteq> T#} = {#p \<in># mset t. p_tenantId p \<noteq> T#}"
  proof (rule repository.remove_outside [OF db s, where Q = "\<lambda>p. p_tenantId p = T"])
    show "p_tenantId p = T" if "p \<in> set t" "p_id p = i" for p
      using product_place_unique [OF ids i that] by simp
  qed (auto dest: product_killed)
  then show ?thesis
    using repository.remove_ids [OF db s ids] ok
    by (auto simp: products_ok_def product_places_def set' cols image_image)
qed

text \<open>
  The mapper's part in saving a loaded collection of variants: it may only give a variant of the
  collection this product.
\<close>

definition variants_sync :: "(uuid \<Rightarrow> variant list \<Rightarrow> variant list \<Rightarrow> exn + variant list) \<Rightarrow> bool" where
  "variants_sync S \<longleftrightarrow> (\<forall>i vs t t'. S i vs t = Inr t' \<longrightarrow> (\<exists>g. mset t' = image_mset g (mset t) \<and>
     (\<forall>r. (\<exists>p u. g r = r\<lparr>v_productId := p, v_updatedAt := u\<rparr> \<and> (p = v_productId r \<or> p = i)) \<and>
       (v_id r \<notin> v_id ` set vs \<longrightarrow> g r = r))))"

lemma sync_variant_rows:
  assumes S: "variants_sync S" and s: "S i vs t = Inr t'"
    and ok: "variants_ok P t" and i: "(T, i, u) \<in> P"
    and vs: "\<And>v. v \<in> set vs \<Longrightarrow> (T, v_id v) \<in> variant_places t"
  shows "variants_ok P t' \<and> variant_places t' = variant_places t \<and>
    {#v \<in># mset t'. v_tenantId v \<noteq> T#} = {#v \<in># mset t. v_tenantId v \<noteq> T#}"
proof -
  from ok have ids: "ids_ok variant_entity t" and uniq: "live_key_unique variant_entity variant_key t"
    by (simp_all add: variants_ok_def table_inv_def)
  obtain g where g: "mset t' = image_mset g (mset t)"
    and gr: "\<And>r. (\<exists>p u. g r = r\<lparr>v_productId := p, v_updatedAt := u\<rparr> \<and> (p = v_productId r \<or> p = i))"
    and keep: "\<And>r. v_id r \<notin> v_id ` set vs \<Longrightarrow> g r = r"
    using S s unfolding variants_sync_def by metis
  have cols: "v_id (g r) = v_id r \<and> v_tenantId (g r) = v_tenantId r \<and> v_sku (g r) = v_sku r \<and>
      v_deletedAt (g r) = v_deletedAt r \<and> (v_productId (g r) = v_productId r \<or> v_productId (g r) = i)" for r
    using gr [of r] by auto
  have set': "set t' = g ` set t" using arg_cong [where f = set_mset, OF g] by simp
  have touched: "v_tenantId r = T" if r: "r \<in> set t" "g r \<noteq> r" for r
  proof -
    from keep r(2) have "v_id r \<in> v_id ` set vs" by blast
    then obtain v where "v \<in> set vs" "v_id v = v_id r" by auto
    with vs obtain y where "y \<in> set t" "v_tenantId y = T" "v_id y = v_id r" by (fastforce simp: variant_places_def)
    with ids r(1) show ?thesis by (auto simp: ids_ok_def distinct_map dest: inj_onD)
  qed
  have "mset (map v_id t') = mset (map v_id t)"
    by (simp add: g image_mset.compositionality comp_def cols)
  then have "distinct (map v_id t') \<longleftrightarrow> distinct (map v_id t)" by (rule mset_eq_imp_distinct_iff)
  then have "ids_ok variant_entity t'"
    using ids unfolding ids_ok_def variant_fields by (simp add: set' cols)
  moreover have "live_key_unique variant_entity variant_key t'"
    using uniq unfolding live_key_unique_def set' ball_simps variant_key_def variant_fields
    by (simp only: cols simp_thms)
  moreover have "\<forall>v \<in> set t'. \<exists>s. (v_tenantId v, v_productId v, s) \<in> P"
  proof
    fix v assume "v \<in> set t'"
    then obtain r where r: "r \<in> set t" "v = g r" by (auto simp: set')
    with ok obtain s where old: "(v_tenantId r, v_productId r, s) \<in> P" by (auto simp: variants_ok_def)
    show "\<exists>s. (v_tenantId v, v_productId v, s) \<in> P"
    proof (cases "g r = r")
      case True
      with r old show ?thesis by auto
    next
      case False
      with touched [OF r(1)] cols [of r] r(2) old i show ?thesis by metis
    qed
  qed
  moreover have "{#v \<in># mset t'. v_tenantId v \<noteq> T#} = {#v \<in># mset t. v_tenantId v \<noteq> T#}"
  proof -
    have "{#v \<in># mset t'. v_tenantId v \<noteq> T#} = image_mset g {#r \<in># mset t. v_tenantId r \<noteq> T#}"
      by (simp add: g filter_mset_image_mset cols)
    also have "\<dots> = image_mset (\<lambda>r. r) {#r \<in># mset t. v_tenantId r \<noteq> T#}"
      using touched by (intro image_mset_cong) auto
    finally show ?thesis by simp
  qed
  ultimately show ?thesis
    by (auto simp: variants_ok_def table_inv_def variant_places_def set' image_image cols)
qed

section \<open>The calls\<close>

abbreviation known_here :: "world \<Rightarrow> uuid \<Rightarrow> uuid \<Rightarrow> product_entity \<Rightarrow> bool" where
  "known_here w T i e \<equiv> known_product (places (w_categories w)) (product_places (w_products w))
     (variant_places (w_variants w)) T i e"

abbreviation entry_here :: "env \<Rightarrow> world \<Rightarrow> jstring \<Rightarrow> cached \<Rightarrow> bool" where
  "entry_here E w k v \<equiv> product_entry E (places (w_categories w)) (product_places (w_products w))
     (variant_places (w_variants w)) k v"

lemma catalog_cache_only:
  assumes "cache_only w w'" and "catalog_inv E w"
  shows "catalog_advances E T w w'"
  using cache_only_rows [OF assms(1)] assms(2)
  by (simp add: catalog_advances_def catalog_inv_def category_inv_def other_rows_split)

lemma catalog_tail:
  assumes "catalog_advances E T w w1" and "keeps cache_only m" and "m w1 = (r, w')"
  shows "catalog_advances E T w w'"
  using assms(1) catalog_cache_only [OF keepsD [OF assms(2,3)], of E T]
  by (auto simp: catalog_advances_def intro: catalog_trans)

lemma no_category_entry:
  assumes "plain_tenant T" and "k = product_key T i \<or> k = productsList_key E' T q"
  shows "category_entry E P k v"
proof -
  have "k \<noteq> category_key T' j" "k \<noteq> categoriesList_key E T' q'" "k \<noteq> categoriesTree_key T'"
    if "plain_tenant T'" for T' j q'
    using assms that by (auto simp: keys_as_tenant_keys suffix_kinds suffix_kinds [symmetric]
        dest!: tenant_key_inject [rotated 2])
  then show ?thesis unfolding category_entry_def by metis
qed

lemma store_product:
  assumes R: "redis_server (redis E) glob rank" and run: "cache_set (redis E) k v ttl w = (r, w')"
    and inv: "catalog_inv E w" and T: "plain_tenant T"
    and k: "k = product_key T i \<or> k = productsList_key E T q" and entry: "entry_here E w k v"
  shows "r = Inr () \<and> catalog_advances E T w w' \<and> w_products w' = w_products w \<and>
    w_categories w' = w_categories w \<and> w_variants w' = w_variants w"
proof -
  note C = redis_server.service [OF R]
  from cache_service.set_run [OF C, of k v ttl w] run obtain st where
    st: "w' = w\<lparr>w_redis := st\<rparr>" "r = Inr ()" by auto
  have "entries_ok (category_entry E (places (w_categories w))) (w_redis w')"
    by (rule cache_service.set_entries [OF C _ _ run])
      (use inv no_category_entry [OF T k] in \<open>simp_all add: catalog_inv_def category_inv_def\<close>)
  moreover have "entries_ok (entry_here E w) (w_redis w')"
    by (rule cache_service.set_entries [OF C _ _ run]) (use inv entry in \<open>simp_all add: catalog_inv_def\<close>)
  ultimately show ?thesis
    using inv st by (simp add: catalog_advances_def catalog_inv_def category_inv_def other_rows_split)
qed

lemma key_of_product:
  assumes "plain_tenant T" "plain_tenant T'"
  shows "product_key T i = product_key T' j \<longleftrightarrow> T = T' \<and> i = j"
    "product_key T i \<noteq> productsList_key E T' q" "productsList_key E T q \<noteq> product_key T' i"
    "productsList_key E T q = productsList_key E T' q' \<Longrightarrow> T = T'"
  using assms
  by (auto simp: keys_as_tenant_keys suffix_kinds suffix_kinds [symmetric] dest!: tenant_key_inject [rotated 2])

lemma one_entry:
  "plain_tenant T \<Longrightarrow> known_product C P V T i e \<Longrightarrow> product_entry E C P V (product_key T i) (CachedProduct e)"
  unfolding product_entry_def using key_of_product by metis

lemma page_entry:
  "plain_tenant T \<Longrightarrow> (\<And>e. e \<in> set (pg_data page) \<Longrightarrow> p_tenantId (pe_row e) = T) \<Longrightarrow>
    product_entry E C P V (productsList_key E T q) (CachedProducts page)"
  unfolding product_entry_def using key_of_product by metis

lemma loaded_product:
  assumes cdb: "repository category_decl (categoryOrm E)" and vdb: "repository variant_entity (variantOrm E)"
    and inv: "catalog_inv E w" and row: "row \<in> set (w_products w)" "p_tenantId row = T"
  shows "known_here w T (p_id row) (load_product E w row)"
proof -
  have C: "(p_tenantId row, p_categoryId row) \<in> places (w_categories w)" and
    P: "(T, p_id row, p_skuPrefix row) \<in> product_places (w_products w)"
    using inv row by (auto simp: catalog_inv_def products_ok_def product_places_def)
  have "cat_id c = p_categoryId row"
    if "o_select (categoryOrm E) (\<lambda>c. cat_id c = p_categoryId row) (w_categories w) = c # cs" for c cs
    using that repository.select_set [OF cdb, of "\<lambda>c. cat_id c = p_categoryId row" "w_categories w"] by auto
  moreover have "(T, v_id v) \<in> variant_places (w_variants w)"
    if "v \<in> set (o_select (variantOrm E) (\<lambda>v. v_productId v = p_id row) (w_variants w))" for v
  proof -
    from that have v: "v \<in> set (w_variants w)" "v_productId v = p_id row"
      by (auto simp: repository.select_set [OF vdb])
    with inv obtain s where "(v_tenantId v, p_id row, s) \<in> product_places (w_products w)"
      by (force simp: catalog_inv_def variants_ok_def)
    moreover have "ids_ok product_decl (w_products w)" using inv by (simp add: catalog_inv_def products_ok_def)
    ultimately have "p_tenantId row = v_tenantId v" using product_place_unique row(1) by blast
    with v row(2) show ?thesis by (auto simp: variant_places_def)
  qed
  ultimately show ?thesis
    using C P row(2) unfolding known_product_def load_product_def
    by (cases "o_select (categoryOrm E) (\<lambda>c. cat_id c = p_categoryId row) (w_categories w)") simp_all
qed

lemma product_findOne_run:
  assumes cdb: "repository category_decl (categoryOrm E)" and pdb: "repository product_decl (productOrm E)"
    and vdb: "repository variant_entity (variantOrm E)" and R: "redis_server (redis E) glob rank"
    and T: "plain_tenant T" and inv: "catalog_inv E w" and run: "product_findOne E T i w = (r, w')"
  shows "catalog_advances E T w w' \<and> w_products w' = w_products w \<and> w_categories w' = w_categories w \<and>
    w_variants w' = w_variants w \<and> (\<forall>e. r = Inr e \<longrightarrow> known_here w T i e)"
proof -
  note refl = catalog_refl [OF inv]
  from cache_service.get_run [OF redis_server.service [OF R], of "product_key T i" w] obtain cached where
    get: "cache_get (redis E) (product_key T i) w = (Inr cached, w)"
    and stored: "cached = None \<or> (\<exists>c ttl. cached = Some c \<and> map_of (w_redis w) (product_key T i) = Some (c, ttl))"
    by blast
  note run = run [unfolded product_findOne_def Let_def
    andThen_ok [where m = "cache_get (redis E) (product_key T i)" and w = w, OF get]]
  show ?thesis
  proof (cases cached)
    case (Some c)
    with stored inv have "entry_here E w (product_key T i) c" by (auto simp: catalog_inv_def entries_ok_def)
    then obtain e where "c = CachedProduct e" "known_here w T i e"
      using T unfolding product_entry_def by blast
    with run Some refl show ?thesis by (auto simp: ret_eq)
  next
    case None
    from run [unfolded None option.case] show ?thesis
    proof (cases rule: andThenE)
      case (err e)
      with find_or_throw_state [OF err(1)] refl show ?thesis by simp
    next
      case (ok row w2)
      from repository.find_or_throw_Inr [OF pdb ok(1)] have row: "w2 = w" "row \<in> set (w_products w)"
        "p_id row = i" "p_tenantId row = T" by auto
      let ?e = "load_product E w row"
      have known: "known_here w T i ?e" using loaded_product [OF cdb vdb inv row(2,4)] row(3) by simp
      obtain u w3 where set: "cache_set (redis E) (product_key T i) (CachedProduct ?e) CACHE_TTL_PRODUCT w = (u, w3)"
        by (metis surj_pair)
      from store_product [OF R set inv T _ one_entry [OF T known]] have stored: "u = Inr ()"
        "catalog_advances E T w w3 \<and> w_products w3 = w_products w \<and> w_categories w3 = w_categories w \<and>
         w_variants w3 = w_variants w" by auto
      from ok(2) [unfolded row(1) andThen_gets] have "r = Inr ?e \<and> w' = w3"
        by (simp add: andThen_def set stored ret_def)
      with stored(2) known show ?thesis by simp
    qed
  qed
qed

lemma save_product_run:
  assumes pdb: "repository product_decl (productOrm E)" and S: "variants_sync (sync_variants E)"
    and inv: "catalog_inv E w" and T: "p_tenantId (pe_row e) = T"
    and old: "p_id (pe_row e) = no_id \<or> (T, p_id (pe_row e), p_skuPrefix (pe_row e)) \<in> product_places (w_products w)"
    and cat: "pe_category e \<noteq> NotLoaded" "\<And>c. pe_category e = Loaded (Some c) \<Longrightarrow> (T, ref_id c) \<in> places (w_categories w)"
    and vs: "\<And>vs v. pe_variants e = Loaded vs \<Longrightarrow> v \<in> set vs \<Longrightarrow> (T, v_id v) \<in> variant_places (w_variants w)"
    and run: "save_product E e w = (r, w')"
  shows "catalog_advances E T w w'"
proof (cases "stored_product e")
  case None
  with run catalog_refl [OF inv] show ?thesis by (simp add: save_product_def)
next
  case (Some row)
  let ?C = "places (w_categories w)"
  have row: "p_tenantId row = T" "p_id row = p_id (pe_row e)" "p_skuPrefix row = p_skuPrefix (pe_row e)"
    "(T, p_categoryId row) \<in> ?C"
    using Some T cat by (auto simp: stored_product_def split: rel.splits option.splits)
  have ok: "products_ok ?C (w_products w)" using inv by (simp add: catalog_inv_def)
  show ?thesis
  proof (cases "o_save (productOrm E) row (w_products w)")
    case (Inl x)
    with run Some catalog_refl [OF inv] show ?thesis by (simp add: save_product_def)
  next
    case (Inr p)
    obtain x t where p: "p = (x, t)" by (cases p)
    note saved = save_product_row [OF pdb Inr [unfolded p] ok row(1,4)]
    have t: "products_ok ?C t" "product_places (w_products w) \<subseteq> product_places t"
      "(T, p_id x, p_skuPrefix x) \<in> product_places t"
      "{#p \<in># mset t. p_tenantId p \<noteq> T#} = {#p \<in># mset (w_products w). p_tenantId p \<noteq> T#}"
      using saved old row by auto
    have vok: "variants_ok (product_places t) (w_variants w)"
      using inv variants_ok_mono [OF _ t(2)] by (simp add: catalog_inv_def)
    have step: "catalog_advances E T w (w\<lparr>w_products := t, w_variants := vt\<rparr>)"
      if "variants_ok (product_places t) vt" "variant_places vt = variant_places (w_variants w)"
        "{#v \<in># mset vt. v_tenantId v \<noteq> T#} = {#v \<in># mset (w_variants w). v_tenantId v \<noteq> T#}" for vt
      using inv that t product_entries_mono [OF _ order.refl t(2) order.refl]
      by (simp add: catalog_advances_def catalog_inv_def category_inv_def other_rows_split)
    show ?thesis
    proof (cases "pe_variants e")
      case NotLoaded
      have "w\<lparr>w_products := t\<rparr> = w\<lparr>w_products := t, w_variants := w_variants w\<rparr>" by simp
      with run Some Inr p step [OF vok] NotLoaded show ?thesis by (simp add: save_product_def)
    next
      case (Loaded vs)
      show ?thesis
      proof (cases "sync_variants E (p_id x) vs (w_variants w)")
        case (Inl y)
        with run Some Inr p Loaded catalog_refl [OF inv] show ?thesis by (simp add: save_product_def)
      next
        case sync: (Inr vt)
        from sync_variant_rows [OF S sync vok t(3) vs [OF Loaded]] step run Some Inr p Loaded sync
        show ?thesis by (auto simp: save_product_def)
      qed
    qed
  qed
qed

text \<open>Each method, for whatever result.\<close>

lemma save_product_then:
  assumes run: "conflict_on_unique msg (andThen (save_product E e) k) w = (r, w')"
    and save: "\<And>r w'. save_product E e w = (r, w') \<Longrightarrow> catalog_advances E T w w'"
    and tail: "\<And>x. keeps cache_only (k x)"
  shows "catalog_advances E T w w'"
proof -
  from conflict_state [OF run] obtain r0 where "andThen (save_product E e) k w = (r0, w')" by blast
  then show ?thesis
    by (cases rule: andThenE) (auto dest: save intro: catalog_tail [OF save tail])
qed

lemma assertSkuUniqueness_state: "assertSkuUniqueness E s T w = (r, w') \<Longrightarrow> w' = w"
  unfolding assertSkuUniqueness_def by (rule throw_if_exists_state)

text \<open>Looking up a category for a product call.\<close>

lemma checked_category:
  assumes cdb: "repository category_decl (categoryOrm E)" and R: "redis_server (redis E) glob rank"
    and T: "plain_tenant T" and inv: "catalog_inv E w" and run: "category_findOne E T i w = (r, w')"
  shows "catalog_advances E T w w' \<and> w_products w' = w_products w \<and> w_variants w' = w_variants w \<and>
    w_categories w' = w_categories w \<and> ((\<exists>e. r = Inr e) \<longrightarrow> (T, i) \<in> places (w_categories w))"
proof -
  have "category_inv E w" using inv by (simp add: catalog_inv_def)
  from category_findOne_run [OF cdb R T this run] have adv: "advances E T w w'"
    and c: "w_categories w' = w_categories w" "(\<exists>e. r = Inr e) \<longrightarrow> (T, i) \<in> places (w_categories w)"
    by (auto simp: known_category_def)
  from run have "category_step E T w w'" by (rule category_step.cat_findOne)
  from category_step_effect [OF R this] have eff: "category_effect E T w w'" .
  from category_advances [OF inv T adv eff] c eff show ?thesis by (simp add: category_effect_def)
qed

lemma product_create_run:
  assumes cdb: "repository category_decl (categoryOrm E)" and pdb: "repository product_decl (productOrm E)"
    and R: "redis_server (redis E) glob rank" and S: "variants_sync (sync_variants E)"
    and T: "plain_tenant T" and inv: "catalog_inv E w" and run: "product_create E ctx T dto w = (r, w')"
  shows "catalog_advances E T w w'"
  using run unfolding product_create_def
proof (cases rule: andThenE)
  case (err e)
  from checked_category [OF cdb R T inv err(1)] show ?thesis ..
next
  case (ok c w1)
  from checked_category [OF cdb R T inv ok(1)] have w1: "catalog_advances E T w w1"
    and cat: "(T, cp_categoryId dto) \<in> places (w_categories w1)" by auto
  then have inv1: "catalog_inv E w1" by (simp add: catalog_advances_def)
  from ok(2) have "catalog_advances E T w1 w'"
  proof (cases rule: andThenE)
    case (err e)
    then show ?thesis using catalog_refl [OF inv1] assertSkuUniqueness_state by blast
  next
    case (ok u w2)
    then have w2: "w2 = w1" by (blast dest: assertSkuUniqueness_state)
    show ?thesis
    proof (rule save_product_then [OF ok(2) [unfolded w2]])
      show "catalog_advances E T w1 w'" if "save_product E (new_product T dto) w1 = (r, w')" for r w'
        by (rule save_product_run [OF pdb S inv1 _ _ _ _ _ that]) (auto simp: new_product_def cat)
    qed (intro cache_frame.keeps_rules audit_cache_only cache_only_delByPattern [OF R])
  qed
  with w1 show ?thesis by (rule catalog_trans)
qed

lemma move_product_run:
  assumes cdb: "repository category_decl (categoryOrm E)" and R: "redis_server (redis E) glob rank"
    and T: "plain_tenant T" and inv: "catalog_inv E w" and e: "known_here w T i e"
    and run: "move_product E T dto e w = (r, w')"
  shows "catalog_advances E T w w' \<and> w_products w' = w_products w \<and> w_variants w' = w_variants w \<and>
    w_categories w' = w_categories w \<and> (\<forall>x. r = Inr x \<longrightarrow> known_here w T i x)"
proof (cases "truthy (up_categoryId dto)")
  case None
  with run catalog_refl [OF inv] e show ?thesis by (simp add: move_product_def ret_eq)
next
  case (Some c)
  with run have "andThen (category_findOne E T c) (\<lambda>_. ret (e\<lparr>pe_category := Loaded (Some (CategoryStub c))\<rparr>)) w = (r, w')"
    by (simp add: move_product_def)
  then show ?thesis
  proof (cases rule: andThenE)
    case (err x)
    with checked_category [OF cdb R T inv err(1)] show ?thesis by simp
  next
    case (ok x w1)
    with checked_category [OF cdb R T inv ok(1)] e show ?thesis by (auto simp: ret_eq known_product_def)
  qed
qed

lemma product_patch_fields [simp]:
  "p_id (pe_row (product_patch dto e)) = p_id (pe_row e)"
  "p_tenantId (pe_row (product_patch dto e)) = p_tenantId (pe_row e)"
  "p_skuPrefix (pe_row (product_patch dto e)) = p_skuPrefix (pe_row e)"
  "pe_category (product_patch dto e) = pe_category e" "pe_variants (product_patch dto e) = pe_variants e"
  by (auto simp: product_patch_def Let_def split: option.splits)

lemma product_update_run:
  assumes cdb: "repository category_decl (categoryOrm E)" and pdb: "repository product_decl (productOrm E)"
    and vdb: "repository variant_entity (variantOrm E)" and R: "redis_server (redis E) glob rank"
    and S: "variants_sync (sync_variants E)" and T: "plain_tenant T" and inv: "catalog_inv E w"
    and run: "product_update E ctx T i dto w = (r, w')"
  shows "catalog_advances E T w w'"
  using run unfolding product_update_def Let_def
proof (cases rule: andThenE)
  case (err e)
  from product_findOne_run [OF cdb pdb vdb R T inv err(1)] show ?thesis by simp
next
  case (ok e w1)
  from product_findOne_run [OF cdb pdb vdb R T inv ok(1)] have w1: "catalog_advances E T w w1"
    and e: "known_here w1 T i e" by auto
  then have inv1: "catalog_inv E w1" by (simp add: catalog_advances_def)
  from ok(2) have "catalog_advances E T w1 w'"
  proof (cases rule: andThenE)
    case (err x)
    with catalog_refl [OF inv1] show ?thesis by (simp add: ensure_Inl)
  next
    case (ok u w2)
    then have w2: "w2 = w1" by (simp add: ensure_Inr)
    from ok(2) [unfolded w2] show ?thesis
    proof (cases rule: andThenE)
      case (err x)
      from move_product_run [OF cdb R T inv1 e err(1)] show ?thesis by simp
    next
      case (ok p w3)
      from move_product_run [OF cdb R T inv1 e ok(1)] have w3: "catalog_advances E T w1 w3"
        and p: "known_here w3 T i p" by auto
      then have inv3: "catalog_inv E w3" by (simp add: catalog_advances_def)
      have "catalog_advances E T w3 w'"
      proof (rule save_product_then [OF ok(2)])
        show "catalog_advances E T w3 w'" if "save_product E (product_patch dto p) w3 = (r, w')" for r w'
          using p by (intro save_product_run [OF pdb S inv3 _ _ _ _ _ that]) (simp_all add: known_product_def)
      qed (intro cache_frame.keeps_rules audit_cache_only cache_only_del [OF R] cache_only_delByPattern [OF R])
      with w3 show ?thesis by (rule catalog_trans)
    qed
  qed
  with w1 show ?thesis by (rule catalog_trans)
qed

lemma product_remove_run:
  assumes cdb: "repository category_decl (categoryOrm E)" and pdb: "repository product_decl (productOrm E)"
    and vdb: "repository variant_entity (variantOrm E)" and R: "redis_server (redis E) glob rank"
    and T: "plain_tenant T" and inv: "catalog_inv E w" and run: "product_remove E ctx T i w = (r, w')"
  shows "catalog_advances E T w w'"
  using run unfolding product_remove_def
proof (cases rule: andThenE)
  case (err e)
  from product_findOne_run [OF cdb pdb vdb R T inv err(1)] show ?thesis by simp
next
  case (ok e w1)
  from product_findOne_run [OF cdb pdb vdb R T inv ok(1)] have w1: "catalog_advances E T w w1"
    and e: "known_here w1 T i e" by auto
  then have inv1: "catalog_inv E w1" by (simp add: catalog_advances_def)
  let ?kids = "o_select (variantOrm E) (\<lambda>v. v_productId v = p_id (pe_row e) \<and> v_tenantId v = T \<and>
    v_deletedAt v = None) (w_variants w1)"
  note rest = ok(2) [unfolded count_rows_def andThen_gets andThen_ensure repo_simps]
  show ?thesis
  proof (cases "?kids = []")
    case False
    with rest w1 show ?thesis by auto
  next
    case True
    let ?drop = "soft_remove (productRepo E) (\<lambda>p. p_id p = p_id (pe_row e))"
    from rest True have "andThen ?drop
        (\<lambda>_. andThen (audit_record ctx (audit_input DELETE_PRODUCT ET_PRODUCT (p_id (pe_row e))
          (Some (removed_values e)) None))
        (\<lambda>_. andThen (cache_del (redis E) (product_key T i))
        (\<lambda>_. cache_delByPattern (redis E) (productsPattern T)))) w1 = (r, w')" by simp
    then show ?thesis
    proof (cases rule: andThenE)
      case (err x)
      with w1 show ?thesis by (simp add: soft_remove_Inl)
    next
      case (ok n w2)
      from e have i: "p_id (pe_row e) = i" "(T, i, p_skuPrefix (pe_row e)) \<in> product_places (w_products w1)"
        by (simp_all add: known_product_def)
      from ok(1) obtain t where s: "o_soft_remove (productOrm E) (\<lambda>p. p_id p = i) (w_products w1) = Inr (n, t)"
        and w2: "w2 = w1\<lparr>w_products := t\<rparr>"
        by (auto simp: soft_remove_Inr i(1) productRepo_def)
      have "products_ok (places (w_categories w1)) (w_products w1)" using inv1 by (simp add: catalog_inv_def)
      from remove_product_row [OF pdb s this i(2)] inv1 have "catalog_advances E T w1 w2"
        by (simp add: w2 catalog_advances_def catalog_inv_def category_inv_def other_rows_split)
      from catalog_trans [OF w1 this] _ ok(2) show ?thesis
        by (rule catalog_tail) (intro cache_frame.keeps_rules audit_cache_only cache_only_del [OF R]
          cache_only_delByPattern [OF R])
    qed
  qed
qed

lemma stored_page:
  assumes R: "redis_server (redis E) glob rank" and inv: "catalog_inv E w" and T: "plain_tenant T"
    and run: "andThen (cache_set (redis E) (productsList_key E T q) (CachedProducts page) ttl) (\<lambda>_. ret x) w = (r, w')"
    and page: "\<And>e. e \<in> set (pg_data page) \<Longrightarrow> p_tenantId (pe_row e) = T"
  shows "catalog_advances E T w w'"
proof -
  obtain u w1 where set: "cache_set (redis E) (productsList_key E T q) (CachedProducts page) ttl w = (u, w1)"
    by (metis surj_pair)
  from store_product [OF R set inv T _ page_entry [OF T page]] have "u = Inr ()" "catalog_advances E T w w1"
    by auto
  with run set show ?thesis by (simp add: andThen_def ret_def)
qed

lemma product_findAll_run:
  assumes pdb: "repository product_decl (productOrm E)" and R: "redis_server (redis E) glob rank"
    and T: "plain_tenant T" and inv: "catalog_inv E w" and run: "product_findAll E T query w = (r, w')"
  shows "catalog_advances E T w w'"
proof -
  let ?k = "productsList_key E T (product_query_json query)"
  from cache_service.get_run [OF redis_server.service [OF R], of ?k w] obtain cached where
    get: "cache_get (redis E) ?k w = (Inr cached, w)" by blast
  note run = run [unfolded product_findAll_def Let_def andThen_ok [where m = "cache_get (redis E) ?k" and w = w, OF get]]
  show ?thesis
  proof (cases cached)
    case (Some c)
    with run catalog_refl [OF inv] show ?thesis by (cases c) (simp_all add: ret_eq throw_eq)
  next
    case None
    note run = run [unfolded None option.case get_many_and_count_def andThen_gets Let_def prod.case]
    have tenant: "p_tenantId p = T"
      if p: "p \<in> set (o_page (productOrm E) pg (o_order (productOrm E) ord
        (o_select (productOrm E) (product_matches E T query) t)))" for p pg ord t
    proof -
      from p repository.page_sub [OF pdb] have "p \<in> set (o_order (productOrm E) ord
        (o_select (productOrm E) (product_matches E T query) t))" by blast
      then show ?thesis
        by (simp add: repository.order_set [OF pdb] repository.select_set [OF pdb] product_matches_def)
    qed
    from run show ?thesis
      by (rule stored_page [OF R inv T]) (auto simp: paginated_response_def bare_product_def tenant)
  qed
qed

section \<open>The catalog as one service\<close>

inductive product_step :: "env \<Rightarrow> uuid \<Rightarrow> world \<Rightarrow> world \<Rightarrow> bool" for E :: env where
  prod_create: "product_create E ctx T dto w = (r, w') \<Longrightarrow> product_step E T w w'"
| prod_findAll: "product_findAll E T query w = (r', w') \<Longrightarrow> product_step E T w w'"
| prod_findOne: "product_findOne E T i w = (r, w') \<Longrightarrow> product_step E T w w'"
| prod_update: "product_update E ctx T i dto' w = (r, w') \<Longrightarrow> product_step E T w w'"
| prod_remove: "product_remove E ctx T i w = (r'', w') \<Longrightarrow> product_step E T w w'"

text \<open>A call of any of the three services, for a tenant whose identifier is a UUID.\<close>

inductive catalog_step :: "env \<Rightarrow> uuid \<Rightarrow> world \<Rightarrow> world \<Rightarrow> bool" for E :: env where
  of_category: "plain_tenant T \<Longrightarrow> category_step E T w w' \<Longrightarrow> catalog_step E T w w'"
| of_product: "plain_tenant T \<Longrightarrow> product_step E T w w' \<Longrightarrow> catalog_step E T w w'"
| of_variant: "plain_tenant T \<Longrightarrow> variant_step E T w w' \<Longrightarrow> catalog_step E T w w'"

text \<open>What the catalog relies on outside the repository.\<close>

definition catalog_env :: "env \<Rightarrow> bool" where
  "catalog_env E \<longleftrightarrow> repository category_decl (categoryOrm E) \<and> repository product_decl (productOrm E) \<and>
     repository variant_entity (variantOrm E) \<and> (\<exists>glob rank. redis_server (redis E) glob rank) \<and>
     children_sync (sync_children E) \<and> variants_sync (sync_variants E)"

lemma product_step_advances:
  assumes env: "catalog_env E" and T: "plain_tenant T" and step: "product_step E T w w'" and inv: "catalog_inv E w"
  shows "catalog_advances E T w w'"
proof -
  from env obtain glob rank where cdb: "repository category_decl (categoryOrm E)"
    and pdb: "repository product_decl (productOrm E)" and vdb: "repository variant_entity (variantOrm E)"
    and R: "redis_server (redis E) glob rank" and S: "variants_sync (sync_variants E)"
    unfolding catalog_env_def by blast
  from step show ?thesis
  proof cases
    case prod_create
    then show ?thesis by (rule product_create_run [OF cdb pdb R S T inv])
  next
    case prod_findAll
    then show ?thesis by (rule product_findAll_run [OF pdb R T inv])
  next
    case prod_findOne
    from product_findOne_run [OF cdb pdb vdb R T inv this] show ?thesis by simp
  next
    case prod_update
    then show ?thesis by (rule product_update_run [OF cdb pdb vdb R S T inv])
  next
    case prod_remove
    then show ?thesis by (rule product_remove_run [OF cdb pdb vdb R T inv])
  qed
qed

lemma catalog_step_advances:
  assumes env: "catalog_env E" and "catalog_step E T w w'" and inv: "catalog_inv E w"
  shows "catalog_advances E T w w'"
  using assms(2)
proof cases
  case of_category
  with env inv show ?thesis unfolding catalog_env_def by (blast intro: category_step_catalog)
next
  case of_product
  then show ?thesis by (rule product_step_advances [OF env _ _ inv])
next
  case of_variant
  with env inv show ?thesis unfolding catalog_env_def by (blast intro: variant_step_catalog)
qed

lemma catalog_service:
  assumes "catalog_env E"
  shows "tenant_service (catalog_step E) catalog_rows row_tenant (catalog_inv E)"
  using catalog_step_advances [OF assms]
  by unfold_locales (simp_all add: catalog_advances_def other_rows_def)

lemma mem_sync_variants [simp]: "variants_sync (sync_variants mem_env)"
proof -
  have "\<exists>p u. (r :: variant) = r\<lparr>v_productId := p, v_updatedAt := u\<rparr> \<and> (p = v_productId r \<or> p = i)" for r i
    by (rule exI [of _ "v_productId r"], rule exI [of _ "v_updatedAt r"]) simp
  then show ?thesis
    unfolding variants_sync_def mem_env_def by (auto intro!: exI [of _ "\<lambda>c. c"])
qed

lemma mem_catalog_env [simp]: "catalog_env mem_env"
  using mem_cache.redis_server_axioms by (auto simp: catalog_env_def)

interpretation catalog: tenant_service "catalog_step mem_env" catalog_rows row_tenant "catalog_inv mem_env"
  by (rule catalog_service) simp

lemma catalog_history_advances:
  assumes "catalog_env E"
  shows "history (catalog_step E) Ts w w' \<Longrightarrow> catalog_inv E w \<Longrightarrow>
    catalog_inv E w' \<and> product_places (w_products w) \<subseteq> product_places (w_products w')"
proof (induction rule: history.induct)
  case (history_Cons T w w1 Ts w2)
  with catalog_step_advances [OF assms history_Cons.hyps(1)] show ?case
    by (auto simp: catalog_advances_def)
qed simp

section \<open>Properties\<close>

text \<open>
  C13: Through any history of category, product and variant calls of any tenants, in any order,
  successful or failing, with any cache behaviour Redis allows: every product is in a category of
  its own tenant, every variant belongs to a product of its own tenant, no product ever changes
  its owner or its SKU prefix, no tenant has two live variants of one SKU, and what the catalog
  holds for a tenant that made no call is exactly what it was.
\<close>

theorem catalog_history:
  assumes "catalog_env E" and "history (catalog_step E) Ts w w'" and "catalog_inv E w"
  shows "(\<forall>p \<in> set (w_products w'). \<exists>c \<in> set (w_categories w').
      cat_id c = p_categoryId p \<and> cat_tenantId c = p_tenantId p) \<and>
    (\<forall>v \<in> set (w_variants w'). \<exists>p \<in> set (w_products w'). p_id p = v_productId v \<and> p_tenantId p = v_tenantId v) \<and>
    (\<forall>p \<in> set (w_products w). \<exists>q \<in> set (w_products w').
      p_id q = p_id p \<and> p_tenantId q = p_tenantId p \<and> p_skuPrefix q = p_skuPrefix p) \<and>
    live_key_unique variant_entity (\<lambda>v. (v_tenantId v, v_sku v)) (w_variants w') \<and>
    (T \<notin> set Ts \<longrightarrow> {#x \<in># mset (catalog_rows w'). row_tenant x = T#} =
      {#x \<in># mset (catalog_rows w). row_tenant x = T#})"
proof -
  from catalog_history_advances [OF assms] have inv: "catalog_inv E w'"
    and sub: "product_places (w_products w) \<subseteq> product_places (w_products w')" by auto
  from inv have "\<forall>p \<in> set (w_products w'). \<exists>c \<in> set (w_categories w').
      cat_id c = p_categoryId p \<and> cat_tenantId c = p_tenantId p"
    by (fastforce simp: catalog_inv_def products_ok_def places_def)
  moreover from inv have "\<forall>v \<in> set (w_variants w'). \<exists>p \<in> set (w_products w').
      p_id p = v_productId v \<and> p_tenantId p = v_tenantId v"
    by (fastforce simp: catalog_inv_def variants_ok_def product_places_def)
  moreover from inv have "live_key_unique variant_entity (\<lambda>v. (v_tenantId v, v_sku v)) (w_variants w')"
    by (simp add: catalog_inv_def variants_ok_def table_inv_def variant_key_def [abs_def])
  moreover have "\<forall>p \<in> set (w_products w). \<exists>q \<in> set (w_products w').
      p_id q = p_id p \<and> p_tenantId q = p_tenantId p \<and> p_skuPrefix q = p_skuPrefix p"
    using sub by (fastforce simp: product_places_def)
  ultimately show ?thesis
    using tenant_service.history_tenant [OF catalog_service [OF assms(1)] assms(2,3), of T] by blast
qed

definition sample_product_dto :: "uuid \<Rightarrow> create_product_dto" where
  "sample_product_dto c = \<lparr>cp_name = js ''Shirt'', cp_description = None, cp_categoryId = c,
     cp_skuPrefix = js ''TSH'', cp_isActive = None\<rparr>"

definition stocked :: world where
  "stocked = snd (product_create mem_env (sample_context (js ''A'')) (js ''A'') (sample_product_dto (js ''0''))
     (sample_created (js ''A'') (js ''Shoes'') None empty_world))"

lemma empty_catalog_inv [simp]: "catalog_inv E empty_world"
  using empty_category_inv [of E]
  by (simp add: catalog_inv_def) (simp add: products_ok_def variants_ok_def ids_ok_def entries_ok_def empty_world_def)

lemma stocked_history:
  "history (catalog_step mem_env) [js ''A'', js ''A''] empty_world stocked"
proof -
  let ?w = "sample_created (js ''A'') (js ''Shoes'') None empty_world"
  have plain: "plain_tenant (js ''A'')" by (simp add: plain_tenant_def js_def)
  have "category_step mem_env (js ''A'') empty_world ?w"
    unfolding sample_created_def by (auto intro!: category_step.cat_create prod.collapse [symmetric])
  moreover have "product_step mem_env (js ''A'') ?w stocked"
    unfolding stocked_def by (auto intro!: product_step.prod_create prod.collapse [symmetric])
  ultimately show ?thesis using plain by (auto intro: catalog_step.intros)
qed

lemma stocked_inv: "catalog_inv mem_env stocked"
  using catalog.history_inv [OF stocked_history] by simp

lemma catalog_history_witness:
  "list_all (\<lambda>p. list_ex (\<lambda>c. cat_id c = p_categoryId p \<and> cat_tenantId c = p_tenantId p)
      (w_categories stocked)) (w_products stocked) \<and>
   map p_skuPrefix (w_products stocked) = [js ''TSH'']"
proof
  from catalog_history [OF _ stocked_history]
  show "list_all (\<lambda>p. list_ex (\<lambda>c. cat_id c = p_categoryId p \<and> cat_tenantId c = p_tenantId p)
      (w_categories stocked)) (w_products stocked)"
    by (simp add: list_all_iff list_ex_iff)
qed code_simp

definition prefix_in_use :: "uuid \<Rightarrow> jstring \<Rightarrow> world \<Rightarrow> bool" where
  "prefix_in_use T s w \<longleftrightarrow>
     (\<exists>p \<in> set (w_products w). p_tenantId p = T \<and> p_skuPrefix p = s \<and> p_deletedAt p = None)"

lemma assertSkuUniqueness_run:
  assumes "repository product_decl (productOrm E)"
  shows "assertSkuUniqueness E s T w =
    (if prefix_in_use T s w then Inl (ConflictException (js ''The provided SKU already exist'')) else Inr (), w)"
  using repository.throw_if_exists_run [OF assms, of "productRepo E"]
  by (auto simp: assertSkuUniqueness_def prefix_in_use_def)

lemma saved_product:
  assumes pdb: "repository product_decl (productOrm E)"
    and run: "save_product E e w = (Inr x, w')"
  shows "\<exists>row. stored_product e = Some row \<and> o_save (productOrm E) row (w_products w) = Inr (pe_row x, w_products w') \<and>
    pe_category x = pe_category e \<and> p_tenantId (pe_row x) = p_tenantId row \<and> p_name (pe_row x) = p_name row \<and>
    p_skuPrefix (pe_row x) = p_skuPrefix row \<and> p_categoryId (pe_row x) = p_categoryId row \<and>
    p_description (pe_row x) = p_description row \<and> p_isActive (pe_row x) = p_isActive row \<and>
    p_deletedAt (pe_row x) = p_deletedAt row \<and> pe_row x \<in> set (w_products w')"
proof -
  from run obtain row where row: "stored_product e = Some row" by (auto simp: save_product_def split: option.splits)
  with run have s: "o_save (productOrm E) row (w_products w) = Inr (pe_row x, w_products w')"
    and "pe_category x = pe_category e"
    by (auto simp: save_product_def split: sum.splits prod.splits rel.splits)
  with row product_saved [OF pdb s] repository.save_set [OF pdb s] show ?thesis by auto
qed

lemma product_ending:
  assumes pdb: "repository product_decl (productOrm E)" and tail: "\<And>x. keeps cache_only (k x)"
    and result: "\<And>x s y s'. k x s = (Inr y, s') \<Longrightarrow> y = x"
    and run: "conflict_on_unique msg (andThen (save_product E e) k) w = (Inr x, w')"
  shows "\<exists>w1. save_product E e w = (Inr x, w1) \<and> w_products w' = w_products w1"
proof -
  from run obtain y w1 where "save_product E e w = (Inr y, w1)" and k: "k y w1 = (Inr x, w')"
    by (auto simp: conflict_on_unique_Inr andThen_Inr)
  with result [OF k] cache_only_rows [OF keepsD [OF tail k]] show ?thesis by auto
qed

text \<open>
  Creating a product: when the category cannot be found, its error is the answer; otherwise,
  when a live product of the tenant has the SKU prefix, a 409; nothing is written to the tables.
  When the call succeeds, the product is one new live row of the tenant with exactly the values
  of the request (active unless the request says otherwise), no live product of the tenant had
  its prefix, and every other product is as before.
\<close>

theorem product_create_spec:
  assumes "catalog_env E" and "plain_tenant T" and "catalog_inv E w"
    and cat: "category_findOne E T (cp_categoryId dto) w = (c, w1)"
    and run: "product_create E ctx T dto w = (r, w')"
  shows "(\<forall>x. c = Inl x \<longrightarrow> r = Inl x \<and> w' = w1) \<and>
    ((\<exists>x. c = Inr x) \<and> prefix_in_use T (cp_skuPrefix dto) w \<longrightarrow>
      r = Inl (ConflictException (js ''The provided SKU already exist'')) \<and> w' = w1) \<and>
    w_products w1 = w_products w \<and> w_categories w1 = w_categories w \<and>
    (\<forall>e. r = Inr e \<longrightarrow> \<not> prefix_in_use T (cp_skuPrefix dto) w \<and>
      mset (w_products w') = add_mset (pe_row e) (mset (w_products w)) \<and> p_tenantId (pe_row e) = T \<and>
      p_name (pe_row e) = cp_name dto \<and> p_skuPrefix (pe_row e) = cp_skuPrefix dto \<and>
      p_categoryId (pe_row e) = cp_categoryId dto \<and> p_description (pe_row e) = cp_description dto \<and>
      p_isActive (pe_row e) = or_default (cp_isActive dto) True \<and> p_deletedAt (pe_row e) = None)"
proof -
  from assms(1) obtain glob rank where cdb: "repository category_decl (categoryOrm E)"
    and pdb: "repository product_decl (productOrm E)" and R: "redis_server (redis E) glob rank"
    unfolding catalog_env_def by blast
  from checked_category [OF cdb R assms(2,3) cat] have same: "w_products w1 = w_products w"
    "w_categories w1 = w_categories w" by auto
  show ?thesis
  proof (cases c)
    case (Inl x)
    with run cat same show ?thesis by (auto simp: product_create_def andThen_def [of "category_findOne E T i" for i])
  next
    case (Inr x)
    note rest = run [unfolded product_create_def
      andThen_ok [where m = "category_findOne E T (cp_categoryId dto)" and w = w, OF cat [unfolded Inr]]]
    from rest show ?thesis
    proof (cases rule: andThenE)
      case (err x)
      with same Inr show ?thesis by (auto simp: assertSkuUniqueness_run [OF pdb] prefix_in_use_def split: if_splits)
    next
      case (ok u w2)
      then have free: "\<not> prefix_in_use T (cp_skuPrefix dto) w" and w2: "w2 = w1"
        using same by (auto simp: assertSkuUniqueness_run [OF pdb] prefix_in_use_def split: if_splits)
      have "mset (w_products w') = add_mset (pe_row e) (mset (w_products w)) \<and> p_tenantId (pe_row e) = T \<and>
          p_name (pe_row e) = cp_name dto \<and> p_skuPrefix (pe_row e) = cp_skuPrefix dto \<and>
          p_categoryId (pe_row e) = cp_categoryId dto \<and> p_description (pe_row e) = cp_description dto \<and>
          p_isActive (pe_row e) = or_default (cp_isActive dto) True \<and> p_deletedAt (pe_row e) = None"
        if r: "r = Inr e" for e
      proof -
        have "\<exists>w3. save_product E (new_product T dto) w1 = (Inr e, w3) \<and> w_products w' = w_products w3"
          by (rule product_ending [OF pdb _ _ ok(2) [unfolded w2 r]], intro cache_frame.keeps_rules
              audit_cache_only cache_only_delByPattern [OF R], auto simp: flow_simps)
        then obtain w3 where s: "save_product E (new_product T dto) w1 = (Inr e, w3)"
          and w': "w_products w' = w_products w3" by blast
        have stored: "stored_product (new_product T dto) = Some (pe_row (new_product T dto))"
          by (simp add: stored_product_def new_product_def)
        with saved_product [OF pdb s] have save: "o_save (productOrm E) (pe_row (new_product T dto)) (w_products w1) =
          Inr (pe_row e, w_products w3)" by simp
        have "e_id product_decl (pe_row (new_product T dto)) = no_id" by (simp add: new_product_def)
        from repository.save_insert [OF pdb save this] saved_product [OF pdb s] stored w' same
        show ?thesis by (simp add: new_product_def)
      qed
      with free Inr same show ?thesis by simp
    qed
  qed
qed

lemma product_create_spec_witness:
  "fst (product_create mem_env (sample_context (js ''A'')) (js ''A'') (sample_product_dto (js ''0'')) stocked) =
     Inl (ConflictException (js ''The provided SKU already exist''))"
proof -
  obtain c w1 where cat: "category_findOne mem_env (js ''A'') (cp_categoryId (sample_product_dto (js ''0''))) stocked =
      (c, w1)" by (metis surj_pair)
  obtain r w' where run: "product_create mem_env (sample_context (js ''A'')) (js ''A'')
      (sample_product_dto (js ''0'')) stocked = (r, w')" by (metis surj_pair)
  have "\<not> isl (fst (category_findOne mem_env (js ''A'') (cp_categoryId (sample_product_dto (js ''0''))) stocked)) \<and>
      prefix_in_use (js ''A'') (cp_skuPrefix (sample_product_dto (js ''0''))) stocked"
    by code_simp
  then have "(\<exists>x. c = Inr x) \<and> prefix_in_use (js ''A'') (cp_skuPrefix (sample_product_dto (js ''0''))) stocked"
    by (cases c) (simp_all add: cat)
  moreover have "plain_tenant (js ''A'')" by (simp add: plain_tenant_def js_def)
  ultimately have "r = Inl (ConflictException (js ''The provided SKU already exist''))"
    using product_create_spec [OF _ _ stocked_inv cat run] by simp
  then show ?thesis by (simp add: run)
qed

lemma stored_patch:
  "stored_product (product_patch dto y) = (case pe_category y of NotLoaded \<Rightarrow> Some (pe_row (product_patch dto y))
    | Loaded None \<Rightarrow> None | Loaded (Some c) \<Rightarrow> Some ((pe_row (product_patch dto y))\<lparr>p_categoryId := ref_id c\<rparr>))"
  by (simp add: stored_product_def)

lemma patched_fields:
  "p_name (pe_row (product_patch dto y)) = or_default (up_name dto) (p_name (pe_row y))"
  "p_description (pe_row (product_patch dto y)) = or_default (up_description dto) (p_description (pe_row y))"
  "p_isActive (pe_row (product_patch dto y)) = or_default (up_isActive dto) (p_isActive (pe_row y))"
  by (auto simp: product_patch_def Let_def or_default_def split: option.splits)

text \<open>What a successful update stored, from the lookup of the new category on.\<close>

lemma product_updated:
  assumes pdb: "repository product_decl (productOrm E)" and R: "redis_server (redis E) glob rank"
    and cat: "pe_category e \<noteq> NotLoaded" and T: "p_tenantId (pe_row e) = T"
    and run: "andThen (move_product E T dto e) (\<lambda>product. conflict_on_unique product_sku_taken (
       andThen (save_product E (product_patch dto product)) (\<lambda>saved.
       andThen (audit_record ctx (audit_input UPDATE ET_PRODUCT (p_id (pe_row saved))
         (Some (product_values e)) (Some (product_values saved)))) (\<lambda>_.
       andThen (cache_del (redis E) (product_key T i)) (\<lambda>_.
       andThen (cache_delByPattern (redis E) (productsPattern T)) (\<lambda>_. ret saved)))))) w1 = (r, w')"
  shows "\<forall>x. r = Inr x \<longrightarrow> pe_row x \<in> set (w_products w') \<and> p_tenantId (pe_row x) = T \<and>
      p_skuPrefix (pe_row x) = p_skuPrefix (pe_row e) \<and>
      p_name (pe_row x) = or_default (up_name dto) (p_name (pe_row e)) \<and>
      p_description (pe_row x) = or_default (up_description dto) (p_description (pe_row e)) \<and>
      p_isActive (pe_row x) = or_default (up_isActive dto) (p_isActive (pe_row e)) \<and>
      Some (p_categoryId (pe_row x)) =
        (case truthy (up_categoryId dto) of Some c \<Rightarrow> Some c | None \<Rightarrow> product_category_id e)"
proof (intro allI impI)
  fix x assume r: "r = Inr x"
  from run [unfolded r andThen_Inr [of "move_product E T dto e"]]
  obtain y w2 where y: "move_product E T dto e w1 = (Inr y, w2)"
    and last: "conflict_on_unique product_sku_taken (andThen (save_product E (product_patch dto y)) (\<lambda>saved.
      andThen (audit_record ctx (audit_input UPDATE ET_PRODUCT (p_id (pe_row saved))
        (Some (product_values e)) (Some (product_values saved)))) (\<lambda>_.
      andThen (cache_del (redis E) (product_key T i)) (\<lambda>_.
      andThen (cache_delByPattern (redis E) (productsPattern T)) (\<lambda>_. ret saved))))) w2 = (Inr x, w')"
    by blast
  have "\<exists>w3. save_product E (product_patch dto y) w2 = (Inr x, w3) \<and> w_products w' = w_products w3"
    by (rule product_ending [OF pdb _ _ last], intro cache_frame.keeps_rules audit_cache_only
        cache_only_del [OF R] cache_only_delByPattern [OF R], auto simp: flow_simps)
  then obtain w3 where s: "save_product E (product_patch dto y) w2 = (Inr x, w3)"
    and w': "w_products w' = w_products w3" by blast
  have row: "pe_row y = pe_row e" "pe_category y \<noteq> NotLoaded"
    "product_category_id y = (case truthy (up_categoryId dto) of Some c \<Rightarrow> Some c | None \<Rightarrow> product_category_id e)"
    using y cat by (auto simp: move_product_def flow_simps product_category_id_def split: option.splits)
  from saved_product [OF pdb s] obtain c where "pe_category y = Loaded (Some c)"
    and "p_categoryId (pe_row x) = ref_id c"
    using row(2) by (auto simp: stored_patch split: rel.splits option.splits)
  then have "Some (p_categoryId (pe_row x)) = product_category_id y" by (simp add: product_category_id_def)
  with saved_product [OF pdb s] row patched_fields T w'
  show "pe_row x \<in> set (w_products w') \<and> p_tenantId (pe_row x) = T \<and>
      p_skuPrefix (pe_row x) = p_skuPrefix (pe_row e) \<and>
      p_name (pe_row x) = or_default (up_name dto) (p_name (pe_row e)) \<and>
      p_description (pe_row x) = or_default (up_description dto) (p_description (pe_row e)) \<and>
      p_isActive (pe_row x) = or_default (up_isActive dto) (p_isActive (pe_row e)) \<and>
      Some (p_categoryId (pe_row x)) =
        (case truthy (up_categoryId dto) of Some c \<Rightarrow> Some c | None \<Rightarrow> product_category_id e)"
    by (auto simp: stored_patch split: rel.splits option.splits)
qed

text \<open>
  C16: Updating a product that was found: a different SKU prefix is refused with a 409 and writes
  nothing; a product whose category has been deleted cannot be updated without naming a new
  category (the save asks for a NULL category and fails with 23502, a 500); when the call
  succeeds, the stored row has the old owner and prefix, each field given in the request has its
  new value, and each field not given its old one.
\<close>

theorem product_update_spec:
  assumes "catalog_env E" and "plain_tenant T" and "catalog_inv E w"
    and found: "product_findOne E T i w = (Inr e, w1)" and run: "product_update E ctx T i dto w = (r, w')"
  shows "((\<exists>s. truthy (up_skuPrefix dto) = Some s \<and> s \<noteq> p_skuPrefix (pe_row e)) \<longrightarrow>
      r = Inl product_sku_frozen \<and> w' = w1) \<and>
    (up_skuPrefix dto = None \<and> up_categoryId dto = None \<and> pe_category e = Loaded None \<longrightarrow>
      r = Inl (QueryFailed (js ''23502'')) \<and> w' = w1) \<and>
    w_products w1 = w_products w \<and>
    (\<forall>x. r = Inr x \<longrightarrow> pe_row x \<in> set (w_products w') \<and> p_tenantId (pe_row x) = T \<and>
      p_skuPrefix (pe_row x) = p_skuPrefix (pe_row e) \<and>
      p_name (pe_row x) = or_default (up_name dto) (p_name (pe_row e)) \<and>
      p_description (pe_row x) = or_default (up_description dto) (p_description (pe_row e)) \<and>
      p_isActive (pe_row x) = or_default (up_isActive dto) (p_isActive (pe_row e)) \<and>
      Some (p_categoryId (pe_row x)) =
        (case truthy (up_categoryId dto) of Some c \<Rightarrow> Some c | None \<Rightarrow> product_category_id e))"
proof -
  from assms(1) obtain glob rank where cdb: "repository category_decl (categoryOrm E)"
    and pdb: "repository product_decl (productOrm E)" and vdb: "repository variant_entity (variantOrm E)"
    and R: "redis_server (redis E) glob rank"
    unfolding catalog_env_def by blast
  from product_findOne_run [OF cdb pdb vdb R assms(2,3) found] have e: "known_here w1 T i e"
    and same: "w_products w1 = w_products w" and inv1: "catalog_inv E w1" by (auto simp: catalog_advances_def)
  from e have T: "p_tenantId (pe_row e) = T" and cat: "pe_category e \<noteq> NotLoaded"
    by (simp_all add: known_product_def)
  note rest = run [unfolded product_update_def Let_def andThen_ok [where m = "product_findOne E T i" and w = w, OF found]
    andThen_ensure]
  show ?thesis
  proof (cases "opt_filter (truthy (up_skuPrefix dto)) (\<lambda>s. s = p_skuPrefix (pe_row e))")
    case False
    with rest same show ?thesis by (auto simp: opt_filter_def truthy_def split: option.splits if_splits)
  next
    case True
    have orphan: "r = Inl (QueryFailed (js ''23502'')) \<and> w' = w1"
      if "up_categoryId dto = None" "pe_category e = Loaded None"
      using rest True that
      by (simp add: move_product_def truthy_def andThen_ok [where m = "ret e", OF ret_eq [THEN iffD2]]
          save_product_def stored_patch conflict_on_unique_def catch_def andThen_def ret_def throw_def)
    have "\<not> (\<exists>s. truthy (up_skuPrefix dto) = Some s \<and> s \<noteq> p_skuPrefix (pe_row e))"
      using True by (auto simp: opt_filter_def)
    moreover note product_updated [OF pdb R cat T rest [simplified True if_True]]
    ultimately show ?thesis using orphan same by blast
  qed
qed

definition rename_dto :: update_product_dto where
  "rename_dto = \<lparr>up_name = Some (js ''Tee''), up_description = None, up_categoryId = None,
     up_skuPrefix = Some (js ''TEE''), up_isActive = None\<rparr>"

lemma product_update_spec_witness:
  "fst (product_update mem_env (sample_context (js ''A'')) (js ''A'') (js ''0'') rename_dto stocked) =
     Inl product_sku_frozen"
proof -
  obtain r w' where run: "product_update mem_env (sample_context (js ''A'')) (js ''A'') (js ''0'') rename_dto
      stocked = (r, w')" by (metis surj_pair)
  have "case product_findOne mem_env (js ''A'') (js ''0'') stocked of
      (Inr e, _) \<Rightarrow> truthy (up_skuPrefix rename_dto) = Some (js ''TEE'') \<and> js ''TEE'' \<noteq> p_skuPrefix (pe_row e)
    | _ \<Rightarrow> False" by code_simp
  then obtain e w1 where found: "product_findOne mem_env (js ''A'') (js ''0'') stocked = (Inr e, w1)"
    and s: "truthy (up_skuPrefix rename_dto) = Some (js ''TEE'')" "js ''TEE'' \<noteq> p_skuPrefix (pe_row e)"
    by (auto split: prod.splits sum.splits)
  have "plain_tenant (js ''A'')" by (simp add: plain_tenant_def js_def)
  from product_update_spec [OF mem_catalog_env this stocked_inv found run] s have "r = Inl product_sku_frozen"
    by blast
  then show ?thesis by (simp add: run)
qed

text \<open>
  C17: Removing a product that has a live variant is refused and leaves the products as they were;
  a successful removal takes exactly that product from the tenant's live products, and no live
  variant of the tenant belonged to it.
\<close>

theorem product_remove_spec:
  assumes "catalog_env E" and "plain_tenant T" and "catalog_inv E w"
    and run: "product_remove E ctx T i w = (r, w')"
  shows "((\<exists>v \<in> set (w_variants w). v_tenantId v = T \<and> v_productId v = i \<and> v_deletedAt v = None) \<longrightarrow>
      (\<exists>e. r = Inl e) \<and> w_products w' = w_products w) \<and>
    (r = Inr () \<longrightarrow> {p \<in> set (w_products w'). p_deletedAt p = None} =
      {p \<in> set (w_products w). p_deletedAt p = None \<and> p_id p \<noteq> i})"
proof -
  from assms(1) obtain glob rank where cdb: "repository category_decl (categoryOrm E)"
    and pdb: "repository product_decl (productOrm E)" and vdb: "repository variant_entity (variantOrm E)"
    and R: "redis_server (redis E) glob rank"
    unfolding catalog_env_def by blast
  note find = product_findOne_run [OF cdb pdb vdb R assms(2,3)]
  show ?thesis
    using run unfolding product_remove_def
  proof (cases rule: andThenE)
    case (err x)
    with find [OF err(1)] show ?thesis by simp
  next
    case (ok e w1)
    from find [OF ok(1)] have e: "p_id (pe_row e) = i" and same: "w_products w1 = w_products w" "w_variants w1 = w_variants w"
      by (auto simp: known_product_def)
    let ?kids = "o_select (variantOrm E) (\<lambda>v. v_productId v = i \<and> v_tenantId v = T \<and> v_deletedAt v = None) (w_variants w)"
    have kids: "?kids = [] \<longleftrightarrow> \<not> (\<exists>v \<in> set (w_variants w). v_tenantId v = T \<and> v_productId v = i \<and> v_deletedAt v = None)"
      using repository.select_Nil [OF vdb] by auto
    note rest = ok(2) [unfolded count_rows_def andThen_gets andThen_ensure repo_simps e same]
    show ?thesis
    proof (cases "?kids = []")
      case False
      with rest have "(\<exists>x. r = Inl x) \<and> w' = w1" by auto
      with same show ?thesis by auto
    next
      case True
      from rest True have "andThen (soft_remove (productRepo E) (\<lambda>p. p_id p = i))
        (\<lambda>_. andThen (audit_record ctx (audit_input DELETE_PRODUCT ET_PRODUCT i (Some (removed_values e)) None))
        (\<lambda>_. andThen (cache_del (redis E) (product_key T i))
        (\<lambda>_. cache_delByPattern (redis E) (productsPattern T)))) w1 = (r, w')" by simp
      then show ?thesis
      proof (cases rule: andThenE)
        case (err x)
        with True kids show ?thesis by auto
      next
        case (ok n w2)
        then obtain t where s: "o_soft_remove (productOrm E) (\<lambda>p. p_id p = i) (w_products w) = Inr (n, t)"
          and w2: "w_products w2 = t" by (auto simp: soft_remove_Inr productRepo_def same)
        have "keeps cache_only (andThen (audit_record ctx input) (\<lambda>_. andThen (cache_del (redis E) (product_key T i))
          (\<lambda>_. cache_delByPattern (redis E) (productsPattern T))))" for input
          by (intro cache_frame.keeps_rules audit_cache_only cache_only_del [OF R] cache_only_delByPattern [OF R])
        from cache_only_rows [OF keepsD [OF this ok(2)]] w2 repository.remove_live [OF pdb s] True kids
        show ?thesis by auto
      qed
    qed
  qed
qed

lemma product_remove_spec_witness:
  "fst (product_remove mem_env (sample_context (js ''A'')) (js ''A'') (js ''0'') stocked) = Inr () \<and>
   {p \<in> set (w_products (snd (product_remove mem_env (sample_context (js ''A'')) (js ''A'') (js ''0'') stocked))).
      p_deletedAt p = None} = {}"
proof -
  obtain r w' where run: "product_remove mem_env (sample_context (js ''A'')) (js ''A'') (js ''0'') stocked = (r, w')"
    by (metis surj_pair)
  have fact: "fst (product_remove mem_env (sample_context (js ''A'')) (js ''A'') (js ''0'') stocked) = Inr () \<and>
      map p_id (w_products stocked) = [js ''0'']" by code_simp
  then have "\<forall>p \<in> set (w_products stocked). p_id p = js ''0''" by auto
  moreover have "plain_tenant (js ''A'')" by (simp add: plain_tenant_def js_def)
  ultimately show ?thesis
    using product_remove_spec [OF mem_catalog_env _ stocked_inv run] fact run by auto
qed

end
