(* ===== verification/Notification.thy ===== *)
theory Notification
  imports TenantService
begin

text \<open>
  Notifications (\<open>src/notifications\<close>): \<open>NotificationService\<close> publishes dispatch events and
  serves a recipient's feed; \<open>NotificationListener\<close> turns a dispatch event into rows, one per
  recipient, skipping recipients that still have an unread notification of the same kind;
  \<open>StockMovementNotificationListener\<close> dispatches an alert when a stock movement crosses the
  safety threshold.
\<close>

section \<open>Dispatching\<close>

record dispatch_input =
  di_tenantId :: uuid
  di_recipientIds :: "uuid list option"
  di_recipientRoles :: "user_role list option"
  di_type :: notification_type
  di_title :: jstring
  di_body :: "jstring option"
  di_data :: "jval option"
  di_dedupKey :: "jstring option"

definition dispatch_event :: "dispatch_input \<Rightarrow> notification_event" where
  "dispatch_event input = \<lparr>ne_tenantId = di_tenantId input,
     ne_recipientIds = or_default (di_recipientIds input) [],
     ne_recipientRoles = or_default (di_recipientRoles input) [], ne_type = di_type input,
     ne_title = di_title input, ne_body = di_body input, ne_data = or_default (di_data input) JNull,
     ne_dedupKey = di_dedupKey input\<rparr>"

definition dispatch :: "dispatch_input \<Rightarrow> (world, unit) act" where
  "dispatch input =
     (if di_tenantId input = []
      then throw (InternalServerErrorException (js ''Tenant context is required to dispatch notifications''))
      else if length (or_default (di_recipientIds input) []) = 0 \<and>
        length (or_default (di_recipientRoles input) []) = 0 then ret ()
      else emit (NotificationDispatchEvent (dispatch_event input)))"

section \<open>The stock listener\<close>

definition low_stock_input :: "stock_movement \<Rightarrow> dispatch_input" where
  "low_stock_input movement =
     (let variantLabel = or_default (sm_sku movement) (sm_variantId movement);
          available = ss_availableQuantity (sm_after movement)
      in \<lparr>di_tenantId = sm_tenantId movement, di_recipientIds = None,
          di_recipientRoles = Some [WAREHOUSE_MANAGER, TENANT_ADMIN], di_type = LOW_STOCK,
          di_title = js ''Low stock alert'',
          di_body = Some (js ''Available stock for '' @ variantLabel @ js '' dropped to '' @ show_int available @
            js '' (threshold: '' @ show_int (sm_safetyThreshold movement) @ js '').''),
          di_data = Some (JObj [(''variantId'', JStr (sm_variantId movement)),
            (''warehouseId'', JStr (sm_warehouseId movement)), (''stockLevelId'', JStr (sm_stockLevelId movement)),
            (''sku'', jnullable JStr (sm_sku movement)), (''availableQuantity'', JNum (of_int available)),
            (''safetyThreshold'', JNum (of_int (sm_safetyThreshold movement)))]),
          di_dedupKey = Some (sm_variantId movement @ js '':'' @ sm_warehouseId movement)\<rparr>)"

definition crossedThreshold :: "stock_movement \<Rightarrow> bool" where
  "crossedThreshold movement \<longleftrightarrow>
     ss_availableQuantity (sm_before movement) > sm_safetyThreshold movement \<and>
     ss_availableQuantity (sm_after movement) \<le> sm_safetyThreshold movement"

definition handleStockMovement :: "stock_movement \<Rightarrow> (world, unit) act" where
  "handleStockMovement movement =
     (if \<not> crossedThreshold movement then ret () else dispatch (low_stock_input movement))"

section \<open>The dispatch listener\<close>

text \<open>A JavaScript \<open>Set\<close>, in insertion order.\<close>

definition set_add :: "'a list \<Rightarrow> 'a \<Rightarrow> 'a list" where
  "set_add s x = (if x \<in> set s then s else s @ [x])"

definition resolveRecipients :: "env \<Rightarrow> notification_event \<Rightarrow> (world, uuid list) act" where
  "resolveRecipients E payload =
     (let recipients = foldl set_add [] (ne_recipientIds payload)
      in if length (ne_recipientRoles payload) > 0
         then andThen (find_many (userRepo E) (\<lambda>u. u_tenantId u = ne_tenantId payload \<and>
                u_role u \<in> set (ne_recipientRoles payload) \<and> u_isActive u) []) (\<lambda>users.
              ret (foldl set_add recipients (map u_id users)))
         else ret recipients)"

definition same_subject :: "notification_event \<Rightarrow> notification \<Rightarrow> bool" where
  "same_subject payload n \<longleftrightarrow> n_tenantId n = ne_tenantId payload \<and> n_type n = ne_type payload \<and>
     n_dedupKey n = ne_dedupKey payload \<and> n_readAt n = None \<and> n_deletedAt n = None"

definition filterDeduplicated :: "env \<Rightarrow> notification_event \<Rightarrow> uuid list \<Rightarrow> (world, uuid list) act" where
  "filterDeduplicated E payload recipientIds =
     andThen (find_many (notificationRepo E)
       (\<lambda>n. same_subject payload n \<and> n_recipientId n \<in> set recipientIds) []) (\<lambda>alreadyNotified.
     let skip = set (map n_recipientId alreadyNotified)
     in ret (filter (\<lambda>i. i \<notin> skip) recipientIds))"

definition notification_for :: "notification_event \<Rightarrow> uuid \<Rightarrow> notification" where
  "notification_for payload recipientId = \<lparr>n_id = no_id, n_tenantId = ne_tenantId payload,
     n_recipientId = recipientId, n_type = ne_type payload, n_title = ne_title payload,
     n_body = ne_body payload, n_data = ne_data payload, n_dedupKey = ne_dedupKey payload,
     n_readAt = None, n_createdAt = 0, n_updatedAt = 0, n_deletedAt = None\<rparr>"

text \<open>\<open>save\<close> of several entities: one transaction.\<close>

fun save_rows :: "'row orm \<Rightarrow> 'row list \<Rightarrow> 'row list \<Rightarrow> exn + 'row list" where
  "save_rows db [] t = Inr t"
| "save_rows db (r # rs) t = (case o_save db r t of
     Inl e \<Rightarrow> Inl e | Inr (_, t') \<Rightarrow> save_rows db rs t')"

definition save_many :: "('w, 'row) repo \<Rightarrow> 'row list \<Rightarrow> ('w, unit) act" where
  "save_many R rows = (\<lambda>w. case save_rows (r_orm R) rows (r_get R w) of
     Inl e \<Rightarrow> (Inl e, w) | Inr t \<Rightarrow> (Inr (), r_set R t w))"

text \<open>What the listener reads before it writes: whom the rows are for.\<close>

definition dispatch_targets :: "env \<Rightarrow> notification_event \<Rightarrow> (world, uuid list) act" where
  "dispatch_targets E payload =
     andThen (resolveRecipients E payload) (\<lambda>recipientIds.
     if recipientIds = [] then ret []
     else (case truthy (ne_dedupKey payload) of
             Some _ \<Rightarrow> filterDeduplicated E payload recipientIds
           | None \<Rightarrow> ret recipientIds))"

definition handleDispatch :: "env \<Rightarrow> notification_event \<Rightarrow> (world, unit) act" where
  "handleDispatch E payload = catch
     (andThen (dispatch_targets E payload) (\<lambda>targets.
      if targets = [] then ret ()
      else save_many (notificationRepo E) (map (notification_for payload) targets)))
     (\<lambda>error. ret ())"

section \<open>The feed\<close>

record notification_query =
  nq_page :: "nat option"
  nq_limit :: "nat option"
  nq_unreadOnly :: "bool option"
  nq_type :: "notification_type option"
  nq_startDate :: "jstring option"
  nq_endDate :: "jstring option"

definition no_notification_query :: notification_query where
  "no_notification_query = \<lparr>nq_page = None, nq_limit = None, nq_unreadOnly = None, nq_type = None,
     nq_startDate = None, nq_endDate = None\<rparr>"

definition buildFeedQuery :: "env \<Rightarrow> uuid \<Rightarrow> uuid \<Rightarrow> notification_query \<Rightarrow> notification \<Rightarrow> bool" where
  "buildFeedQuery E tenantId recipientId query n \<longleftrightarrow>
     n_tenantId n = tenantId \<and> n_recipientId n = recipientId \<and> n_deletedAt n = None \<and>
     (nq_unreadOnly query = Some True \<longrightarrow> n_readAt n = None) \<and>
     opt_filter (nq_type query) (\<lambda>ty. n_type n = ty) \<and>
     opt_filter (truthy (nq_startDate query)) (\<lambda>d. pg_date E d \<le> int (n_createdAt n)) \<and>
     opt_filter (truthy (nq_endDate query)) (\<lambda>d. int (n_createdAt n) \<le> pg_date E d)"

definition feed_order :: order_by where
  "feed_order = [(js ''notification.created_at'', js ''DESC''), (js ''notification.id'', js ''DESC'')]"

definition notification_assertDateRange :: "env \<Rightarrow> notification_query \<Rightarrow> (world, unit) act" where
  "notification_assertDateRange E query =
     ensure (date_range_ok E (nq_startDate query) (nq_endDate query))
       (BadRequestException (js ''startDate must not be after endDate''))"

definition notification_page ::
  "notification list \<Rightarrow> nat \<Rightarrow> notification_query \<Rightarrow> notification paginated" where
  "notification_page data total_rows query =
     (let page = or_default (nq_page query) 1; limit = or_default (nq_limit query) 20
      in paginated_response (\<lambda>p. page_link (js ''/api/v1/notifications'') p limit) data total_rows
           (pages_or_one total_rows limit) page limit)"

definition findFeed ::
  "env \<Rightarrow> uuid \<Rightarrow> uuid \<Rightarrow> notification_query \<Rightarrow> (world, notification paginated) act" where
  "findFeed E tenantId recipientId query =
     andThen (notification_assertDateRange E query) (\<lambda>_.
     andThen (get_many_and_count (notificationRepo E) (buildFeedQuery E tenantId recipientId query) feed_order
       (skip_take ((or_default (nq_page query) 1 - 1) * or_default (nq_limit query) 20)
          (or_default (nq_limit query) 20))) (\<lambda>(data, total_rows).
     ret (notification_page data total_rows query)))"

definition getUnreadCount :: "env \<Rightarrow> uuid \<Rightarrow> uuid \<Rightarrow> (world, nat) act" where
  "getUnreadCount E tenantId recipientId =
     count_rows (notificationRepo E)
       (\<lambda>n. buildFeedQuery E tenantId recipientId no_notification_query n \<and> n_readAt n = None)"

definition notification_not_found :: "uuid \<Rightarrow> exn" where
  "notification_not_found i = NotFoundException (js ''Notification with ID '' @ i @ js '' not found'')"

definition mark_read_at :: "nat \<Rightarrow> notification \<Rightarrow> notification" where
  "mark_read_at now n = n\<lparr>n_readAt := Some now\<rparr>"

definition markRead :: "env \<Rightarrow> nat \<Rightarrow> uuid \<Rightarrow> uuid \<Rightarrow> uuid \<Rightarrow> (world, unit) act" where
  "markRead E now tenantId recipientId i =
     andThen (update_where (notificationRepo E) (mark_read_at now)
       (\<lambda>n. (n_id n = i \<and> n_tenantId n = tenantId \<and> n_recipientId n = recipientId) \<and>
          n_readAt n = None \<and> n_deletedAt n = None)) (\<lambda>affected.
     if affected > 0 then ret ()
     else andThen (find_or_throw (notificationRepo E)
            (\<lambda>n. n_id n = i \<and> n_tenantId n = tenantId \<and> n_recipientId n = recipientId)
            (notification_not_found i)) (\<lambda>_. ret ()))"

definition markAllRead :: "env \<Rightarrow> nat \<Rightarrow> uuid \<Rightarrow> uuid \<Rightarrow> (world, nat) act" where
  "markAllRead E now tenantId recipientId =
     update_where (notificationRepo E) (mark_read_at now)
       (\<lambda>n. (n_tenantId n = tenantId \<and> n_recipientId n = recipientId) \<and>
          n_readAt n = None \<and> n_deletedAt n = None)"

definition notification_remove :: "env \<Rightarrow> uuid \<Rightarrow> uuid \<Rightarrow> uuid \<Rightarrow> (world, unit) act" where
  "notification_remove E tenantId recipientId i =
     andThen (soft_remove (notificationRepo E)
       (\<lambda>n. n_id n = i \<and> n_tenantId n = tenantId \<and> n_recipientId n = recipientId)) (\<lambda>affected.
     ensure (affected \<noteq> 0) (notification_not_found i))"

section \<open>Recipients and rows\<close>

lemma set_foldl_add: "set (foldl set_add s xs) = set s \<union> set xs"
  by (induction xs arbitrary: s) (auto simp: set_add_def)

lemma distinct_foldl_add: "distinct s \<Longrightarrow> distinct (foldl set_add s xs)"
  by (induction xs arbitrary: s) (auto simp: set_add_def)

lemma notification_fields [simp]:
  "e_id notification_entity = n_id" "e_alive notification_entity x \<longleftrightarrow> n_deletedAt x = None"
  by (simp_all add: notification_entity_def)

definition resolved :: "notification_event \<Rightarrow> world \<Rightarrow> uuid set" where
  "resolved payload w = set (ne_recipientIds payload) \<union>
     {u_id u | u. u \<in> set (w_users w) \<and> u_deletedAt u = None \<and> u_tenantId u = ne_tenantId payload \<and>
        u_role u \<in> set (ne_recipientRoles payload) \<and> u_isActive u}"

lemma resolveRecipients_run:
  assumes udb: "repository user_entity (userOrm E)" and run: "resolveRecipients E payload w = (r, w')"
  shows "w' = w \<and> (\<exists>ids. r = Inr ids \<and> distinct ids \<and> set ids = resolved payload w)"
proof (cases "ne_recipientRoles payload = []")
  case True
  with run show ?thesis
    by (auto simp: resolveRecipients_def ret_eq resolved_def set_foldl_add distinct_foldl_add)
next
  case False
  let ?users = "o_order (userOrm E) [] (o_select (userOrm E) (\<lambda>u. u_tenantId u = ne_tenantId payload \<and>
    u_role u \<in> set (ne_recipientRoles payload) \<and> u_isActive u) (w_users w))"
  have "set (map u_id ?users) = {u_id u | u. u \<in> set (w_users w) \<and> u_deletedAt u = None \<and>
      u_tenantId u = ne_tenantId payload \<and> u_role u \<in> set (ne_recipientRoles payload) \<and> u_isActive u}"
    by (auto simp: repository.order_set [OF udb] repository.select_set [OF udb] user_entity_def)
  moreover have "w' = w \<and> r = Inr (foldl set_add (foldl set_add [] (ne_recipientIds payload)) (map u_id ?users))"
    using run False by (simp add: resolveRecipients_def find_many_def andThen_gets ret_eq)
  ultimately show ?thesis
    by (simp add: resolved_def set_foldl_add distinct_foldl_add)
qed

text \<open>For whom a dispatch writes a row.\<close>

definition targets_of :: "notification_event \<Rightarrow> world \<Rightarrow> uuid set" where
  "targets_of payload w = {i \<in> resolved payload w. truthy (ne_dedupKey payload) = None \<or>
     \<not> (\<exists>n \<in> set (w_notifications w). same_subject payload n \<and> n_recipientId n = i)}"

lemma dispatch_targets_run:
  assumes ndb: "repository notification_entity (notificationOrm E)" and udb: "repository user_entity (userOrm E)"
    and run: "dispatch_targets E payload w = (r, w')"
  shows "w' = w \<and> (\<exists>ids. r = Inr ids \<and> distinct ids \<and> set ids = targets_of payload w)"
proof -
  obtain r0 w0 where r0: "resolveRecipients E payload w = (r0, w0)" by (metis surj_pair)
  from resolveRecipients_run [OF udb r0] obtain ids where ids: "r0 = Inr ids" "w0 = w" "distinct ids"
    "set ids = resolved payload w" by blast
  note run = run [unfolded dispatch_targets_def
    andThen_ok [where m = "resolveRecipients E payload" and w = w, OF r0 [unfolded ids(1,2)]]]
  show ?thesis
  proof (cases "ids = [] \<or> truthy (ne_dedupKey payload) = None")
    case True
    with run ids show ?thesis by (auto simp: ret_eq targets_of_def split: if_splits)
  next
    case False
    let ?old = "o_order (notificationOrm E) [] (o_select (notificationOrm E)
      (\<lambda>n. same_subject payload n \<and> n_recipientId n \<in> set ids) (w_notifications w))"
    have old: "set ?old = {n \<in> set (w_notifications w). same_subject payload n \<and> n_recipientId n \<in> set ids}"
      by (auto simp: repository.order_set [OF ndb] repository.select_set [OF ndb] same_subject_def)
    from run False have "w' = w \<and> r = Inr (filter (\<lambda>i. i \<notin> n_recipientId ` set ?old) ids)"
      by (auto simp: filterDeduplicated_def find_many_def andThen_gets ret_eq Let_def split: option.splits)
    with ids False show ?thesis
      unfolding old by (auto simp: targets_of_def)
  qed
qed

text \<open>Rows without the columns the database assigns.\<close>

definition blank :: "notification \<Rightarrow> notification" where
  "blank n = n\<lparr>n_createdAt := 0, n_updatedAt := 0, n_id := no_id\<rparr>"

lemma blank_fields [simp]:
  "n_tenantId (blank n) = n_tenantId n" "n_recipientId (blank n) = n_recipientId n"
  "n_type (blank n) = n_type n" "n_dedupKey (blank n) = n_dedupKey n"
  "n_readAt (blank n) = n_readAt n" "n_deletedAt (blank n) = n_deletedAt n"
  by (simp_all add: blank_def)

lemma save_rows_Inr:
  assumes db: "repository notification_entity db"
  shows "save_rows db rs t = Inr t' \<Longrightarrow> (\<forall>r \<in> set rs. blank r = r) \<Longrightarrow> ids_ok notification_entity t \<Longrightarrow>
    (\<exists>new. mset t' = mset new + mset t \<and> map blank new = rs) \<and> ids_ok notification_entity t'"
proof (induction rs arbitrary: t)
  case Nil
  then show ?case by (auto intro!: exI [of _ "[]"])
next
  case (Cons r rs)
  then obtain x t1 where s: "o_save db r t = Inr (x, t1)" and rest: "save_rows db rs t1 = Inr t'"
    by (auto split: sum.splits)
  have new: "e_id notification_entity r = no_id"
    using arg_cong [where f = n_id, OF Cons.prems(2) [rule_format, of r]] by (simp add: blank_def)
  from repository.save_cols [OF db s] have cols: "x\<lparr>n_createdAt := 0, n_updatedAt := 0\<rparr> =
      r\<lparr>n_id := n_id x, n_createdAt := 0, n_updatedAt := 0\<rparr>"
    by (simp add: notification_entity_def)
  from arg_cong [where f = "\<lambda>n. n\<lparr>n_id := no_id\<rparr>", OF this] have "blank x = blank r"
    by (simp add: blank_def)
  then have x: "blank x = r" using Cons.prems(2) by simp
  from Cons.IH [OF rest] Cons.prems repository.save_ids [OF db s] obtain new' where
    n: "mset t' = mset new' + mset t1" "map blank new' = rs" "ids_ok notification_entity t'" by auto
  with repository.save_insert [OF db s new] x show ?case
    by (intro conjI exI [of _ "x # new'"]) simp_all
qed

lemma blank_notification_for [simp]: "blank (notification_for payload i) = notification_for payload i"
  by (simp add: blank_def notification_for_def)

lemma handleDispatch_run:
  assumes ndb: "repository notification_entity (notificationOrm E)" and udb: "repository user_entity (userOrm E)"
    and ids: "ids_ok notification_entity (w_notifications w)" and run: "handleDispatch E payload w = (r, w')"
  shows "r = Inr () \<and> (w' = w \<or> (\<exists>new targets. w' = w\<lparr>w_notifications := w_notifications w'\<rparr> \<and>
    mset (w_notifications w') = mset new + mset (w_notifications w) \<and>
    map blank new = map (notification_for payload) targets \<and> distinct targets \<and>
    set targets = targets_of payload w \<and> ids_ok notification_entity (w_notifications w')))"
proof -
  obtain r0 w0 where "dispatch_targets E payload w = (r0, w0)" by (metis surj_pair)
  with dispatch_targets_run [OF ndb udb this] obtain targets where
    t: "dispatch_targets E payload w = (Inr targets, w)" "distinct targets" "set targets = targets_of payload w" by auto
  note run = run [unfolded handleDispatch_def catch_def
    andThen_ok [where m = "dispatch_targets E payload" and w = w, OF t(1)]]
  show ?thesis
  proof (cases "targets = []")
    case True
    with run show ?thesis by (simp add: ret_def)
  next
    case False
    show ?thesis
    proof (cases "save_rows (notificationOrm E) (map (notification_for payload) targets) (w_notifications w)")
      case (Inl e)
      with run False show ?thesis by (simp add: save_many_def ret_def)
    next
      case (Inr t')
      with run False have "r = Inr ()" "w' = w\<lparr>w_notifications := t'\<rparr>"
        by (auto simp: save_many_def ret_def notificationRepo_def)
      moreover from save_rows_Inr [OF ndb Inr _ ids] obtain new where "mset t' = mset new + mset (w_notifications w)"
        "map blank new = map (notification_for payload) targets" "ids_ok notification_entity t'" by auto
      ultimately show ?thesis using t by auto
    qed
  qed
qed

section \<open>Unread notifications are unique\<close>

definition pending :: "notification \<Rightarrow> bool" where
  "pending n \<longleftrightarrow> n_readAt n = None \<and> n_deletedAt n = None \<and> truthy (n_dedupKey n) \<noteq> None"

definition subject :: "notification \<Rightarrow> uuid \<times> uuid \<times> notification_type \<times> jstring option" where
  "subject n = (n_tenantId n, n_recipientId n, n_type n, n_dedupKey n)"

definition pending_unique :: "notification list \<Rightarrow> bool" where
  "pending_unique t \<longleftrightarrow> (\<forall>x \<in> set t. \<forall>y \<in> set t. pending x \<longrightarrow> pending y \<longrightarrow> subject x = subject y \<longrightarrow> n_id x = n_id y)"

definition notification_inv :: "world \<Rightarrow> bool" where
  "notification_inv w \<longleftrightarrow> ids_ok notification_entity (w_notifications w) \<and> pending_unique (w_notifications w)"

lemma blank_subject [simp]: "subject (blank n) = subject n" "pending (blank n) = pending n"
  by (simp_all add: subject_def pending_def)

lemma dispatch_inv:
  assumes inv: "notification_inv w" and m: "mset t' = mset new + mset (w_notifications w)"
    and new: "map blank new = map (notification_for payload) targets" and d: "distinct targets"
    and targets: "set targets = targets_of payload w"
  shows "pending_unique t'"
proof -
  have old: "pending_unique (w_notifications w)" using inv by (simp add: notification_inv_def)
  have set': "set t' = set new \<union> set (w_notifications w)" using arg_cong [where f = set_mset, OF m] by simp
  have fresh: "\<exists>i \<in> set targets. blank x = notification_for payload i" if "x \<in> set new" for x
    using that new by (metis image_eqI image_iff list.set_map)
  have mixed: "\<not> (pending x \<and> pending y \<and> subject x = subject y)" if x: "x \<in> set new" and y: "y \<in> set (w_notifications w)" for x y
  proof
    assume xy: "pending x \<and> pending y \<and> subject x = subject y"
    from fresh [OF x] obtain i where i: "i \<in> set targets" "blank x = notification_for payload i" by blast
    from arg_cong [where f = subject, OF i(2)] xy have "subject y = subject (notification_for payload i)" by simp
    then have "same_subject payload y \<and> n_recipientId y = i \<and> n_dedupKey y = ne_dedupKey payload"
      using xy by (auto simp: same_subject_def subject_def notification_for_def pending_def)
    with i(1) y xy targets show False by (auto simp: targets_of_def pending_def)
  qed
  have inside: "x = y" if x: "x \<in> set new" and y: "y \<in> set new" and s: "subject x = subject y" for x y
  proof -
    from x y obtain a b where ab: "a < length new" "b < length new" "x = new ! a" "y = new ! b"
      by (metis in_set_conv_nth)
    have len: "length new = length targets" using arg_cong [where f = length, OF new] by simp
    have "blank (new ! k) = notification_for payload (targets ! k)" if "k < length new" for k
      using arg_cong [where f = "\<lambda>l. l ! k", OF new] that len by simp
    from arg_cong [where f = n_recipientId, OF this] have "n_recipientId (new ! k) = targets ! k"
      if "k < length new" for k using that by (simp add: notification_for_def)
    with ab s have "targets ! a = targets ! b" by (simp add: subject_def)
    with d ab len show ?thesis by (simp add: nth_eq_iff_index_eq)
  qed
  show ?thesis
    unfolding pending_unique_def set' using old mixed inside unfolding pending_unique_def
    by (metis Un_iff)
qed

text \<open>A change of some rows that keeps owners, keys and subjects and only makes rows less pending.\<close>

lemma weaker_inv:
  assumes inv: "notification_inv w" and m: "mset t' = image_mset g (mset (w_notifications w))"
    and g: "\<And>n. n_id (g n) = n_id n \<and> subject (g n) = subject n \<and> (pending (g n) \<longrightarrow> pending n)"
  shows "ids_ok notification_entity t' \<and> pending_unique t'"
proof -
  from inv have ids: "ids_ok notification_entity (w_notifications w)" and u: "pending_unique (w_notifications w)"
    by (simp_all add: notification_inv_def)
  have set': "set t' = g ` set (w_notifications w)" using arg_cong [where f = set_mset, OF m] by simp
  have "mset (map n_id t') = mset (map n_id (w_notifications w))"
    by (simp add: m image_mset.compositionality comp_def g)
  then have "distinct (map n_id t') \<longleftrightarrow> distinct (map n_id (w_notifications w))" by (rule mset_eq_imp_distinct_iff)
  then have "ids_ok notification_entity t'"
    using ids unfolding ids_ok_def notification_fields by (simp add: set' g)
  moreover have "pending_unique t'"
    using u unfolding pending_unique_def set' ball_simps using g by metis
  ultimately show ?thesis ..
qed

lemma marked:
  assumes ndb: "repository notification_entity (notificationOrm E)"
    and run: "o_update (notificationOrm E) (mark_read_at now) P (w_notifications w) = Inr (n, t')"
  shows "\<exists>g. mset t' = image_mset g (mset (w_notifications w)) \<and>
    (\<forall>x. n_id (g x) = n_id x \<and> subject (g x) = subject x \<and> (pending (g x) \<longrightarrow> pending x) \<and>
      n_deletedAt (g x) = n_deletedAt x \<and> (if P x then n_readAt (g x) = Some now else g x = x))"
proof -
  from repository.update_rows [OF ndb run] obtain g where g: "mset t' = image_mset g (mset (w_notifications w))"
    and gx: "\<And>x. if P x then e_cols notification_entity (g x) = e_cols notification_entity (mark_read_at now x) else g x = x"
    by blast
  have "n_id (g x) = n_id x \<and> subject (g x) = subject x \<and> (pending (g x) \<longrightarrow> pending x) \<and>
      n_deletedAt (g x) = n_deletedAt x \<and> (if P x then n_readAt (g x) = Some now else g x = x)" for x
  proof (cases "P x")
    case True
    with gx [of x] have cols: "(g x)\<lparr>n_createdAt := 0, n_updatedAt := 0\<rparr> =
        (mark_read_at now x)\<lparr>n_createdAt := 0, n_updatedAt := 0\<rparr>" by (simp add: notification_entity_def)
    from True arg_cong [where f = n_id, OF cols] arg_cong [where f = subject, OF cols]
      arg_cong [where f = n_readAt, OF cols] arg_cong [where f = n_deletedAt, OF cols]
    show ?thesis by (simp add: mark_read_at_def subject_def pending_def)
  next
    case False
    with gx [of x] show ?thesis by simp
  qed
  with g show ?thesis by blast
qed

lemma notification_killed:
  assumes "killed notification_entity x y"
  shows "n_id y = n_id x \<and> subject y = subject x \<and> \<not> pending y"
proof -
  from assms have cols: "e_cols notification_entity (e_kill notification_entity y) =
      e_cols notification_entity (e_kill notification_entity x)" and "n_id y = n_id x" "n_deletedAt y \<noteq> None"
    by (simp_all add: killed_def)
  from arg_cong [where f = subject, OF cols] this(2,3)
  show ?thesis by (simp add: notification_entity_def subject_def pending_def)
qed

text \<open>Calls for a tenant: the listener handling an event of the tenant, and the feed's methods.\<close>

inductive notification_step :: "env \<Rightarrow> uuid \<Rightarrow> world \<Rightarrow> world \<Rightarrow> bool" for E :: env where
  not_dispatch: "handleDispatch E payload w = (r, w') \<Longrightarrow> ne_tenantId payload = T \<Longrightarrow> notification_step E T w w'"
| not_feed: "findFeed E T R query w = (r', w') \<Longrightarrow> notification_step E T w w'"
| not_unread: "getUnreadCount E T R w = (r'', w') \<Longrightarrow> notification_step E T w w'"
| not_read: "markRead E now T R i w = (r, w') \<Longrightarrow> notification_step E T w w'"
| not_readAll: "markAllRead E now T R w = (r'', w') \<Longrightarrow> notification_step E T w w'"
| not_remove: "notification_remove E T R i w = (r, w') \<Longrightarrow> notification_step E T w w'"

definition notification_advances :: "uuid \<Rightarrow> world \<Rightarrow> world \<Rightarrow> bool" where
  "notification_advances T w w' \<longleftrightarrow> notification_inv w' \<and>
     {#n \<in># mset (w_notifications w'). n_tenantId n \<noteq> T#} = {#n \<in># mset (w_notifications w). n_tenantId n \<noteq> T#}"

lemma notification_refl: "notification_inv w \<Longrightarrow> notification_advances T w w"
  by (simp add: notification_advances_def)

lemma tenant_of_subject: "subject x = subject y \<Longrightarrow> n_tenantId x = n_tenantId y"
  by (simp add: subject_def)

lemma mapped_advances:
  assumes inv: "notification_inv w" and m: "mset t' = image_mset g (mset (w_notifications w))"
    and g: "\<And>n. n_id (g n) = n_id n \<and> subject (g n) = subject n \<and> (pending (g n) \<longrightarrow> pending n)"
    and others: "\<And>n. n_tenantId n \<noteq> T \<Longrightarrow> g n = n"
  shows "notification_advances T w (w\<lparr>w_notifications := t'\<rparr>)"
proof -
  have T: "n_tenantId (g n) = n_tenantId n" for n using g [of n] by (auto dest: tenant_of_subject)
  have "{#n \<in># mset t'. n_tenantId n \<noteq> T#} = image_mset g {#n \<in># mset (w_notifications w). n_tenantId n \<noteq> T#}"
    by (simp add: m filter_mset_image_mset T)
  also have "\<dots> = image_mset (\<lambda>n. n) {#n \<in># mset (w_notifications w). n_tenantId n \<noteq> T#}"
    using others by (intro image_mset_cong) auto
  finally show ?thesis
    using weaker_inv [OF inv m g] by (simp add: notification_advances_def notification_inv_def)
qed

lemma mark_advances:
  assumes ndb: "repository notification_entity (notificationOrm E)" and inv: "notification_inv w"
    and run: "update_where (notificationRepo E) (mark_read_at now) P w = (r, w')"
    and P: "\<And>n. P n \<Longrightarrow> n_tenantId n = T"
  shows "notification_advances T w w'"
proof (cases r)
  case (Inl e)
  with run notification_refl [OF inv] show ?thesis by (simp add: update_where_Inl)
next
  case (Inr n)
  with run obtain t' where s: "o_update (notificationOrm E) (mark_read_at now) P (w_notifications w) = Inr (n, t')"
    and w': "w' = w\<lparr>w_notifications := t'\<rparr>" by (auto simp: update_where_Inr notificationRepo_def)
  from marked [OF ndb s] obtain g where m: "mset t' = image_mset g (mset (w_notifications w))"
    and g: "\<And>x. n_id (g x) = n_id x \<and> subject (g x) = subject x \<and> (pending (g x) \<longrightarrow> pending x) \<and>
      n_deletedAt (g x) = n_deletedAt x \<and> (if P x then n_readAt (g x) = Some now else g x = x)" by blast
  have "g x = x" if "n_tenantId x \<noteq> T" for x using g [of x] P [of x] that by (cases "P x") auto
  with mapped_advances [OF inv m] g w' show ?thesis by blast
qed

lemma remove_advances:
  assumes ndb: "repository notification_entity (notificationOrm E)" and inv: "notification_inv w"
    and run: "soft_remove (notificationRepo E) P w = (r, w')" and P: "\<And>n. P n \<Longrightarrow> n_tenantId n = T"
  shows "notification_advances T w w'"
proof (cases r)
  case (Inl e)
  with run notification_refl [OF inv] show ?thesis by (simp add: soft_remove_Inl)
next
  case (Inr n)
  with run obtain t' where s: "o_soft_remove (notificationOrm E) P (w_notifications w) = Inr (n, t')"
    and w': "w' = w\<lparr>w_notifications := t'\<rparr>" by (auto simp: soft_remove_Inr notificationRepo_def)
  from repository.remove_rows [OF ndb s] obtain g where m: "mset t' = image_mset g (mset (w_notifications w))"
    and gx: "\<And>x. if P x then killed notification_entity x (g x) else g x = x" by blast
  have g: "n_id (g x) = n_id x \<and> subject (g x) = subject x \<and> (pending (g x) \<longrightarrow> pending x)" for x
    using gx [of x] notification_killed [of x "g x"] by (cases "P x") auto
  have "g x = x" if "n_tenantId x \<noteq> T" for x using gx [of x] P [of x] that by (cases "P x") auto
  with mapped_advances [OF inv m g] w' show ?thesis by blast
qed

lemma dispatch_advances:
  assumes ndb: "repository notification_entity (notificationOrm E)" and udb: "repository user_entity (userOrm E)"
    and inv: "notification_inv w" and run: "handleDispatch E payload w = (r, w')"
  shows "notification_advances (ne_tenantId payload) w w'"
proof -
  have "ids_ok notification_entity (w_notifications w)" using inv by (simp add: notification_inv_def)
  from handleDispatch_run [OF ndb udb this run] show ?thesis
  proof (elim conjE disjE exE)
    assume "w' = w"
    then show ?thesis using notification_refl [OF inv] by simp
  next
    fix new targets
    assume w': "mset (w_notifications w') = mset new + mset (w_notifications w)"
      "map blank new = map (notification_for payload) targets" "distinct targets" "set targets = targets_of payload w"
      "ids_ok notification_entity (w_notifications w')"
    have "n_tenantId n = ne_tenantId payload" if "n \<in> set new" for n
    proof -
      from that have "blank n \<in> set (map blank new)" by simp
      then show ?thesis unfolding w'(2) by (auto simp: notification_for_def dest!: arg_cong [where f = n_tenantId])
    qed
    then have "{#n \<in># mset new. n_tenantId n \<noteq> ne_tenantId payload#} = {#}"
      by simp
    with w' dispatch_inv [OF inv w'(1-4)] show ?thesis
      by (simp add: notification_advances_def notification_inv_def)
  qed
qed

lemma notification_step_advances:
  assumes ndb: "repository notification_entity (notificationOrm E)" and udb: "repository user_entity (userOrm E)"
    and "notification_step E T w w'" and inv: "notification_inv w"
  shows "notification_advances T w w'"
  using assms(3)
proof cases
  case not_dispatch
  with dispatch_advances [OF ndb udb inv] show ?thesis by blast
next
  case (not_feed R query r')
  then have "w' = w"
    by (cases r') (auto simp: findFeed_def notification_assertDateRange_def flow_simps inv_simps)
  then show ?thesis using notification_refl [OF inv] by simp
next
  case not_unread
  then show ?thesis using notification_refl [OF inv] by (simp add: getUnreadCount_def count_rows_eq)
next
  case (not_read now R i r)
  from not_read [unfolded markRead_def] show ?thesis
  proof (cases rule: andThenE)
    case (err e)
    from mark_advances [OF ndb inv err(1)] show ?thesis by simp
  next
    case (ok n w1)
    then have "w' = w1"
      by (auto simp: ret_eq split: if_splits elim!: andThenE dest!: find_or_throw_state)
    with mark_advances [OF ndb inv ok(1)] show ?thesis by simp
  qed
next
  case not_readAll
  from mark_advances [OF ndb inv this [unfolded markAllRead_def]] show ?thesis by simp
next
  case (not_remove R i r)
  from not_remove [unfolded notification_remove_def] show ?thesis
  proof (cases rule: andThenE)
    case (err e)
    from remove_advances [OF ndb inv err(1)] show ?thesis by simp
  next
    case (ok n w1)
    then have "w' = w1" by (auto simp: ensure_def ret_eq throw_eq split: if_splits)
    with remove_advances [OF ndb inv ok(1)] show ?thesis by simp
  qed
qed

lemma notification_service:
  assumes "repository notification_entity (notificationOrm E)" and "repository user_entity (userOrm E)"
  shows "tenant_service (notification_step E) w_notifications n_tenantId notification_inv"
  using notification_step_advances [OF assms] by unfold_locales (simp_all add: notification_advances_def)

interpretation notifications: tenant_service "notification_step mem_env" w_notifications n_tenantId notification_inv
  by (rule notification_service) simp_all

section \<open>Properties\<close>


definition sample_manager :: "uuid \<Rightarrow> user_role \<Rightarrow> bool \<Rightarrow> user" where
  "sample_manager i role active = \<lparr>u_id = i, u_tenantId = js ''A'', u_email = i, u_firstName = i, u_lastName = i,
     u_passwordHash = [], u_role = role, u_isActive = active, u_createdAt = 0, u_updatedAt = 0, u_deletedAt = None\<rparr>"

definition staffed :: world where
  "staffed = empty_world\<lparr>w_users := [sample_manager (js ''m'') WAREHOUSE_MANAGER True,
     sample_manager (js ''x'') WAREHOUSE_MANAGER False, sample_manager (js ''c'') CUSTOMER True]\<rparr>"

definition sample_movement :: stock_movement where
  "sample_movement = \<lparr>sm_tenantId = js ''A'', sm_stockLevelId = js ''L'', sm_variantId = js ''V'',
     sm_warehouseId = js ''W'', sm_sku = Some (js ''TSH''),
     sm_before = \<lparr>ss_availableQuantity = 9, ss_reservedQuantity = 0\<rparr>,
     sm_after = \<lparr>ss_availableQuantity = 4, ss_reservedQuantity = 0\<rparr>, sm_safetyThreshold = 5\<rparr>"

definition alerted :: world where
  "alerted = snd (handleDispatch mem_env (dispatch_event (low_stock_input sample_movement)) staffed)"

lemma staffed_inv: "notification_inv staffed"
  by (simp add: notification_inv_def staffed_def empty_world_def ids_ok_def pending_unique_def)

lemma alerted_history: "history (notification_step mem_env) [js ''A''] staffed alerted"
proof -
  have "ne_tenantId (dispatch_event (low_stock_input sample_movement)) = js ''A''"
    by (simp add: dispatch_event_def low_stock_input_def Let_def sample_movement_def)
  then show ?thesis
    unfolding alerted_def by (auto intro!: notification_step.not_dispatch prod.collapse [symmetric])
qed


text \<open>
  Through any history of dispatches, reads, mark-as-read and deletions, of any tenants, one
  after the other: no user ever has two unread notifications of one tenant, type and
  deduplication key, and the notifications of a tenant without a call are exactly what they were.
\<close>

theorem notification_history:
  assumes "repository notification_entity (notificationOrm E)" and "repository user_entity (userOrm E)"
    and "history (notification_step E) Ts w w'" and "notification_inv w"
  shows "(\<forall>x \<in> set (w_notifications w'). \<forall>y \<in> set (w_notifications w'). pending x \<longrightarrow> pending y \<longrightarrow>
      subject x = subject y \<longrightarrow> x = y) \<and>
    (T \<notin> set Ts \<longrightarrow> {#n \<in># mset (w_notifications w'). n_tenantId n = T#} =
      {#n \<in># mset (w_notifications w). n_tenantId n = T#})"
proof -
  note service = notification_service [OF assms(1,2)]
  have inv: "notification_inv w'" using tenant_service.history_inv [OF service assms(3,4)] .
  then have "n_id x = n_id y \<longrightarrow> x = y" if "x \<in> set (w_notifications w')" "y \<in> set (w_notifications w')" for x y
    using that by (auto simp: notification_inv_def ids_ok_def distinct_map dest: inj_onD)
  moreover from inv have "pending_unique (w_notifications w')" by (simp add: notification_inv_def)
  ultimately have "\<forall>x \<in> set (w_notifications w'). \<forall>y \<in> set (w_notifications w'). pending x \<longrightarrow> pending y \<longrightarrow>
      subject x = subject y \<longrightarrow> x = y" unfolding pending_unique_def by blast
  with tenant_service.history_tenant [OF service assms(3,4), of T] show ?thesis by blast
qed

lemma notification_history_witness:
  "let w' = snd (handleDispatch mem_env (dispatch_event (low_stock_input sample_movement)) alerted)
   in inj_on subject {x \<in> set (w_notifications w'). pending x}"
proof -
  let ?last = "snd (handleDispatch mem_env (dispatch_event (low_stock_input sample_movement)) alerted)"
  have "ne_tenantId (dispatch_event (low_stock_input sample_movement)) = js ''A''"
    by (simp add: dispatch_event_def low_stock_input_def Let_def sample_movement_def)
  then have "notification_step mem_env (js ''A'') alerted ?last"
    by (auto intro!: notification_step.not_dispatch prod.collapse [symmetric])
  moreover from alerted_history have "notification_step mem_env (js ''A'') staffed alerted" by simp
  ultimately have "history (notification_step mem_env) [js ''A'', js ''A''] staffed ?last" by auto
  from notification_history [OF _ _ this staffed_inv] show ?thesis unfolding Let_def inj_on_def by simp
qed

text \<open>
  Marking all of a user's notifications as read returns the number that was unread, leaves
  none unread, and touches no notification of another user or tenant.
\<close>

theorem markAllRead_clears:
  assumes ndb: "repository notification_entity (notificationOrm E)"
    and run: "markAllRead E now T R w = (Inr n, w')"
  shows "getUnreadCount E T R w = (Inr n, w) \<and> getUnreadCount E T R w' = (Inr 0, w') \<and>
    {#x \<in># mset (w_notifications w'). \<not> (n_tenantId x = T \<and> n_recipientId x = R)#} =
    {#x \<in># mset (w_notifications w). \<not> (n_tenantId x = T \<and> n_recipientId x = R)#}"
proof -
  let ?P = "\<lambda>n. (n_tenantId n = T \<and> n_recipientId n = R) \<and> n_readAt n = None \<and> n_deletedAt n = None"
  from run obtain t' where s: "o_update (notificationOrm E) (mark_read_at now) ?P (w_notifications w) = Inr (n, t')"
    and w': "w_notifications w' = t'" by (auto simp: markAllRead_def update_where_Inr notificationRepo_def)
  from marked [OF ndb s] obtain g where m: "mset t' = image_mset g (mset (w_notifications w))"
    and g: "\<And>x. n_id (g x) = n_id x \<and> subject (g x) = subject x \<and> (pending (g x) \<longrightarrow> pending x) \<and>
      n_deletedAt (g x) = n_deletedAt x \<and> (if ?P x then n_readAt (g x) = Some now else g x = x)" by blast
  have owner: "n_tenantId (g x) = n_tenantId x \<and> n_recipientId (g x) = n_recipientId x" for x
    using g [of x] by (simp add: subject_def)
  have count: "getUnreadCount E T R v = (Inr (size {#x \<in># mset (w_notifications v). ?P x#}), v)" for v
  proof -
    have P: "(n_deletedAt x = None \<and> buildFeedQuery E T R no_notification_query x \<and> n_readAt x = None) = ?P x" for x
      by (auto simp: buildFeedQuery_def no_notification_query_def opt_filter_def truthy_def)
    show ?thesis
      using repository.select_length [OF ndb, of "\<lambda>x. buildFeedQuery E T R no_notification_query x \<and> n_readAt x = None"
          "w_notifications v"]
      by (simp add: getUnreadCount_def count_rows_eq P) (simp flip: mset_filter)
  qed
  have "n = size {#x \<in># mset (w_notifications w). ?P x#}" by (rule repository.update_count [OF ndb s])
  moreover have "{#x \<in># mset t'. ?P x#} = {#}"
  proof -
    have "\<not> ?P (g x)" for x using g [of x] owner [of x] by (cases "?P x") auto
    then show ?thesis by (auto simp: m)
  qed
  moreover have "{#x \<in># mset t'. \<not> (n_tenantId x = T \<and> n_recipientId x = R)#} =
    {#x \<in># mset (w_notifications w). \<not> (n_tenantId x = T \<and> n_recipientId x = R)#}"
  proof -
    have "{#x \<in># mset t'. \<not> (n_tenantId x = T \<and> n_recipientId x = R)#} =
        image_mset g {#x \<in># mset (w_notifications w). \<not> (n_tenantId x = T \<and> n_recipientId x = R)#}"
      by (simp add: m filter_mset_image_mset owner)
    also have "\<dots> = image_mset (\<lambda>x. x) {#x \<in># mset (w_notifications w). \<not> (n_tenantId x = T \<and> n_recipientId x = R)#}"
    proof (rule image_mset_cong)
      fix x assume "x \<in># {#x \<in># mset (w_notifications w). \<not> (n_tenantId x = T \<and> n_recipientId x = R)#}"
      then have "\<not> ?P x" by auto
      then show "g x = x" using g [of x] by simp
    qed
    finally show ?thesis by simp
  qed
  ultimately show ?thesis by (simp add: count w')
qed

lemma markAllRead_clears_witness:
  "\<exists>w'. markAllRead mem_env 7 (js ''A'') (js ''m'') alerted = (Inr 1, w') \<and>
    getUnreadCount mem_env (js ''A'') (js ''m'') w' = (Inr 0, w')"
proof -
  have "fst (markAllRead mem_env 7 (js ''A'') (js ''m'') alerted) = Inr 1" by code_simp
  then obtain w' where run: "markAllRead mem_env 7 (js ''A'') (js ''m'') alerted = (Inr 1, w')"
    by (metis prod.collapse)
  from markAllRead_clears [OF _ run] run show ?thesis by simp
qed

text \<open>
  C24: A stock movement alerts exactly when it takes the available quantity from above the safety
  threshold to it or below: then one dispatch event for the tenant's warehouse managers and
  administrators is published, keyed by variant and warehouse; any other movement publishes
  nothing.
\<close>

theorem handleStockMovement_threshold:
  assumes "sm_tenantId movement \<noteq> []"
  shows "handleStockMovement movement w =
    (if ss_availableQuantity (sm_before movement) > sm_safetyThreshold movement \<and>
        ss_availableQuantity (sm_after movement) \<le> sm_safetyThreshold movement
     then (Inr (), w\<lparr>w_bus := w_bus w @ [NotificationDispatchEvent (dispatch_event (low_stock_input movement))]\<rparr>)
     else (Inr (), w)) \<and>
    ne_tenantId (dispatch_event (low_stock_input movement)) = sm_tenantId movement \<and>
    ne_recipientIds (dispatch_event (low_stock_input movement)) = [] \<and>
    ne_recipientRoles (dispatch_event (low_stock_input movement)) = [WAREHOUSE_MANAGER, TENANT_ADMIN] \<and>
    truthy (ne_dedupKey (dispatch_event (low_stock_input movement))) =
      Some (sm_variantId movement @ js '':'' @ sm_warehouseId movement)"
proof -
  have "js '':'' \<noteq> []" by (simp add: js_def)
  then show ?thesis
    using assms by (auto simp: handleStockMovement_def crossedThreshold_def dispatch_def low_stock_input_def
        dispatch_event_def or_default_def Let_def emit_def modify_def ret_def truthy_def)
qed

lemma handleStockMovement_threshold_witness:
  "w_bus (snd (handleStockMovement sample_movement empty_world)) =
     [NotificationDispatchEvent (dispatch_event (low_stock_input sample_movement))]"
proof -
  have "sm_tenantId sample_movement \<noteq> []" by (simp add: sample_movement_def js_def)
  from handleStockMovement_threshold [OF this, of empty_world] show ?thesis
    by (simp add: sample_movement_def empty_world_def)
qed

text \<open>
  The check and the insert of the dispatch listener are separate statements. Two events of
  one subject whose handlers both check before either inserts leave a user with two unread
  notifications of that subject.
\<close>

theorem overlapping_dispatch_duplicates:
  "case dispatch_targets mem_env (dispatch_event (low_stock_input sample_movement)) staffed of
     (Inr targets, _) \<Rightarrow>
       (let rows = map (notification_for (dispatch_event (low_stock_input sample_movement))) targets;
            w1 = snd (save_many (notificationRepo mem_env) rows staffed);
            w2 = snd (save_many (notificationRepo mem_env) rows w1)
        in length (w_notifications w2) = 2 \<and> list_all pending (w_notifications w2) \<and>
           subject (hd (w_notifications w2)) = subject (last (w_notifications w2)))
   | _ \<Rightarrow> False"
  by code_simp

end
