(* ===== verification/Warehouse.thy ===== *)
theory Warehouse
  imports TenantService
begin

text \<open>
  Warehouses (\<open>src/warehouse/warehouse.service.ts\<close>): create, list, find, update, remove. The
  service asks for a name clash before it writes; the table declares no unique constraint.
\<close>

section \<open>The service\<close>

record create_warehouse_dto =
  cw_name :: jstring
  cw_location :: "jstring option"

text \<open>
  A partial update: \<open>None\<close> is an absent field; an optional field may also be an explicit
  \<open>null\<close>, which is \<open>Some None\<close> where the code tells the two apart.
\<close>

record update_warehouse_dto =
  uw_name :: "jstring option"
  uw_location :: "jstring option option"

record warehouse_query =
  wq_page :: "nat option"
  wq_limit :: "nat option"
  wq_search :: "jstring option"
  wq_sortBy :: jstring
  wq_sortOrder :: jstring

definition warehouse_name_taken :: jstring where
  "warehouse_name_taken = js ''A warehouse with this name already exists for this tenant''"

text \<open>\<open>assertNameUnique\<close>\<close>

definition warehouse_assertNameUnique ::
  "env \<Rightarrow> uuid \<Rightarrow> jstring \<Rightarrow> uuid option \<Rightarrow> (world, unit) act" where
  "warehouse_assertNameUnique E tenantId name excludeId =
     andThen (get_exists (warehouseRepo E) (\<lambda>w. wh_tenantId w = tenantId \<and> wh_name w = name \<and>
       wh_deletedAt w = None \<and> opt_filter (truthy excludeId) (\<lambda>i. wh_id w \<noteq> i)))
     (\<lambda>exists. if exists then throw (ConflictException warehouse_name_taken) else ret ())"

definition warehouse_create ::
  "env \<Rightarrow> audit_context option \<Rightarrow> uuid \<Rightarrow> create_warehouse_dto \<Rightarrow> (world, warehouse) act" where
  "warehouse_create E ctx tenantId dto =
     andThen (warehouse_assertNameUnique E tenantId (cw_name dto) None) (\<lambda>_.
     let warehouse = \<lparr> wh_id = no_id, wh_tenantId = tenantId, wh_name = cw_name dto,
           wh_location = cw_location dto, wh_createdAt = 0, wh_updatedAt = 0, wh_deletedAt = None \<rparr>
     in conflict_on_unique warehouse_name_taken (
          save_and_record (warehouseRepo E) ctx (\<lambda>saved. audit_input CREATE ET_WAREHOUSE (wh_id saved) None
            (Some (JObj [(''name'', JStr (wh_name saved)),
                         (''location'', jopt JStr (wh_location saved))]))) warehouse))"

definition warehouse_sortColumns :: "jstring \<Rightarrow> jstring option" where
  "warehouse_sortColumns sortBy =
     (if sortBy = js ''name'' then Some (js ''w.name'')
      else if sortBy = js ''created_at'' then Some (js ''w.created_at'')
      else if sortBy = js ''updated_at'' then Some (js ''w.updated_at'')
      else None)"

text \<open>An optional number in a template literal.\<close>

definition show_optional :: "nat option \<Rightarrow> jstring" where
  "show_optional x = (case x of None \<Rightarrow> js ''undefined'' | Some n \<Rightarrow> digits n)"

definition warehouse_matches :: "env \<Rightarrow> uuid \<Rightarrow> warehouse_query \<Rightarrow> warehouse \<Rightarrow> bool" where
  "warehouse_matches E tenantId query w \<longleftrightarrow>
     wh_tenantId w = tenantId \<and> wh_deletedAt w = None \<and>
     opt_filter (truthy (wq_search query)) (\<lambda>s. ilike E (wh_name w) (search_pattern s))"

definition warehouse_findAll ::
  "env \<Rightarrow> uuid \<Rightarrow> warehouse_query \<Rightarrow> (world, warehouse paginated) act" where
  "warehouse_findAll E tenantId query =
     (let page = or_default (wq_page query) 1;
          limit = or_default (wq_limit query) 20;
          skip = (page - 1) * limit
      in andThen (get_many_and_count (warehouseRepo E) (warehouse_matches E tenantId query)
           (order_clause (warehouse_sortColumns (wq_sortBy query)) (wq_sortOrder query))
           \<lparr>pg_skip = Some skip, pg_take = wq_limit query, pg_limit = None\<rparr>)
         (\<lambda>(data, total_rows).
         ret (paginated_response
           (\<lambda>p. js ''/api/v1/warehouses?page='' @ digits p @ js ''&limit='' @ show_optional (wq_limit query))
           data total_rows (pages_or_one total_rows limit) page limit)))"

definition warehouse_findOne :: "env \<Rightarrow> uuid \<Rightarrow> uuid \<Rightarrow> (world, warehouse) act" where
  "warehouse_findOne E tenantId i =
     andThen (find_one (warehouseRepo E)
       (\<lambda>w. wh_tenantId w = tenantId \<and> wh_id w = i \<and> wh_deletedAt w = None))
     (\<lambda>found. case found of
        None \<Rightarrow> throw (NotFoundException
          (js ''Warehouse with ID \"'' @ i @ js ''\" not found for tenant '' @ tenantId))
      | Some warehouse \<Rightarrow> ret warehouse)"

definition warehouse_values :: "warehouse \<Rightarrow> jval" where
  "warehouse_values w =
     JObj [(''name'', JStr (wh_name w)), (''location'', jnullable JStr (wh_location w))]"

definition warehouse_update ::
  "env \<Rightarrow> audit_context option \<Rightarrow> uuid \<Rightarrow> uuid \<Rightarrow> update_warehouse_dto \<Rightarrow> (world, warehouse) act" where
  "warehouse_update E ctx tenantId i dto =
     andThen (warehouse_findOne E tenantId i) (\<lambda>warehouse.
     let oldValues = warehouse_values warehouse in
     andThen (case truthy (uw_name dto) of
         Some name \<Rightarrow> andThen (warehouse_assertNameUnique E tenantId name (Some i))
           (\<lambda>_. ret (warehouse\<lparr>wh_name := name\<rparr>))
       | None \<Rightarrow> ret warehouse) (\<lambda>warehouse.
     let warehouse = (case uw_location dto of
           None \<Rightarrow> warehouse | Some location \<Rightarrow> warehouse\<lparr>wh_location := location\<rparr>)
     in conflict_on_unique warehouse_name_taken (
          save_and_record (warehouseRepo E) ctx (\<lambda>saved. audit_input UPDATE ET_WAREHOUSE (wh_id saved)
            (Some oldValues) (Some (warehouse_values saved))) warehouse)))"

definition warehouse_remove ::
  "env \<Rightarrow> audit_context option \<Rightarrow> uuid \<Rightarrow> uuid \<Rightarrow> (world, unit) act" where
  "warehouse_remove E ctx tenantId i =
     andThen (warehouse_findOne E tenantId i) (\<lambda>warehouse.
     let oldValues = warehouse_values warehouse in
     remove_and_record (warehouseRepo E) ctx
       (audit_input DELETE ET_WAREHOUSE (wh_id warehouse) (Some oldValues) None)
       (\<lambda>w. wh_id w = wh_id warehouse))"

section \<open>Lemmas\<close>

lemma warehouse_findOne_Inr:
  assumes db: "repository warehouse_entity (warehouseOrm E)"
    and run: "warehouse_findOne E tenantId i w = (Inr x, w')"
  shows "w' = w \<and> x \<in> set (w_warehouses w) \<and> wh_tenantId x = tenantId \<and> wh_id x = i \<and>
    wh_deletedAt x = None"
proof -
  from run have f: "find_one (warehouseRepo E)
      (\<lambda>w. wh_tenantId w = tenantId \<and> wh_id w = i \<and> wh_deletedAt w = None) w = (Inr (Some x), w')"
    by (auto simp: warehouse_findOne_def flow_simps split: option.splits)
  from repository.find_one_Some [OF db f] show ?thesis by (simp add: repos)
qed

lemma warehouse_findOne_Inl:
  assumes db: "repository warehouse_entity (warehouseOrm E)"
    and run: "warehouse_findOne E tenantId i w = (Inl e, w')"
  shows "w' = w \<and> e = NotFoundException
      (js ''Warehouse with ID \"'' @ i @ js ''\" not found for tenant '' @ tenantId) \<and>
    (\<forall>x \<in> set (w_warehouses w). \<not> (wh_tenantId x = tenantId \<and> wh_id x = i \<and> wh_deletedAt x = None))"
proof -
  from run have f: "find_one (warehouseRepo E)
      (\<lambda>w. wh_tenantId w = tenantId \<and> wh_id w = i \<and> wh_deletedAt w = None) w = (Inr None, w')"
    and "w' = w" and "e = NotFoundException
      (js ''Warehouse with ID \"'' @ i @ js ''\" not found for tenant '' @ tenantId)"
    by (auto simp: warehouse_findOne_def flow_simps find_one_eq split: option.splits list.splits)
  with repository.find_one_None [OF db f] show ?thesis
    by (auto simp: repos warehouse_entity_def)
qed

lemma warehouse_assertNameUnique_state:
  "warehouse_assertNameUnique E tenantId name excl w = (r, w') \<Longrightarrow> w' = w"
  by (cases r) (auto simp: warehouse_assertNameUnique_def flow_simps inv_simps split: if_splits)

lemma warehouse_assertNameUnique_Inr:
  assumes db: "repository warehouse_entity (warehouseOrm E)"
    and run: "warehouse_assertNameUnique E tenantId name excl w = (Inr u, w')"
  shows "w' = w \<and> (\<forall>x \<in> set (w_warehouses w). wh_deletedAt x = None \<longrightarrow> wh_tenantId x = tenantId \<longrightarrow>
    wh_name x = name \<longrightarrow> (\<exists>i. truthy excl = Some i \<and> wh_id x = i))"
proof -
  have q: "get_exists (warehouseRepo E) P w =
      (Inr (\<exists>r \<in> set (w_warehouses w). wh_deletedAt r = None \<and> P r), w)" for P
    using repository.exists_iff [OF db, of "warehouseRepo E" P w]
    by (simp add: repos warehouse_entity_def)
  from run show ?thesis
    by (auto simp: warehouse_assertNameUnique_def flow_simps q opt_filter_def
        split: if_splits option.splits)
qed

text \<open>The name of a live row, per tenant, is a key of the table.\<close>

definition warehouse_key :: "warehouse \<Rightarrow> uuid \<times> jstring" where
  "warehouse_key w = (wh_tenantId w, wh_name w)"

lemma warehouse_keyed:
  "repository warehouse_entity db \<Longrightarrow> keyed_repository warehouse_entity db warehouse_key"
proof (intro keyed_repository.intro keyed_repository_axioms.intro)
  fix x y :: warehouse and i
  assume "e_cols warehouse_entity x = e_cols warehouse_entity (e_set_id warehouse_entity i y)"
  from arg_cong [where f = wh_name, OF this] arg_cong [where f = wh_tenantId, OF this]
  show "warehouse_key x = warehouse_key y"
    by (simp add: warehouse_entity_def warehouse_key_def)
qed

definition warehouse_names_unique :: "world \<Rightarrow> bool" where
  "warehouse_names_unique w \<longleftrightarrow> live_key_unique warehouse_entity warehouse_key (w_warehouses w)"

text \<open>
  What the writing methods do to the state, however they end: nothing, or one saved (removed)
  row and at most one event.
\<close>

definition new_warehouse :: "uuid \<Rightarrow> create_warehouse_dto \<Rightarrow> warehouse" where
  "new_warehouse tenantId dto = \<lparr> wh_id = no_id, wh_tenantId = tenantId, wh_name = cw_name dto,
     wh_location = cw_location dto, wh_createdAt = 0, wh_updatedAt = 0, wh_deletedAt = None \<rparr>"

definition warehouse_created :: "warehouse \<Rightarrow> audit_input" where
  "warehouse_created x = audit_input CREATE ET_WAREHOUSE (wh_id x) None
     (Some (JObj [(''name'', JStr (wh_name x)), (''location'', jopt JStr (wh_location x))]))"

lemma warehouse_create_eq:
  "warehouse_create E ctx tenantId dto =
     andThen (warehouse_assertNameUnique E tenantId (cw_name dto) None) (\<lambda>_.
       conflict_on_unique warehouse_name_taken
         (save_and_record (warehouseRepo E) ctx warehouse_created (new_warehouse tenantId dto)))"
  by (simp add: warehouse_create_def new_warehouse_def warehouse_created_def [abs_def] Let_def)

lemma warehouse_create_Inr:
  assumes "warehouse_create E ctx tenantId dto w = (Inr x, w')"
  shows "warehouse_assertNameUnique E tenantId (cw_name dto) None w = (Inr (), w) \<and>
    context_tenant ctx \<noteq> None \<and>
    (\<exists>t'. o_save (warehouseOrm E) (new_warehouse tenantId dto) (w_warehouses w) = Inr (x, t') \<and>
      w' = emitted (audit_events ctx (warehouse_created x)) (w\<lparr>w_warehouses := t'\<rparr>))"
  using assms unfolding warehouse_create_eq
proof (cases rule: andThenE)
  case (ok u w1)
  from ok warehouse_assertNameUnique_state [OF ok(1)] show ?thesis
    by (auto simp: conflict_on_unique_Inr save_and_record_Inr repos)
qed simp

lemma warehouse_create_state:
  assumes "warehouse_create E ctx tenantId dto w = (r, w')"
  shows "w' = w \<or> (\<exists>x t' es.
    warehouse_assertNameUnique E tenantId (cw_name dto) None w = (Inr (), w) \<and>
    o_save (warehouseOrm E) (new_warehouse tenantId dto) (w_warehouses w) = Inr (x, t') \<and>
    w' = emitted es (w\<lparr>w_warehouses := t'\<rparr>))"
  using assms unfolding warehouse_create_eq
proof (cases rule: andThenE)
  case (ok u w1)
  note [simp] = warehouse_assertNameUnique_state [OF ok(1)]
  from conflict_state [OF ok(2)] obtain r0 where
    "save_and_record (warehouseRepo E) ctx warehouse_created (new_warehouse tenantId dto) w = (r0, w')"
    by auto
  from save_and_record_state [OF this] ok(1) show ?thesis by (auto simp: repos)
qed (auto dest: warehouse_assertNameUnique_state)

definition renamed :: "env \<Rightarrow> uuid \<Rightarrow> uuid \<Rightarrow> update_warehouse_dto \<Rightarrow> warehouse \<Rightarrow> (world, warehouse) act" where
  "renamed E tenantId i dto x = (case truthy (uw_name dto) of
     Some name \<Rightarrow> andThen (warehouse_assertNameUnique E tenantId name (Some i))
       (\<lambda>_. ret (x\<lparr>wh_name := name\<rparr>))
   | None \<Rightarrow> ret x)"

definition relocated :: "update_warehouse_dto \<Rightarrow> warehouse \<Rightarrow> warehouse" where
  "relocated dto x = (case uw_location dto of None \<Rightarrow> x | Some location \<Rightarrow> x\<lparr>wh_location := location\<rparr>)"

lemma warehouse_update_eq:
  "warehouse_update E ctx tenantId i dto =
     andThen (warehouse_findOne E tenantId i) (\<lambda>old.
     andThen (renamed E tenantId i dto old) (\<lambda>x.
     conflict_on_unique warehouse_name_taken (save_and_record (warehouseRepo E) ctx
       (\<lambda>saved. audit_input UPDATE ET_WAREHOUSE (wh_id saved) (Some (warehouse_values old))
         (Some (warehouse_values saved))) (relocated dto x))))"
  by (simp add: warehouse_update_def renamed_def [abs_def] relocated_def [abs_def] Let_def)

lemma renamed_state: "renamed E tenantId i dto x w = (r, w') \<Longrightarrow> w' = w"
  by (auto simp: renamed_def ret_eq elim!: andThenE dest: warehouse_assertNameUnique_state
      split: option.splits)

lemma renamed_Inr:
  assumes "renamed E tenantId i dto x w = (Inr y, w')"
  shows "wh_id y = wh_id x \<and> wh_tenantId y = wh_tenantId x \<and> wh_location y = wh_location x \<and>
    wh_deletedAt y = wh_deletedAt x \<and> wh_name y = or_default (truthy (uw_name dto)) (wh_name x) \<and>
    (wh_name y = wh_name x \<or>
      warehouse_assertNameUnique E tenantId (wh_name y) (Some i) w = (Inr (), w))"
  using assms
  by (auto simp: renamed_def ret_eq or_default_def elim!: andThenE
      dest: warehouse_assertNameUnique_state split: option.splits)

lemma relocated_simps [simp]:
  "wh_id (relocated dto x) = wh_id x" "wh_tenantId (relocated dto x) = wh_tenantId x"
  "wh_name (relocated dto x) = wh_name x" "wh_deletedAt (relocated dto x) = wh_deletedAt x"
  "wh_location (relocated dto x) = or_default (uw_location dto) (wh_location x)"
  by (auto simp: relocated_def or_default_def split: option.splits)

lemma warehouse_update_state:
  assumes db: "repository warehouse_entity (warehouseOrm E)"
    and run: "warehouse_update E ctx tenantId i dto w = (r, w')"
  shows "w' = w \<or> (\<exists>old row x t' es. old \<in> set (w_warehouses w) \<and> wh_tenantId old = tenantId \<and>
    wh_id old = i \<and> wh_deletedAt old = None \<and>
    wh_id row = i \<and> wh_tenantId row = tenantId \<and>
    (wh_name row = wh_name old \<or>
      warehouse_assertNameUnique E tenantId (wh_name row) (Some i) w = (Inr (), w)) \<and>
    o_save (warehouseOrm E) row (w_warehouses w) = Inr (x, t') \<and>
    w' = emitted es (w\<lparr>w_warehouses := t'\<rparr>))"
  using run unfolding warehouse_update_eq
proof (cases rule: andThenE)
  case err
  then show ?thesis using warehouse_findOne_Inl [OF db] by blast
next
  case (ok old w1)
  from warehouse_findOne_Inr [OF db ok(1)] have w1: "w1 = w"
    and old: "old \<in> set (w_warehouses w)" "wh_tenantId old = tenantId" "wh_id old = i"
      "wh_deletedAt old = None" by auto
  from ok(2) show ?thesis
  proof (cases rule: andThenE)
    case err
    then show ?thesis using renamed_state w1 by blast
  next
    case (ok y w2)
    from renamed_state [OF ok(1)] w1 have w2: "w2 = w" by simp
    from conflict_state [OF ok(2)] obtain r0 where
      "save_and_record (warehouseRepo E) ctx (\<lambda>saved. audit_input UPDATE ET_WAREHOUSE (wh_id saved)
        (Some (warehouse_values old)) (Some (warehouse_values saved))) (relocated dto y) w = (r0, w')"
      using w2 by auto
    from save_and_record_state [OF this] have "w' = w \<or> (\<exists>x t' es.
        o_save (warehouseOrm E) (relocated dto y) (w_warehouses w) = Inr (x, t') \<and>
        w' = emitted es (w\<lparr>w_warehouses := t'\<rparr>))"
      by (auto simp: repos)
    moreover have "wh_id (relocated dto y) = i \<and> wh_tenantId (relocated dto y) = tenantId \<and>
        (wh_name (relocated dto y) = wh_name old \<or>
          warehouse_assertNameUnique E tenantId (wh_name (relocated dto y)) (Some i) w = (Inr (), w))"
      using renamed_Inr [OF ok(1)] old w1 by (auto simp only: relocated_simps)
    ultimately show ?thesis using old by blast
  qed
qed

lemma warehouse_remove_state:
  assumes db: "repository warehouse_entity (warehouseOrm E)"
    and run: "warehouse_remove E ctx tenantId i w = (r, w')"
  shows "w' = w \<or> (\<exists>old n t' es. old \<in> set (w_warehouses w) \<and> wh_tenantId old = tenantId \<and>
    wh_id old = i \<and> wh_deletedAt old = None \<and>
    o_soft_remove (warehouseOrm E) (\<lambda>x. wh_id x = i) (w_warehouses w) = Inr (n, t') \<and>
    w' = emitted es (w\<lparr>w_warehouses := t'\<rparr>))"
  using run unfolding warehouse_remove_def Let_def
proof (cases rule: andThenE)
  case err
  then show ?thesis using warehouse_findOne_Inl [OF db] by blast
next
  case (ok old w1)
  from warehouse_findOne_Inr [OF db ok(1)] have "w1 = w" "old \<in> set (w_warehouses w)"
    "wh_tenantId old = tenantId" "wh_id old = i" "wh_deletedAt old = None" by auto
  with remove_and_record_state [OF ok(2)] show ?thesis unfolding repos by simp blast
qed

section \<open>The contract of a tenant service\<close>

lemma warehouse_saved:
  assumes "repository warehouse_entity db" and "o_save db r t = Inr (x, t')"
  shows "wh_tenantId x = wh_tenantId r \<and> wh_name x = wh_name r \<and> wh_location x = wh_location r \<and>
    wh_deletedAt x = wh_deletedAt r"
proof -
  from repository.save_cols [OF assms] have cols: "x\<lparr>wh_createdAt := 0, wh_updatedAt := 0\<rparr> =
      r\<lparr>wh_id := wh_id x, wh_createdAt := 0, wh_updatedAt := 0\<rparr>"
    by (simp add: warehouse_entity_def)
  from arg_cong [where f = wh_tenantId, OF cols] arg_cong [where f = wh_name, OF cols]
    arg_cong [where f = wh_location, OF cols] arg_cong [where f = wh_deletedAt, OF cols]
  show ?thesis by simp
qed

lemma warehouse_killed:
  assumes "killed warehouse_entity x y"
  shows "wh_tenantId y = wh_tenantId x \<and> wh_id y = wh_id x \<and> wh_deletedAt y \<noteq> None"
proof -
  from assms have cols: "e_cols warehouse_entity (e_kill warehouse_entity y) =
      e_cols warehouse_entity (e_kill warehouse_entity x)" and "wh_id y = wh_id x" "wh_deletedAt y \<noteq> None"
    by (simp_all add: killed_def warehouse_entity_def)
  with arg_cong [where f = wh_tenantId, OF cols] show ?thesis by (simp add: warehouse_entity_def)
qed

inductive warehouse_step :: "env \<Rightarrow> uuid \<Rightarrow> world \<Rightarrow> world \<Rightarrow> bool" for E :: env where
  step_create: "warehouse_create E ctx T dto w = (r, w') \<Longrightarrow> warehouse_step E T w w'"
| step_findAll: "warehouse_findAll E T query w = (r', w') \<Longrightarrow> warehouse_step E T w w'"
| step_findOne: "warehouse_findOne E T i w = (r, w') \<Longrightarrow> warehouse_step E T w w'"
| step_update: "warehouse_update E ctx T i dto' w = (r, w') \<Longrightarrow> warehouse_step E T w w'"
| step_remove: "warehouse_remove E ctx T i w = (r'', w') \<Longrightarrow> warehouse_step E T w w'"

lemma warehouse_findAll_state: "warehouse_findAll E T query w = (r, w') \<Longrightarrow> w' = w"
  by (cases r) (auto simp: warehouse_findAll_def Let_def flow_simps inv_simps)

lemma warehouse_step_writes:
  assumes db: "repository warehouse_entity (warehouseOrm E)" and "warehouse_step E T w w'"
    and ids: "table_inv warehouse_entity warehouse_key (w_warehouses w)"
  shows "tenant_write warehouse_entity (warehouseOrm E) warehouse_key T (w_warehouses w) (w_warehouses w')"
  using assms(2)
proof (cases rule: warehouse_step.cases)
  case (step_create ctx dto r)
  from warehouse_create_state [OF this] show ?thesis
  proof (elim disjE exE conjE)
    fix x t' es
    assume free: "warehouse_assertNameUnique E T (cw_name dto) None w = (Inr (), w)"
      and s: "o_save (warehouseOrm E) (new_warehouse T dto) (w_warehouses w) = Inr (x, t')"
      and w': "w' = emitted es (w\<lparr>w_warehouses := t'\<rparr>)"
    have "tenant_write warehouse_entity (warehouseOrm E) warehouse_key T (w_warehouses w) t'"
      using warehouse_assertNameUnique_Inr [OF db free]
      by (intro write_new [OF s])
        (auto simp: new_warehouse_def warehouse_entity_def warehouse_key_def key_free_def truthy_def)
    then show ?thesis by (simp add: w' emitted_def)
  qed (simp add: write_nothing)
next
  case (step_update ctx i dto r)
  from warehouse_update_state [OF db this] show ?thesis
  proof (elim disjE [of "w' = w"] exE conjE)
    fix old row x t' es
    assume a: "old \<in> set (w_warehouses w)" "wh_tenantId old = T" "wh_id old = i" "wh_deletedAt old = None"
      "wh_id row = i" "wh_tenantId row = T"
      and free: "wh_name row = wh_name old \<or>
        warehouse_assertNameUnique E T (wh_name row) (Some i) w = (Inr (), w)"
      and s: "o_save (warehouseOrm E) row (w_warehouses w) = Inr (x, t')"
      and w': "w' = emitted es (w\<lparr>w_warehouses := t'\<rparr>)"
    from free have "warehouse_key row = warehouse_key old \<or>
        key_free warehouse_entity warehouse_key (warehouse_key row) i (w_warehouses w)"
      using warehouse_assertNameUnique_Inr [OF db, of T "wh_name row" "Some i" w "()" w] a
      by (auto simp: warehouse_key_def key_free_def warehouse_entity_def truthy_def split: if_splits)
    with a have "tenant_write warehouse_entity (warehouseOrm E) warehouse_key T (w_warehouses w) t'"
      by (intro write_old [OF s a(1)]) (auto simp: warehouse_entity_def warehouse_key_def)
    then show ?thesis by (simp add: w' emitted_def)
  qed (simp add: write_nothing)
next
  case (step_remove ctx i r)
  from warehouse_remove_state [OF db this] show ?thesis
    by (auto simp: emitted_def warehouse_entity_def warehouse_key_def intro: write_nothing
        write_remove [where M = warehouse_entity, simplified warehouse_entity_def, simplified])
next
  case (step_findOne i r)
  then have "w' = w"
    using warehouse_findOne_Inr [OF db] warehouse_findOne_Inl [OF db] by (cases r) blast+
  then show ?thesis by (simp add: write_nothing)
next
  case step_findAll
  then show ?thesis by (auto dest: warehouse_findAll_state intro: write_nothing)
qed

lemma warehouse_table:
  assumes "repository warehouse_entity db"
  shows "tenant_table warehouse_entity db warehouse_key"
  using warehouse_keyed [OF assms]
  by (intro tenant_table.intro tenant_table_axioms.intro)
    (auto simp: warehouse_key_def dest: warehouse_killed)

text \<open>Primary keys are distinct, and no tenant has two live warehouses of one name.\<close>

definition warehouse_inv :: "world \<Rightarrow> bool" where
  "warehouse_inv w \<longleftrightarrow> table_inv warehouse_entity warehouse_key (w_warehouses w)"

lemma warehouse_service:
  assumes "repository warehouse_entity (warehouseOrm E)"
  shows "tenant_service (warehouse_step E) w_warehouses wh_tenantId warehouse_inv"
  using tenant_table.writes_service [OF warehouse_table [OF assms], of "warehouse_step E" w_warehouses]
    warehouse_step_writes [OF assms]
  by (simp add: warehouse_inv_def [abs_def] warehouse_key_def [abs_def])

interpretation warehouses: tenant_service "warehouse_step mem_env" w_warehouses wh_tenantId warehouse_inv
  by (rule warehouse_service) simp

section \<open>Properties\<close>

text \<open>
  Through any history of warehouse calls (creates, updates, removals, reads, successful or
  failing, of any tenants), primary keys stay distinct, no tenant ever has two live warehouses
  with the same name, and the warehouses of a tenant that made no call are exactly what they
  were.
\<close>

theorem warehouse_history:
  assumes "repository warehouse_entity (warehouseOrm E)"
    and "history (warehouse_step E) Ts w w'" and "warehouse_inv w"
  shows "warehouse_inv w' \<and> (T \<notin> set Ts \<longrightarrow>
    {#x \<in># mset (w_warehouses w'). wh_tenantId x = T#} = {#x \<in># mset (w_warehouses w). wh_tenantId x = T#})"
  using assms tenant_service.history_inv [OF warehouse_service [OF assms(1)]]
    tenant_service.history_tenant [OF warehouse_service [OF assms(1)]] by blast

definition sample_warehouse :: create_warehouse_dto where
  "sample_warehouse = \<lparr>cw_name = js ''Main'', cw_location = None\<rparr>"

definition sample_stored :: "uuid \<Rightarrow> world" where
  "sample_stored T = snd (warehouse_create mem_env (sample_context T) T sample_warehouse empty_world)"

lemma warehouse_history_witness:
  "warehouse_inv (snd (warehouse_create mem_env (sample_context (js ''B'')) (js ''B'') sample_warehouse
     (sample_stored (js ''A'')))) \<and>
   map wh_tenantId (w_warehouses (snd (warehouse_create mem_env (sample_context (js ''B'')) (js ''B'')
     sample_warehouse (sample_stored (js ''A''))))) = [js ''B'', js ''A'']"
proof
  let ?last = "snd (warehouse_create mem_env (sample_context (js ''B'')) (js ''B'') sample_warehouse
     (sample_stored (js ''A'')))"
  have "history (warehouse_step mem_env) [js ''A'', js ''B''] empty_world ?last"
    by (auto simp: sample_stored_def intro!: warehouse_step.step_create prod.collapse [symmetric] exI)
  from warehouse_history [OF _ this, of "js ''C''"] show "warehouse_inv ?last"
    by (simp add: warehouse_inv_def empty_world_def)
  show "map wh_tenantId (w_warehouses ?last) = [js ''B'', js ''A'']"
    by code_simp
qed

text \<open>
  Creating a warehouse: when a live warehouse of the tenant has the name, the call throws a
  409 and changes nothing; otherwise, when the database accepts the row and the request has a
  tenant, the call returns the new row (the name and location given, this tenant, a fresh
  identifier), the table gains exactly that row, and exactly one audit event is published.
\<close>

definition warehouse_name_in_use :: "uuid \<Rightarrow> jstring \<Rightarrow> world \<Rightarrow> bool" where
  "warehouse_name_in_use T name w \<longleftrightarrow>
     (\<exists>x \<in> set (w_warehouses w). warehouse_key x = (T, name) \<and> wh_deletedAt x = None)"

lemma warehouse_assertNameUnique_iff:
  assumes "repository warehouse_entity (warehouseOrm E)"
  shows "warehouse_assertNameUnique E T name None w =
    (if warehouse_name_in_use T name w then Inl (ConflictException warehouse_name_taken) else Inr (), w)"
  using repository.exists_iff [OF assms, of "warehouseRepo E" _ w]
  by (auto simp: warehouse_assertNameUnique_def andThen_def repos warehouse_entity_def truthy_def
      opt_filter_def warehouse_name_in_use_def warehouse_key_def throw_def ret_def)

theorem warehouse_create_spec:
  assumes "repository warehouse_entity (warehouseOrm E)"
  shows "(warehouse_name_in_use T (cw_name dto) w \<longrightarrow>
      warehouse_create E ctx T dto w = (Inl (ConflictException warehouse_name_taken), w)) \<and>
    (\<not> warehouse_name_in_use T (cw_name dto) w \<and> context_tenant ctx \<noteq> None \<and>
       o_save (warehouseOrm E) (new_warehouse T dto) (w_warehouses w) = Inr (x, t) \<longrightarrow>
      warehouse_create E ctx T dto w =
        (Inr x, emitted (audit_events ctx (warehouse_created x)) (w\<lparr>w_warehouses := t\<rparr>)) \<and>
      x\<lparr>wh_id := no_id, wh_createdAt := 0, wh_updatedAt := 0\<rparr> = new_warehouse T dto \<and>
      wh_id x \<notin> wh_id ` set (w_warehouses w) \<and> mset t = add_mset x (mset (w_warehouses w)))"
proof (intro conjI impI)
  assume "warehouse_name_in_use T (cw_name dto) w"
  then show "warehouse_create E ctx T dto w = (Inl (ConflictException warehouse_name_taken), w)"
    by (simp add: warehouse_create_eq andThen_def warehouse_assertNameUnique_iff [OF assms])
next
  assume a: "\<not> warehouse_name_in_use T (cw_name dto) w \<and> context_tenant ctx \<noteq> None \<and>
    o_save (warehouseOrm E) (new_warehouse T dto) (w_warehouses w) = Inr (x, t)"
  then have s: "o_save (warehouseOrm E) (new_warehouse T dto) (w_warehouses w) = Inr (x, t)" by simp
  have new: "e_id warehouse_entity (new_warehouse T dto) = no_id"
    by (simp add: warehouse_entity_def new_warehouse_def)
  from a show "warehouse_create E ctx T dto w =
      (Inr x, emitted (audit_events ctx (warehouse_created x)) (w\<lparr>w_warehouses := t\<rparr>))"
    by (simp add: warehouse_create_eq andThen_def [of "warehouse_assertNameUnique E T n None" for n]
        warehouse_assertNameUnique_iff [OF assms] conflict_on_unique_Inr save_and_record_Inr repos)
  show "x\<lparr>wh_id := no_id, wh_createdAt := 0, wh_updatedAt := 0\<rparr> = new_warehouse T dto"
    using warehouse_saved [OF assms s] by (cases x) (simp add: new_warehouse_def)
  show "wh_id x \<notin> wh_id ` set (w_warehouses w)"
    using repository.save_new [OF assms s new] by (simp add: warehouse_entity_def)
  show "mset t = add_mset x (mset (w_warehouses w))"
    by (rule repository.save_insert [OF assms s new])
qed

lemma warehouse_create_spec_witness:
  "\<exists>x. warehouse_create mem_env (sample_context (js ''A'')) (js ''A'') sample_warehouse empty_world =
     (Inr x, emitted (audit_events (sample_context (js ''A'')) (warehouse_created x))
       (empty_world\<lparr>w_warehouses := [x]\<rparr>))"
proof -
  have "\<exists>x. o_save (warehouseOrm mem_env) (new_warehouse (js ''A'') sample_warehouse)
      (w_warehouses empty_world) = Inr (x, [x])"
    by (simp add: mem_env_def mem_orm_def mem_save_def empty_world_def Let_def)
  then obtain x where "o_save (warehouseOrm mem_env) (new_warehouse (js ''A'') sample_warehouse)
      (w_warehouses empty_world) = Inr (x, [x])" ..
  then show ?thesis
    using warehouse_create_spec [of mem_env "js ''A''" sample_warehouse empty_world
        "sample_context (js ''A'')" x "[x]"]
    by (intro exI [of _ x]) (simp add: empty_world_def
        warehouse_name_in_use_def sample_context_def context_tenant_def truthy_def js_def)
qed

text \<open>
  Listing warehouses: every row of a page is a live warehouse of the calling tenant that
  matches the search, no call changes the state, and with a limit the pages 1 to \<open>totalPages\<close>
  together list the matching warehouses exactly once each.
\<close>

theorem warehouse_pages:
  assumes db: "repository warehouse_entity (warehouseOrm E)" and pos: "0 < limit"
    and run: "\<And>p. warehouse_findAll E T (query\<lparr>wq_page := Some p, wq_limit := Some limit\<rparr>) w =
      (Inr (page p), w' p)"
  shows "w' p = w \<and>
    mset (concat (map (\<lambda>p. pg_data (page p)) [1..<Suc (totalPages (pg_meta (page 1)))])) =
    {#x \<in># mset (w_warehouses w). wh_tenantId x = T \<and> wh_deletedAt x = None \<and>
       opt_filter (truthy (wq_search query)) (\<lambda>s. ilike E (wh_name x) (search_pattern s))#}"
proof -
  let ?ord = "order_clause (warehouse_sortColumns (wq_sortBy query)) (wq_sortOrder query)"
  define rows where "rows = o_order (warehouseOrm E) ?ord
    (o_select (warehouseOrm E) (warehouse_matches E T query) (w_warehouses w))"
  have matches: "warehouse_matches E T (query\<lparr>wq_page := a, wq_limit := b\<rparr>) =
      warehouse_matches E T query" for a b
    by (simp add: warehouse_matches_def [abs_def])
  have r: "rows = o_order (r_orm (warehouseRepo E)) ?ord (o_select (r_orm (warehouseRepo E))
      (warehouse_matches E T query) (r_get (warehouseRepo E) w))"
    by (simp add: rows_def repos)
  have "repository warehouse_entity (r_orm (warehouseRepo E))" using db by (simp add: repos)
  note L = listing_pages [OF this pos r]
  have p: "w' p = w \<and> pg_data (page p) = page_of p limit rows \<and>
      totalPages (pg_meta (page p)) = pages_or_one (length rows) limit" for p
  proof -
    have "\<exists>link. warehouse_findAll E T (query\<lparr>wq_page := Some p, wq_limit := Some limit\<rparr>) w =
        (Inr (paginated_response link (page_of p limit rows) (length rows)
           (pages_or_one (length rows) limit) p limit), w)"
      using L(1) [of p]
      by (simp add: warehouse_findAll_def Let_def or_default_def matches andThen_def ret_def skip_take_def)
        blast
    then show ?thesis using run [of p] by (auto simp: paginated_response_def)
  qed
  show ?thesis
    using p L(2) by (simp add: repos warehouse_entity_def warehouse_matches_def conj_ac cong: conj_cong)
qed

definition sample_listing :: "nat \<Rightarrow> (exn + warehouse paginated) \<times> world" where
  "sample_listing p = warehouse_findAll mem_env (js ''A'')
     (\<lparr>wq_page = None, wq_limit = None, wq_search = None, wq_sortBy = js ''name'',
       wq_sortOrder = js ''ASC''\<rparr>\<lparr>wq_page := Some p, wq_limit := Some 2\<rparr>) (sample_stored (js ''A''))"

lemma warehouse_pages_witness:
  "mset (concat (map (\<lambda>p. pg_data (projr (fst (sample_listing p))))
      [1..<Suc (totalPages (pg_meta (projr (fst (sample_listing 1)))))])) =
    {#x \<in># mset (w_warehouses (sample_stored (js ''A''))). wh_tenantId x = js ''A'' \<and>
       wh_deletedAt x = None#}"
proof -
  have "\<exists>x. fst (sample_listing p) = Inr x" for p
    by (simp add: sample_listing_def warehouse_findAll_def Let_def andThen_def
        get_many_and_count_def gets_def ret_def)
  then have "sample_listing p = (Inr (projr (fst (sample_listing p))), snd (sample_listing p))" for p
    by (metis prod.collapse sum.sel(2))
  then have run: "warehouse_findAll mem_env (js ''A'')
     (\<lparr>wq_page = None, wq_limit = None, wq_search = None, wq_sortBy = js ''name'',
       wq_sortOrder = js ''ASC''\<rparr>\<lparr>wq_page := Some p, wq_limit := Some 2\<rparr>) (sample_stored (js ''A'')) =
     (Inr (projr (fst (sample_listing p))), snd (sample_listing p))" for p
    by (simp add: sample_listing_def)
  from conjunct2 [OF warehouse_pages [OF _ _ run, of 1]] show ?thesis
    by (simp only: mem_env_engines warehouse_query.simps) (simp add: opt_filter_def truthy_def)
qed

end
