(* ===== verification/Retry.thy ===== *)
theory Retry
  imports Prelude
begin

text \<open>
  \<open>src/common/utils/retry.util.ts\<close>: \<open>retryWithBackoff\<close>. The loop is the source's \<open>for\<close> over
  \<open>attempt\<close>; between two attempts the function sleeps, and while it sleeps the rest of the
  program moves the state on (\<open>meanwhile\<close>). The delays it chose are part of the result.
  \<open>random k\<close> is the \<open>Math.random()\<close> drawn after attempt \<open>k\<close>.
\<close>

record retry_options =
  maxAttempts :: nat
  baseDelayMs :: nat
  maxDelayMs :: nat
  retryableErrors :: "exn \<Rightarrow> bool"

definition cappedDelay :: "retry_options \<Rightarrow> nat \<Rightarrow> nat" where
  "cappedDelay opt attempt = min (baseDelayMs opt * 2 ^ (attempt - 1)) (maxDelayMs opt)"

definition jitterDelay :: "retry_options \<Rightarrow> (nat \<Rightarrow> rat) \<Rightarrow> nat \<Rightarrow> rat" where
  "jitterDelay opt random attempt = random attempt * of_nat (cappedDelay opt attempt)"

function retry_from ::
  "retry_options \<Rightarrow> (nat \<Rightarrow> rat) \<Rightarrow> (nat \<Rightarrow> 's \<Rightarrow> 's) \<Rightarrow> ('s, 'a) act \<Rightarrow> nat \<Rightarrow> exn option \<Rightarrow> 's \<Rightarrow>
    ((exn + 'a) \<times> 's) \<times> rat list" where
  "retry_from opt random meanwhile fn attempt lastError s =
     (if attempt \<le> maxAttempts opt then
        (case fn s of
           (Inr x, s') \<Rightarrow> ((Inr x, s'), [])
         | (Inl error, s') \<Rightarrow>
             (if \<not> retryableErrors opt error \<or> attempt = maxAttempts opt
              then ((Inl error, s'), [])
              else
                (case retry_from opt random meanwhile fn (Suc attempt) (Some error)
                        (meanwhile attempt s') of
                   (result, delays) \<Rightarrow> (result, jitterDelay opt random attempt # delays))))
      else
        ((Inl (case lastError of Some error \<Rightarrow> error
               | None \<Rightarrow> OtherError (js ''Retry loop exhausted without return or throw'')), s), []))"
  by pat_completeness auto
termination
  by (relation "measure (\<lambda>(opt, random, meanwhile, fn, attempt, lastError, s).
       Suc (maxAttempts opt) - attempt)") auto

declare retry_from.simps [simp del]

definition retryWithBackoff ::
  "retry_options \<Rightarrow> (nat \<Rightarrow> rat) \<Rightarrow> (nat \<Rightarrow> 's \<Rightarrow> 's) \<Rightarrow> ('s, 'a) act \<Rightarrow> 's \<Rightarrow>
    ((exn + 'a) \<times> 's) \<times> rat list" where
  "retryWithBackoff opt random meanwhile fn s = retry_from opt random meanwhile fn 1 None s"

section \<open>Which attempt decides\<close>

definition retryable_failure :: "retry_options \<Rightarrow> exn + 'a \<Rightarrow> bool" where
  "retryable_failure opt r = (case r of Inl e \<Rightarrow> retryableErrors opt e | Inr _ \<Rightarrow> False)"

text \<open>
  The state attempt \<open>k\<close> (from 1) starts in, when all earlier attempts have failed: each earlier
  attempt's state, moved on by the rest of the program.
\<close>

fun attempt_state :: "(nat \<Rightarrow> 's \<Rightarrow> 's) \<Rightarrow> ('s, 'a) act \<Rightarrow> nat \<Rightarrow> 's \<Rightarrow> nat \<Rightarrow> 's" where
  "attempt_state meanwhile fn first s 0 = s"
| "attempt_state meanwhile fn first s (Suc k) =
     meanwhile (first + k) (snd (fn (attempt_state meanwhile fn first s k)))"

lemma attempt_state_shift:
  "attempt_state meanwhile fn first s (Suc k) =
     attempt_state meanwhile fn (Suc first) (meanwhile first (snd (fn s))) k"
  by (induction k) simp_all

lemma retry_from_decides:
  assumes "attempt \<le> maxAttempts opt"
  shows "\<exists>k. attempt + k \<le> maxAttempts opt \<and>
    (\<forall>j < k. retryable_failure opt (fst (fn (attempt_state meanwhile fn attempt s j)))) \<and>
    (attempt + k = maxAttempts opt \<or>
      \<not> retryable_failure opt (fst (fn (attempt_state meanwhile fn attempt s k)))) \<and>
    retry_from opt random meanwhile fn attempt lastError s =
      (fn (attempt_state meanwhile fn attempt s k),
       map (jitterDelay opt random) [attempt..<attempt + k])"
  using assms
proof (induction opt random meanwhile fn attempt lastError s rule: retry_from.induct)
  case (1 opt random meanwhile fn attempt lastError s)
  obtain r s' where fn: "fn s = (r, s')" by (cases "fn s")
  show ?case
  proof (cases "retryable_failure opt r \<and> attempt \<noteq> maxAttempts opt")
    case True
    then obtain e where r: "r = Inl e" "retryableErrors opt e"
      by (auto simp: retryable_failure_def split: sum.splits)
    from True "1.prems" have lt: "Suc attempt \<le> maxAttempts opt" by simp
    let ?next = "meanwhile attempt s'"
    obtain k where k: "Suc attempt + k \<le> maxAttempts opt"
      "\<forall>j < k. retryable_failure opt
        (fst (fn (attempt_state meanwhile fn (Suc attempt) ?next j)))"
      "Suc attempt + k = maxAttempts opt \<or> \<not> retryable_failure opt
        (fst (fn (attempt_state meanwhile fn (Suc attempt) ?next k)))"
      "retry_from opt random meanwhile fn (Suc attempt) (Some e) ?next =
        (fn (attempt_state meanwhile fn (Suc attempt) ?next k),
         map (jitterDelay opt random) [Suc attempt..<Suc attempt + k])"
      using "1.IH" [OF "1.prems" fn [symmetric] r(1) _ lt] True r(2) by auto
    have run: "retry_from opt random meanwhile fn attempt lastError s =
        (fn (attempt_state meanwhile fn attempt s (Suc k)),
         map (jitterDelay opt random) [attempt..<attempt + Suc k])"
      using k(4) True r fn "1.prems"
      by (subst retry_from.simps)
        (simp add: attempt_state_shift fn upt_conv_Cons del: attempt_state.simps upt_Suc)
    have earlier: "retryable_failure opt (fst (fn (attempt_state meanwhile fn attempt s j)))"
      if "j < Suc k" for j
      using that k(2) True fn
      by (cases j) (simp_all add: attempt_state_shift del: attempt_state.simps(2))
    show ?thesis
      using k(1,3) run earlier fn
      by (intro exI [of _ "Suc k"])
        (simp add: attempt_state_shift del: attempt_state.simps(2))
  next
    case False
    then have "retry_from opt random meanwhile fn attempt lastError s = (fn s, [])"
      using "1.prems" fn
      by (subst retry_from.simps) (auto simp: retryable_failure_def split: sum.splits)
    with False fn "1.prems" show ?thesis
      by (intro exI [of _ 0]) auto
  qed
qed

lemma cappedDelay_le: "cappedDelay opt attempt \<le> maxDelayMs opt"
  by (simp add: cappedDelay_def)

lemma jitter_bounds:
  assumes "0 \<le> random k" and "random k < 1"
  shows "0 \<le> jitterDelay opt random k \<and> jitterDelay opt random k \<le> of_nat (cappedDelay opt k)"
  using assms by (simp add: jitterDelay_def mult_left_le_one_le)

section \<open>Properties\<close>

text \<open>
  C7: With at least one attempt allowed, \<open>retryWithBackoff\<close> returns after at most
  \<open>maxAttempts\<close> attempts with the outcome of one of them: all attempts before it failed with a
  retryable error, and it is the last one allowed, or it succeeded, or its error is not
  retryable. Between attempts it sleeps for the jittered, capped delays of the attempts before,
  each at least zero and at most \<open>maxDelayMs\<close>.
\<close>

theorem retryWithBackoff_outcome:
  assumes "1 \<le> maxAttempts opt" and "\<And>k. 0 \<le> random k \<and> random k < 1"
  shows "\<exists>k < maxAttempts opt.
    (\<forall>j < k. retryable_failure opt (fst (fn (attempt_state meanwhile fn 1 s j)))) \<and>
    (Suc k = maxAttempts opt \<or>
      \<not> retryable_failure opt (fst (fn (attempt_state meanwhile fn 1 s k)))) \<and>
    fst (retryWithBackoff opt random meanwhile fn s) = fn (attempt_state meanwhile fn 1 s k) \<and>
    length (snd (retryWithBackoff opt random meanwhile fn s)) = k \<and>
    (\<forall>d \<in> set (snd (retryWithBackoff opt random meanwhile fn s)). 0 \<le> d \<and> d \<le> of_nat (maxDelayMs opt))"
proof -
  from retry_from_decides [OF assms(1), of fn meanwhile s random None] obtain k where
    k: "1 + k \<le> maxAttempts opt"
      "\<forall>j < k. retryable_failure opt (fst (fn (attempt_state meanwhile fn 1 s j)))"
      "1 + k = maxAttempts opt \<or> \<not> retryable_failure opt (fst (fn (attempt_state meanwhile fn 1 s k)))"
      "retry_from opt random meanwhile fn 1 None s =
        (fn (attempt_state meanwhile fn 1 s k), map (jitterDelay opt random) [1..<1 + k])"
    by blast
  have "0 \<le> jitterDelay opt random i \<and> jitterDelay opt random i \<le> of_nat (maxDelayMs opt)" for i
    using jitter_bounds [of random i opt] assms(2) [of i] cappedDelay_le [of opt i]
    by (meson of_nat_le_iff order_trans)
  with k show ?thesis
    by (intro exI [of _ k]) (auto simp: retryWithBackoff_def)
qed

lemma retryWithBackoff_outcome_witness:
  "\<exists>k < 3. fst (retryWithBackoff \<lparr>maxAttempts = 3, baseDelayMs = 50, maxDelayMs = 60,
       retryableErrors = (\<lambda>e. e = OptimisticLockMismatch)\<rparr> (\<lambda>_. 1 / 2) (\<lambda>_ n. n)
       (\<lambda>n :: nat. if n < 2 then (Inl OptimisticLockMismatch, Suc n) else (Inr n, n)) 0) =
     (\<lambda>n. if n < 2 then (Inl OptimisticLockMismatch, Suc n) else (Inr n, n)) k"
proof -
  let ?opt = "\<lparr>maxAttempts = 3, baseDelayMs = 50, maxDelayMs = 60,
    retryableErrors = (\<lambda>e. e = OptimisticLockMismatch)\<rparr>"
  let ?fn = "\<lambda>n :: nat. if n < 2 then (Inl OptimisticLockMismatch, Suc n) else (Inr n, n)"
  from retryWithBackoff_outcome [of ?opt "\<lambda>_. 1 / 2" ?fn "\<lambda>_ n. n" 0] obtain k where
    k: "k < 3" "fst (retryWithBackoff ?opt (\<lambda>_. 1 / 2) (\<lambda>_ n. n) ?fn 0) =
      ?fn (attempt_state (\<lambda>_ n. n) ?fn 1 0 k)" by auto
  have "attempt_state (\<lambda>_ n. n) ?fn 1 0 j = min j 2" for j
    by (induction j) auto
  with k show ?thesis by (intro exI [of _ k]) auto
qed

end
