(* ===== verification/Inventory.thy ===== *)
theory Inventory
  imports Variant Warehouse Retry
begin

text \<open>
  Inventory (\<open>src/inventory/inventory.service.ts\<close>): the quantities of a variant in a warehouse,
  moved by four operations. Each operation reads the stock level and writes it back in one
  database transaction, which is retried with back-off when the version check fails, and
  publishes the movement after the commit. The locale \<open>stock_operation\<close> is the contract the
  four transactions share; \<open>ledger\<close> is the abstract account of quantities they implement.
\<close>

section \<open>Requests and surroundings of a call\<close>

text \<open>\<open>DeductStockDto\<close>, \<open>ReserveStockDto\<close> and \<open>ReleaseStockDto\<close> have the same fields.\<close>

record stock_dto =
  sd_warehouseId :: uuid
  sd_variantId :: uuid
  sd_quantity :: int
  sd_referenceId :: "uuid option"
  sd_reason :: "jstring option"

record replenish_stock_dto =
  rs_warehouseId :: uuid
  rs_variantId :: uuid
  rs_quantity :: int

record stock_query =
  kq_page :: "nat option"
  kq_limit :: "nat option"
  kq_warehouseId :: "jstring option"
  kq_variantId :: "jstring option"
  kq_sortBy :: jstring
  kq_sortOrder :: jstring

text \<open>
  What a call does not control: which of two parallel look-ups answers first, the random numbers
  of the back-off, what the rest of the program does to the state between two attempts, and
  whether the database accepts a commit.
\<close>

record surroundings =
  variant_first :: bool
  random_draw :: "nat \<Rightarrow> rat"
  between_attempts :: "nat \<Rightarrow> world \<Rightarrow> world"
  commit_error :: "world \<Rightarrow> exn option"

text \<open>\<open>Promise.all\<close> of two reading calls: the first rejection is the one that is thrown.\<close>

definition both :: "bool \<Rightarrow> ('s, 'a) act \<Rightarrow> ('s, 'b) act \<Rightarrow> ('s, 'a \<times> 'b) act" where
  "both left_first m n =
     (if left_first then andThen m (\<lambda>x. andThen n (\<lambda>y. ret (x, y)))
      else andThen n (\<lambda>y. andThen m (\<lambda>x. ret (x, y))))"

definition inventory_retryOptions :: retry_options where
  "inventory_retryOptions = \<lparr> maxAttempts = 5, baseDelayMs = 50, maxDelayMs = 300,
     retryableErrors = (\<lambda>err. err = OptimisticLockMismatch) \<rparr>"

definition retried :: "surroundings \<Rightarrow> (world, 'a) act \<Rightarrow> (world, 'a) act" where
  "retried S m = (\<lambda>w. fst (retryWithBackoff inventory_retryOptions (random_draw S)
     (between_attempts S) (transaction (commit_error S) m) w))"

section \<open>The transactions\<close>

definition stock_at :: "uuid \<Rightarrow> uuid \<Rightarrow> uuid \<Rightarrow> stock_level \<Rightarrow> bool" where
  "stock_at tenantId variantId warehouseId row \<longleftrightarrow> sl_tenantId row = tenantId \<and>
     sl_variantId row = variantId \<and> sl_warehouseId row = warehouseId"

definition snapshot :: "stock_level \<Rightarrow> stock_snapshot" where
  "snapshot row = \<lparr>ss_availableQuantity = sl_availableQuantity row,
     ss_reservedQuantity = sl_reservedQuantity row\<rparr>"

definition movement_of :: "uuid \<Rightarrow> uuid \<Rightarrow> uuid \<Rightarrow> jstring option \<Rightarrow> stock_snapshot \<Rightarrow> stock_level \<Rightarrow> stock_movement" where
  "movement_of tenantId variantId warehouseId sku before stockLevel =
     \<lparr> sm_tenantId = tenantId, sm_stockLevelId = sl_id stockLevel, sm_variantId = variantId,
       sm_warehouseId = warehouseId, sm_sku = sku, sm_before = before,
       sm_after = snapshot stockLevel, sm_safetyThreshold = sl_safetyThreshold stockLevel \<rparr>"

definition deduct_tx ::
  "env \<Rightarrow> uuid \<Rightarrow> variant \<times> warehouse \<times> stock_dto \<Rightarrow> (world, stock_movement) act" where
  "deduct_tx E tenantId = (\<lambda>(variant, warehouse, dto).
     andThen (find_one (stockRepo E) (stock_at tenantId (v_id variant) (wh_id warehouse))) (\<lambda>found.
     case found of
       None \<Rightarrow> throw (NotFoundException (js ''There is no stock level with this info''))
     | Some stockLevel \<Rightarrow>
         andThen (ensure (\<not> sl_availableQuantity stockLevel < sd_quantity dto)
           (BadRequestException (js ''insufficient stock quantity''))) (\<lambda>_.
         let before = snapshot stockLevel;
             stockLevel = stockLevel\<lparr>sl_availableQuantity := sl_availableQuantity stockLevel - sd_quantity dto\<rparr>
         in andThen (save (stockRepo E) stockLevel) (\<lambda>stockLevel.
            ret (movement_of tenantId (v_id variant) (wh_id warehouse) (Some (v_sku variant))
              before stockLevel)))))"

definition reserve_tx :: "env \<Rightarrow> uuid \<Rightarrow> stock_dto \<Rightarrow> (world, stock_movement) act" where
  "reserve_tx E tenantId dto =
     andThen (find_one (stockRepo E) (stock_at tenantId (sd_variantId dto) (sd_warehouseId dto))) (\<lambda>found.
     case found of
       None \<Rightarrow> throw (NotFoundException (js ''There is no stock level with this info''))
     | Some stockLevel \<Rightarrow>
         andThen (ensure (\<not> sl_availableQuantity stockLevel < sd_quantity dto)
           (BadRequestException (js ''Insufficient stock available for reservation''))) (\<lambda>_.
         let before = snapshot stockLevel;
             stockLevel = stockLevel\<lparr>sl_availableQuantity := sl_availableQuantity stockLevel - sd_quantity dto,
               sl_reservedQuantity := sl_reservedQuantity stockLevel + sd_quantity dto\<rparr>
         in andThen (save (stockRepo E) stockLevel) (\<lambda>stockLevel.
            ret (movement_of tenantId (sd_variantId dto) (sd_warehouseId dto) None before stockLevel))))"

definition release_tx :: "env \<Rightarrow> uuid \<Rightarrow> stock_dto \<Rightarrow> (world, stock_movement) act" where
  "release_tx E tenantId dto =
     andThen (find_one (stockRepo E) (stock_at tenantId (sd_variantId dto) (sd_warehouseId dto))) (\<lambda>found.
     case found of
       None \<Rightarrow> throw (NotFoundException (js ''Stock level record not found''))
     | Some stockLevel \<Rightarrow>
         andThen (ensure (\<not> sl_reservedQuantity stockLevel < sd_quantity dto)
           (BadRequestException (js ''Cannot release more stock than currently reserved. Reserved: '' @
             show_int (sl_reservedQuantity stockLevel)))) (\<lambda>_.
         let before = snapshot stockLevel;
             stockLevel = stockLevel\<lparr>sl_availableQuantity := sl_availableQuantity stockLevel + sd_quantity dto,
               sl_reservedQuantity := sl_reservedQuantity stockLevel - sd_quantity dto\<rparr>
         in andThen (save (stockRepo E) stockLevel) (\<lambda>stockLevel.
            ret (movement_of tenantId (sd_variantId dto) (sd_warehouseId dto) None before stockLevel))))"

definition new_stock_level :: "uuid \<Rightarrow> uuid \<Rightarrow> uuid \<Rightarrow> stock_level" where
  "new_stock_level tenantId variantId warehouseId = \<lparr> sl_id = no_id, sl_tenantId = tenantId,
     sl_variantId = variantId, sl_warehouseId = warehouseId, sl_availableQuantity = 0,
     sl_reservedQuantity = 0, sl_safetyThreshold = 20, sl_version = 0, sl_createdAt = 0,
     sl_updatedAt = 0 \<rparr>"

definition findOrCreate :: "env \<Rightarrow> uuid \<Rightarrow> warehouse \<Rightarrow> variant \<Rightarrow> (world, stock_level) act" where
  "findOrCreate E tenantId warehouse variant =
     andThen (find_one (stockRepo E) (stock_at tenantId (v_id variant) (wh_id warehouse))) (\<lambda>stock.
     case stock of
       None \<Rightarrow> ret (new_stock_level tenantId (v_id variant) (wh_id warehouse))
     | Some stock \<Rightarrow> ret stock)"

definition replenish_tx ::
  "env \<Rightarrow> uuid \<Rightarrow> variant \<times> warehouse \<times> replenish_stock_dto \<Rightarrow> (world, stock_level \<times> stock_movement) act" where
  "replenish_tx E tenantId = (\<lambda>(variant, warehouse, dto).
     andThen (findOrCreate E tenantId warehouse variant) (\<lambda>stock.
     let before = snapshot stock;
         stock = stock\<lparr>sl_availableQuantity := sl_availableQuantity stock + rs_quantity dto\<rparr>
     in andThen (save (stockRepo E) stock) (\<lambda>result.
        ret (result, movement_of tenantId (v_id variant) (wh_id warehouse) (Some (v_sku variant))
          before result))))"

section \<open>The service\<close>

definition snapshot_values :: "stock_snapshot \<Rightarrow> jval" where
  "snapshot_values s = JObj [(''availableQuantity'', JNum (of_int (ss_availableQuantity s))),
     (''reservedQuantity'', JNum (of_int (ss_reservedQuantity s)))]"

definition movement_input :: "stock_movement \<Rightarrow> audit_input" where
  "movement_input movement = audit_input UPDATE_INVENTORY ET_STOCK_LEVEL (sm_stockLevelId movement)
     (Some (snapshot_values (sm_before movement))) (Some (snapshot_values (sm_after movement)))"

definition publishStockMovement :: "audit_context option \<Rightarrow> stock_movement \<Rightarrow> (world, unit) act" where
  "publishStockMovement ctx movement =
     andThen (audit_record ctx (movement_input movement)) (\<lambda>_. emit (StockMovementEvent movement))"

definition deductStock ::
  "env \<Rightarrow> surroundings \<Rightarrow> audit_context option \<Rightarrow> uuid \<Rightarrow> stock_dto \<Rightarrow> (world, unit) act" where
  "deductStock E S ctx tenantId dto =
     andThen (both (variant_first S) (variant_findOneById E tenantId (sd_variantId dto))
       (warehouse_findOne E tenantId (sd_warehouseId dto))) (\<lambda>(variant, warehouse).
     andThen (retried S (deduct_tx E tenantId (variant, warehouse, dto))) (\<lambda>movement.
     publishStockMovement ctx movement))"

definition replenish ::
  "env \<Rightarrow> surroundings \<Rightarrow> audit_context option \<Rightarrow> uuid \<Rightarrow> replenish_stock_dto \<Rightarrow> (world, stock_level) act" where
  "replenish E S ctx tenantId dto =
     andThen (both (variant_first S) (variant_findOneById E tenantId (rs_variantId dto))
       (warehouse_findOne E tenantId (rs_warehouseId dto))) (\<lambda>(variant, warehouse).
     andThen (retried S (replenish_tx E tenantId (variant, warehouse, dto))) (\<lambda>(saved, movement).
     andThen (publishStockMovement ctx movement) (\<lambda>_.
     ret saved)))"

definition reserveStock ::
  "env \<Rightarrow> surroundings \<Rightarrow> audit_context option \<Rightarrow> uuid \<Rightarrow> stock_dto \<Rightarrow> (world, unit) act" where
  "reserveStock E S ctx tenantId dto =
     andThen (retried S (reserve_tx E tenantId dto)) (\<lambda>movement. publishStockMovement ctx movement)"

definition releaseStock ::
  "env \<Rightarrow> surroundings \<Rightarrow> audit_context option \<Rightarrow> uuid \<Rightarrow> stock_dto \<Rightarrow> (world, unit) act" where
  "releaseStock E S ctx tenantId dto =
     andThen (retried S (release_tx E tenantId dto)) (\<lambda>movement. publishStockMovement ctx movement)"

text \<open>A \<open>limit\<close> or \<open>page\<close> of 0 is falsy and takes the default (\<open>||\<close>); the total is not rounded up to one page.\<close>

definition or_nonzero :: "nat option \<Rightarrow> nat \<Rightarrow> nat" where
  "or_nonzero x d = (case x of None \<Rightarrow> d | Some n \<Rightarrow> if n = 0 then d else n)"

definition stock_matches :: "uuid \<Rightarrow> stock_query \<Rightarrow> stock_level \<Rightarrow> bool" where
  "stock_matches tenantId query q \<longleftrightarrow> sl_tenantId q = tenantId \<and>
     opt_filter (truthy (kq_variantId query)) (\<lambda>variantId. sl_variantId q = variantId) \<and>
     opt_filter (truthy (kq_warehouseId query)) (\<lambda>warehouseId. sl_warehouseId q = warehouseId)"

definition inventory_findAll :: "env \<Rightarrow> uuid \<Rightarrow> stock_query \<Rightarrow> (world, stock_level paginated) act" where
  "inventory_findAll E tenantId query =
     (let limit = or_nonzero (kq_limit query) 20; page = or_nonzero (kq_page query) 1
      in andThen (get_many_and_count (stockRepo E) (stock_matches tenantId query)
           [(kq_sortBy query, kq_sortOrder query)] (skip_take ((page - 1) * limit) limit))
         (\<lambda>(data, counts).
         ret (paginated_response (\<lambda>p. page_link (js ''app/v1/inventory'') p limit)
           data counts (ceil_div counts limit) page limit)))"

section \<open>The abstract ledger\<close>

text \<open>
  What the stock table means: for each tenant, variant and warehouse, the available and the
  reserved quantity, if there is a stock level. In a table that keeps its constraints the
  view is a function of the set of rows.
\<close>

type_synonym stock_place = "uuid \<times> uuid \<times> uuid"

definition stock_place :: "stock_level \<Rightarrow> stock_place" where
  "stock_place r = (sl_tenantId r, sl_variantId r, sl_warehouseId r)"

definition levels :: "stock_level \<Rightarrow> int \<times> int" where
  "levels r = (sl_availableQuantity r, sl_reservedQuantity r)"

definition stock_view :: "stock_level list \<Rightarrow> stock_place \<Rightarrow> (int \<times> int) option" where
  "stock_view t k = map_option levels (find (\<lambda>r. stock_place r = k) t)"

definition stock_ok :: "stock_level list \<Rightarrow> bool" where
  "stock_ok t \<longleftrightarrow> ids_ok stock_level_entity t \<and> unique_ok stock_level_entity t"

lemma stock_fields [simp]:
  "e_id stock_level_entity = sl_id" "e_alive stock_level_entity x"
  by (simp_all add: stock_level_entity_def)

lemma same_place:
  assumes "stock_ok t" and "x \<in> set t" and "y \<in> set t"
    and "sl_variantId x = sl_variantId y" and "sl_warehouseId x = sl_warehouseId y"
  shows "x = y"
proof -
  have "sl_id x = sl_id y"
    using assms by (auto simp: stock_ok_def unique_ok_def stock_level_entity_def)
  then show ?thesis
    using assms(1-3) by (auto simp: stock_ok_def ids_ok_def distinct_map dest: inj_onD)
qed

lemma stock_view_None: "stock_view t k = None \<longleftrightarrow> (\<forall>r \<in> set t. stock_place r \<noteq> k)"
  by (auto simp: stock_view_def find_None_iff)

lemma stock_view_Some:
  assumes "stock_ok t"
  shows "stock_view t k = Some l \<longleftrightarrow> (\<exists>r \<in> set t. stock_place r = k \<and> levels r = l)"
proof
  assume "stock_view t k = Some l"
  then obtain r where "find (\<lambda>r. stock_place r = k) t = Some r" and "levels r = l"
    by (auto simp: stock_view_def)
  then show "\<exists>r \<in> set t. stock_place r = k \<and> levels r = l"
    by (auto simp: find_Some_iff)
next
  assume "\<exists>r \<in> set t. stock_place r = k \<and> levels r = l"
  then obtain r where r: "r \<in> set t" "stock_place r = k" "levels r = l" by blast
  then obtain r' where r': "find (\<lambda>r. stock_place r = k) t = Some r'"
    by (metis (mono_tags, lifting) find_None_iff option.exhaust)
  then have "r' \<in> set t" "stock_place r' = k"
    by (metis (mono_tags, lifting) find_Some_iff nth_mem)+
  with r same_place [OF assms, of r' r] have "r' = r"
    by (auto simp: stock_place_def)
  with r r' show "stock_view t k = Some l"
    by (simp add: stock_view_def)
qed

lemma stock_saved:
  assumes "repository stock_level_entity db" and "o_save db r t = Inr (x, t')"
  shows "stock_place x = stock_place r \<and> levels x = levels r \<and>
    sl_safetyThreshold x = sl_safetyThreshold r"
proof -
  from repository.save_cols [OF assms] have cols:
    "x\<lparr>sl_version := 0, sl_createdAt := 0, sl_updatedAt := 0\<rparr> =
      r\<lparr>sl_id := sl_id x, sl_version := 0, sl_createdAt := 0, sl_updatedAt := 0\<rparr>"
    by (simp add: stock_level_entity_def)
  from arg_cong [where f = stock_place, OF cols] arg_cong [where f = levels, OF cols]
    arg_cong [where f = sl_safetyThreshold, OF cols]
  show ?thesis by (simp add: stock_place_def levels_def)
qed

lemma stock_save_ok:
  assumes "repository stock_level_entity db" and "o_save db r t = Inr (x, t')" and "stock_ok t"
  shows "stock_ok t'"
  using repository.save_ids [OF assms(1,2)] repository.save_unique [OF assms(1,2)] assms(3)
  by (simp add: stock_ok_def)

text \<open>Saving a stock level (an existing one, or a new one in a free place) updates the view there.\<close>

lemma stock_view_save:
  assumes db: "repository stock_level_entity db" and s: "o_save db r t = Inr (x, t')"
    and ok: "stock_ok t"
    and old: "sl_id r \<noteq> no_id \<Longrightarrow> \<exists>y \<in> set t. sl_id y = sl_id r \<and> stock_place y = stock_place r"
    and new: "sl_id r = no_id \<Longrightarrow> stock_view t (stock_place r) = None"
  shows "stock_view t' = (stock_view t)(stock_place r \<mapsto> levels r)"
proof -
  note ok' = stock_save_ok [OF db s ok]
  have rows: "set t' = insert x {y \<in> set t. sl_id y \<noteq> sl_id x}"
    using repository.save_set [OF db s] by simp
  note x = stock_saved [OF db s]
  have here: "stock_place y = stock_place r" if "y \<in> set t" "sl_id y = sl_id x" for y
  proof (cases "sl_id r = no_id")
    case True
    with repository.save_new [OF db s] that show ?thesis by (auto simp: image_iff)
  next
    case False
    with repository.save_old [OF db s] have "sl_id x = sl_id r" by simp
    with old [OF False] that obtain z where "z \<in> set t" "sl_id z = sl_id y"
      "stock_place z = stock_place r" by auto
    with that(1) ok show ?thesis
      by (metis repository.same_id [OF db] stock_fields(1) stock_ok_def)
  qed
  have iff: "stock_view t' k = Some l \<longleftrightarrow> ((stock_view t)(stock_place r \<mapsto> levels r)) k = Some l" for k l
  proof (cases "k = stock_place r")
    case True
    have "stock_view t' (stock_place r) = Some (levels r)"
      using x rows by (auto simp: stock_view_Some [OF ok'])
    with True show ?thesis by simp
  next
    case False
    then show ?thesis
      using here x by (auto simp: stock_view_Some [OF ok'] stock_view_Some [OF ok] rows)
  qed
  show ?thesis
  proof
    fix k
    show "stock_view t' k = ((stock_view t)(stock_place r \<mapsto> levels r)) k"
      using iff [of k] by (cases "stock_view t' k") (metis not_None_eq, metis)
  qed
qed

section \<open>The contract of the four transactions\<close>

text \<open>
  What a transaction at one place may do: when the abstract change is defined on the quantities
  found there, store its result, and nothing else; the movement it reports carries the
  quantities before and after. When it throws, the change was refused or the database
  rejected the write.
\<close>

type_synonym stock_change = "(int \<times> int) option \<Rightarrow> (int \<times> int) option"

definition reports :: "stock_movement \<Rightarrow> stock_place \<Rightarrow> (int \<times> int) option \<Rightarrow> int \<times> int \<Rightarrow> bool" where
  "reports m k l l' \<longleftrightarrow> k = (sm_tenantId m, sm_variantId m, sm_warehouseId m) \<and>
     or_default l (0, 0) = (ss_availableQuantity (sm_before m), ss_reservedQuantity (sm_before m)) \<and>
     l' = (ss_availableQuantity (sm_after m), ss_reservedQuantity (sm_after m))"

definition moves :: "world \<Rightarrow> stock_place \<Rightarrow> stock_change \<Rightarrow> stock_movement \<Rightarrow> world \<Rightarrow> bool" where
  "moves w k change m w' \<longleftrightarrow> (\<exists>l. change (stock_view (w_stock w) k) = Some l \<and>
     stock_view (w_stock w') = (stock_view (w_stock w))(k \<mapsto> l) \<and>
     stock_ok (w_stock w') \<and> w' = w\<lparr>w_stock := w_stock w'\<rparr> \<and>
     {#r \<in># mset (w_stock w'). sl_tenantId r \<noteq> fst k#} = {#r \<in># mset (w_stock w). sl_tenantId r \<noteq> fst k#} \<and>
     reports m k (stock_view (w_stock w) k) l)"

definition save_refused :: "env \<Rightarrow> world \<Rightarrow> bool" where
  "save_refused E w \<longleftrightarrow> (\<exists>row e. o_save (stockOrm E) row (w_stock w) = Inl e)"

locale stock_operation =
  fixes tx :: "env \<Rightarrow> uuid \<Rightarrow> 'req \<Rightarrow> (world, 'a) act"
    and place :: "uuid \<Rightarrow> 'req \<Rightarrow> stock_place"
    and change :: "'req \<Rightarrow> stock_change"
    and moved :: "'a \<Rightarrow> stock_movement"
  assumes place_tenant: "fst (place T req) = T"
    and tx_moves: "repository stock_level_entity (stockOrm E) \<Longrightarrow> stock_ok (w_stock w) \<Longrightarrow>
      tx E T req w = (Inr a, w') \<Longrightarrow> moves w (place T req) (change req) (moved a) w'"
    and tx_refuses: "repository stock_level_entity (stockOrm E) \<Longrightarrow> stock_ok (w_stock w) \<Longrightarrow>
      tx E T req w = (Inl e, w') \<Longrightarrow>
      change req (stock_view (w_stock w) (place T req)) = None \<or> save_refused E w"

text \<open>The state attempt \<open>n + 1\<close> starts in: failed attempts leave no trace of their own.\<close>

fun drift :: "(nat \<Rightarrow> 's \<Rightarrow> 's) \<Rightarrow> 's \<Rightarrow> nat \<Rightarrow> 's" where
  "drift meanwhile w 0 = w"
| "drift meanwhile w (Suc n) = meanwhile (Suc n) (drift meanwhile w n)"

definition movement_events :: "audit_context option \<Rightarrow> stock_movement \<Rightarrow> event list" where
  "movement_events ctx m = (if context_tenant ctx = None then []
     else audit_events ctx (movement_input m) @ [StockMovementEvent m])"

text \<open>
  The outcome of a call: one of at most five attempts decides. Either it moved the quantities,
  from the state it started in, and the movement was then published (only a request without a
  tenant context turns this into an error); or the call throws, the state is the one that
  attempt started in, and the change was refused there or the database rejected the write.
\<close>

definition stock_outcome ::
  "env \<Rightarrow> surroundings \<Rightarrow> audit_context option \<Rightarrow> stock_place \<Rightarrow> stock_change \<Rightarrow>
    world \<Rightarrow> exn + 'a \<Rightarrow> world \<Rightarrow> bool" where
  "stock_outcome E S ctx k change w r w' \<longleftrightarrow> (\<exists>n < 5. let v = drift (between_attempts S) w n in
     (\<exists>m u. moves v k change m u \<and> w' = emitted (movement_events ctx m) u \<and>
        (isl r \<longleftrightarrow> context_tenant ctx = None)) \<or>
     (isl r \<and> w' = v \<and>
       (change (stock_view (w_stock v) k) = None \<or> save_refused E v \<or> (\<exists>u. commit_error S u \<noteq> None))))"

lemma publish_run:
  "publishStockMovement ctx m w = (r, w') \<longleftrightarrow> w' = emitted (movement_events ctx m) w \<and>
     r = (if context_tenant ctx = None
          then Inl (InternalServerErrorException (js ''Tenant context is required for audit logging''))
          else Inr ())"
  by (auto simp: publishStockMovement_def andThen_def audit_record_run emit_def modify_def emitted_def
      movement_events_def audit_events_def split: option.splits)

lemma retryable_Inl: "retryable_failure opt r \<Longrightarrow> \<exists>e. r = Inl e"
  by (auto simp: retryable_failure_def split: sum.splits)

lemma attempt_drift:
  assumes "\<forall>j < n. retryable_failure opt (fst (transaction c m (attempt_state mw (transaction c m) 1 w j)))"
  shows "attempt_state mw (transaction c m) 1 w n = drift mw w n"
  using assms
proof (induction n)
  case (Suc n)
  let ?v = "drift mw w n"
  have "attempt_state mw (transaction c m) 1 w n = ?v" using Suc by simp
  moreover from this Suc.prems have "retryable_failure opt (fst (transaction c m ?v))"
    by (metis lessI)
  then obtain e where "fst (transaction c m ?v) = Inl e" using retryable_Inl by blast
  then have "snd (transaction c m ?v) = ?v"
    using transaction_Inl by (metis prod.collapse)
  ultimately show ?case by simp
qed simp

text \<open>One attempt decides a retried transaction.\<close>

lemma retried_decides:
  assumes "retried S m w = (r, w')"
  shows "\<exists>n < 5. transaction (commit_error S) m (drift (between_attempts S) w n) = (r, w')"
proof -
  let ?fn = "transaction (commit_error S) m"
  obtain k where k: "1 + k \<le> maxAttempts inventory_retryOptions"
    "\<forall>j < k. retryable_failure inventory_retryOptions
        (fst (?fn (attempt_state (between_attempts S) ?fn 1 w j)))"
    "retry_from inventory_retryOptions (random_draw S) (between_attempts S) ?fn 1 None w =
      (?fn (attempt_state (between_attempts S) ?fn 1 w k),
       map (jitterDelay inventory_retryOptions (random_draw S)) [1..<1 + k])"
    using retry_from_decides [where attempt = 1 and opt = inventory_retryOptions and fn = ?fn
        and meanwhile = "between_attempts S" and s = w and random = "random_draw S"
        and lastError = None]
    by (auto simp: inventory_retryOptions_def)
  from k(1) have "k < 5" by (simp add: inventory_retryOptions_def)
  moreover have "?fn (drift (between_attempts S) w k) = (r, w')"
    using assms k(3) attempt_drift [OF k(2)] by (simp add: retried_def retryWithBackoff_def)
  ultimately show ?thesis by blast
qed

context stock_operation begin

lemma call_outcome:
  assumes db: "repository stock_level_entity (stockOrm E)"
    and ok: "\<And>n. stock_ok (w_stock (drift (between_attempts S) w n))"
    and run: "andThen (retried S (tx E T req)) (\<lambda>a.
      andThen (publishStockMovement ctx (moved a)) (\<lambda>_. ret (g a))) w = (r, w')"
  shows "stock_outcome E S ctx (place T req) (change req) w r w'"
  using run
proof (cases rule: andThenE)
  case (err e)
  from retried_decides [OF err(1)] obtain n where n: "n < 5" and
    t: "transaction (commit_error S) (tx E T req) (drift (between_attempts S) w n) = (Inl e, w')"
    by blast
  let ?v = "drift (between_attempts S) w n"
  have "change req (stock_view (w_stock ?v) (place T req)) = None \<or> save_refused E ?v \<or>
      (\<exists>u. commit_error S u \<noteq> None)"
    using t tx_refuses [OF db ok [of n]]
    by (auto simp: transaction_def split: prod.splits sum.splits option.splits)
  with n err(2) transaction_Inl [OF t] show ?thesis
    by (auto simp: stock_outcome_def Let_def)
next
  case (ok a u)
  from retried_decides [OF ok(1)] obtain n where n: "n < 5" and
    t: "transaction (commit_error S) (tx E T req) (drift (between_attempts S) w n) = (Inr a, u)"
    by blast
  then have "tx E T req (drift (between_attempts S) w n) = (Inr a, u)"
    by (auto simp: transaction_def split: prod.splits sum.splits option.splits)
  from tx_moves [OF db assms(2) this] n ok(2) show ?thesis
    by (auto simp: stock_outcome_def Let_def ret_def publish_run split: if_splits
        elim!: andThenE intro!: exI [of _ n])
qed

end

section \<open>The four transactions keep the contract\<close>

lemma find_stock:
  assumes db: "repository stock_level_entity (stockOrm E)" and ok: "stock_ok (w_stock w)"
    and run: "find_one (stockRepo E) (stock_at T v h) w = (Inr found, w')"
  shows "w' = w \<and> map_option levels found = stock_view (w_stock w) (T, v, h) \<and>
    (\<forall>r. found = Some r \<longrightarrow> r \<in> set (w_stock w) \<and> stock_place r = (T, v, h))"
proof (cases found)
  case None
  from run None repository.find_one_None [OF db, of "stockRepo E" "stock_at T v h" w w']
  have "\<forall>r \<in> set (w_stock w). stock_place r \<noteq> (T, v, h)"
    by (auto simp: stock_at_def stock_place_def)
  with None run show ?thesis by (simp add: stock_view_None [symmetric] find_one_eq)
next
  case (Some r)
  from repository.find_one_Some [OF db run [unfolded Some]] have
    "w' = w \<and> r \<in> set (w_stock w) \<and> stock_place r = (T, v, h)"
    by (auto simp: stock_at_def stock_place_def)
  with Some stock_view_Some [OF ok, of "(T, v, h)" "levels r"] show ?thesis by auto
qed

lemma save_moves:
  assumes db: "repository stock_level_entity (stockOrm E)" and ok: "stock_ok (w_stock w)"
    and s: "save (stockRepo E) row w = (Inr x, w')"
    and old: "sl_id row \<noteq> no_id \<Longrightarrow> \<exists>y \<in> set (w_stock w). sl_id y = sl_id row \<and> stock_place y = stock_place row"
    and new: "sl_id row = no_id \<Longrightarrow> stock_view (w_stock w) (stock_place row) = None"
    and row: "stock_place row = (T, v, h)"
    and change: "change (stock_view (w_stock w) (T, v, h)) = Some (levels row)"
    and before: "or_default (stock_view (w_stock w) (T, v, h)) (0, 0) =
      (ss_availableQuantity before, ss_reservedQuantity before)"
  shows "moves w (T, v, h) change (movement_of T v h sku before x) w'"
proof -
  from s obtain t' where t: "o_save (stockOrm E) row (w_stock w) = Inr (x, t')"
    and w': "w' = w\<lparr>w_stock := t'\<rparr>"
    by (auto simp: save_Inr stockRepo_def)
  note x = stock_saved [OF db t]
  have "{#r \<in># mset t'. sl_tenantId r \<noteq> T#} = {#r \<in># mset (w_stock w). sl_tenantId r \<noteq> T#}"
  proof (rule repository.save_others [OF db t, where tenant_of = sl_tenantId])
    show "ids_ok stock_level_entity (w_stock w)" using ok by (simp add: stock_ok_def)
    show "sl_tenantId x = T" using x row by (simp add: stock_place_def)
    show "\<exists>y \<in> set (w_stock w). e_id stock_level_entity y = e_id stock_level_entity row \<and>
        sl_tenantId y = T" if "e_id stock_level_entity row \<noteq> no_id"
      using old that row by (auto simp: stock_place_def)
  qed
  with x change before row stock_view_save [OF db t ok old new] stock_save_ok [OF db t ok]
  show ?thesis
    by (auto simp: moves_def w' reports_def movement_of_def snapshot_def levels_def)
qed

lemma save_fails: "save (stockRepo E) row w = (Inl e, w') \<Longrightarrow> save_refused E w"
  by (auto simp: save_Inl save_refused_def)

definition deduct_change :: "int \<Rightarrow> stock_change" where
  "deduct_change q l = (case l of None \<Rightarrow> None
     | Some (available, reserved) \<Rightarrow> if q \<le> available then Some (available - q, reserved) else None)"

definition reserve_change :: "int \<Rightarrow> stock_change" where
  "reserve_change q l = (case l of None \<Rightarrow> None
     | Some (available, reserved) \<Rightarrow> if q \<le> available then Some (available - q, reserved + q) else None)"

definition release_change :: "int \<Rightarrow> stock_change" where
  "release_change q l = (case l of None \<Rightarrow> None
     | Some (available, reserved) \<Rightarrow> if q \<le> reserved then Some (available + q, reserved - q) else None)"

definition replenish_change :: "int \<Rightarrow> stock_change" where
  "replenish_change q l = (case or_default l (0, 0) of (available, reserved) \<Rightarrow>
     Some (available + q, reserved))"

text \<open>The shape of the three transactions that need an existing stock level.\<close>

definition existing_tx ::
  "env \<Rightarrow> stock_place \<Rightarrow> exn \<Rightarrow> (stock_level \<Rightarrow> bool) \<Rightarrow> (stock_level \<Rightarrow> exn) \<Rightarrow>
    (stock_level \<Rightarrow> stock_level) \<Rightarrow> jstring option \<Rightarrow> (world, stock_movement) act" where
  "existing_tx E k missing guard refusal update sku = (case k of (T, v, h) \<Rightarrow>
     andThen (find_one (stockRepo E) (stock_at T v h)) (\<lambda>found. case found of
       None \<Rightarrow> throw missing
     | Some s \<Rightarrow> andThen (ensure (guard s) (refusal s)) (\<lambda>_.
         andThen (save (stockRepo E) (update s)) (\<lambda>x. ret (movement_of T v h sku (snapshot s) x)))))"

definition enacts :: "(stock_level \<Rightarrow> bool) \<Rightarrow> (stock_level \<Rightarrow> stock_level) \<Rightarrow> stock_change \<Rightarrow> bool" where
  "enacts guard update change \<longleftrightarrow> change None = None \<and>
     (\<forall>s. sl_id (update s) = sl_id s \<and> stock_place (update s) = stock_place s \<and>
       change (Some (levels s)) = (if guard s then Some (levels (update s)) else None))"

lemma existing_tx_run_at:
  assumes db: "repository stock_level_entity (stockOrm E)" and ok: "stock_ok (w_stock w)"
    and enacts: "enacts guard update change"
    and run: "existing_tx E (T, v, h) missing guard refusal update sku w = (r, w')"
  shows "case r of Inr m \<Rightarrow> moves w (T, v, h) change m w'
    | Inl e \<Rightarrow> change (stock_view (w_stock w) (T, v, h)) = None \<or> save_refused E w"
proof -
  from run [unfolded existing_tx_def prod.case] show ?thesis
  proof (cases rule: andThenE)
    case (err e)
    then show ?thesis by (simp add: find_one_eq)
  next
    case (ok found w1)
    note f = find_stock [OF db assms(2) ok(1)]
    show ?thesis
    proof (cases found)
      case None
      with ok(2) f enacts show ?thesis by (auto simp: throw_eq enacts_def)
    next
      case (Some s)
      with f have s: "w1 = w" "stock_view (w_stock w) (T, v, h) = Some (levels s)"
        "s \<in> set (w_stock w)" "stock_place s = (T, v, h)" by auto
      from ok(2) [unfolded Some option.case] show ?thesis
      proof (cases rule: andThenE)
        case (err e)
        with s enacts show ?thesis by (simp add: ensure_Inl enacts_def)
      next
        case (ok u w2)
        then have w2: "w2 = w" and guard: "guard s" using s by (auto simp: ensure_Inr)
        from ok(2) [unfolded w2] show ?thesis
        proof (cases rule: andThenE)
          case (err e)
          then show ?thesis by (auto dest: save_fails)
        next
          case (ok x w3)
          have "sl_id s \<noteq> no_id" using s(3) assms(2) by (auto simp: stock_ok_def ids_ok_def)
          moreover have "sl_id (update s) = sl_id s" "stock_place (update s) = stock_place s"
            "change (Some (levels s)) = Some (levels (update s))"
            using enacts guard by (simp_all add: enacts_def)
          moreover have "levels s = (ss_availableQuantity (snapshot s), ss_reservedQuantity (snapshot s))"
            by (simp add: levels_def snapshot_def)
          ultimately show ?thesis
            using ok s save_moves [OF db assms(2) ok(1), of T v h change "snapshot s" sku]
            by (auto simp: ret_eq or_default_def)
        qed
      qed
    qed
  qed
qed

lemma existing_tx_run:
  assumes "repository stock_level_entity (stockOrm E)" and "stock_ok (w_stock w)"
    and "enacts guard update change"
    and "existing_tx E k missing guard refusal update sku w = (r, w')"
  shows "case r of Inr m \<Rightarrow> moves w k change m w'
    | Inl e \<Rightarrow> change (stock_view (w_stock w) k) = None \<or> save_refused E w"
  using assms existing_tx_run_at by (cases k) blast

lemma stock_place_update [simp]:
  "stock_place (s\<lparr>sl_availableQuantity := a\<rparr>) = stock_place s"
  "stock_place (s\<lparr>sl_availableQuantity := a, sl_reservedQuantity := b\<rparr>) = stock_place s"
  by (simp_all add: stock_place_def)

lemma deduct_tx_existing:
  "deduct_tx E T (variant, warehouse, dto) = existing_tx E (T, v_id variant, wh_id warehouse)
     (NotFoundException (js ''There is no stock level with this info''))
     (\<lambda>s. \<not> sl_availableQuantity s < sd_quantity dto)
     (\<lambda>s. BadRequestException (js ''insufficient stock quantity''))
     (\<lambda>s. s\<lparr>sl_availableQuantity := sl_availableQuantity s - sd_quantity dto\<rparr>) (Some (v_sku variant))"
  unfolding deduct_tx_def existing_tx_def Let_def prod.case ..

lemma reserve_tx_existing:
  "reserve_tx E T dto = existing_tx E (T, sd_variantId dto, sd_warehouseId dto)
     (NotFoundException (js ''There is no stock level with this info''))
     (\<lambda>s. \<not> sl_availableQuantity s < sd_quantity dto)
     (\<lambda>s. BadRequestException (js ''Insufficient stock available for reservation''))
     (\<lambda>s. s\<lparr>sl_availableQuantity := sl_availableQuantity s - sd_quantity dto,
       sl_reservedQuantity := sl_reservedQuantity s + sd_quantity dto\<rparr>) None"
  unfolding reserve_tx_def existing_tx_def Let_def prod.case ..

lemma release_tx_existing:
  "release_tx E T dto = existing_tx E (T, sd_variantId dto, sd_warehouseId dto)
     (NotFoundException (js ''Stock level record not found''))
     (\<lambda>s. \<not> sl_reservedQuantity s < sd_quantity dto)
     (\<lambda>s. BadRequestException (js ''Cannot release more stock than currently reserved. Reserved: '' @
       show_int (sl_reservedQuantity s)))
     (\<lambda>s. s\<lparr>sl_availableQuantity := sl_availableQuantity s + sd_quantity dto,
       sl_reservedQuantity := sl_reservedQuantity s - sd_quantity dto\<rparr>) None"
  unfolding release_tx_def existing_tx_def Let_def prod.case ..

lemma changes_enacted:
  "enacts (\<lambda>s. \<not> sl_availableQuantity s < q) (\<lambda>s. s\<lparr>sl_availableQuantity := sl_availableQuantity s - q\<rparr>)
     (deduct_change q)"
  "enacts (\<lambda>s. \<not> sl_availableQuantity s < q) (\<lambda>s. s\<lparr>sl_availableQuantity := sl_availableQuantity s - q,
     sl_reservedQuantity := sl_reservedQuantity s + q\<rparr>) (reserve_change q)"
  "enacts (\<lambda>s. \<not> sl_reservedQuantity s < q) (\<lambda>s. s\<lparr>sl_availableQuantity := sl_availableQuantity s + q,
     sl_reservedQuantity := sl_reservedQuantity s - q\<rparr>) (release_change q)"
  by (auto simp: enacts_def deduct_change_def reserve_change_def release_change_def levels_def)

lemma replenish_tx_run:
  assumes db: "repository stock_level_entity (stockOrm E)" and ok: "stock_ok (w_stock w)"
    and run: "replenish_tx E T (variant, warehouse, dto) w = (r, w')"
  shows "case r of Inr (saved, m) \<Rightarrow>
      moves w (T, v_id variant, wh_id warehouse) (replenish_change (rs_quantity dto)) m w'
    | Inl e \<Rightarrow> save_refused E w"
  using run unfolding replenish_tx_def prod.case
proof (cases rule: andThenE)
  case (err e)
  then show ?thesis
    by (auto simp: findOrCreate_def find_one_eq flow_simps split: option.splits list.splits)
next
  case (ok s w1)
  from ok(1) obtain found where f: "find_one (stockRepo E) (stock_at T (v_id variant) (wh_id warehouse)) w =
      (Inr found, w1)"
    and s: "s = or_default found (new_stock_level T (v_id variant) (wh_id warehouse))"
    by (auto simp: findOrCreate_def flow_simps or_default_def split: option.splits)
  note found = find_stock [OF db assms(2) f]
  let ?row = "s\<lparr>sl_availableQuantity := sl_availableQuantity s + rs_quantity dto\<rparr>"
  from ok(2) [unfolded Let_def] found show ?thesis
  proof (elim andThenE)
    fix e assume "save (stockRepo E) ?row w1 = (Inl e, w')" "r = Inl e"
    with found show ?thesis by (auto dest: save_fails)
  next
    fix x w2
    assume x: "save (stockRepo E) ?row w1 = (Inr x, w2)"
      and last: "ret (x, movement_of T (v_id variant) (wh_id warehouse) (Some (v_sku variant))
          (snapshot s) x) w2 = (r, w')"
    have s_place: "stock_place s = (T, v_id variant, wh_id warehouse)"
      and view: "or_default (stock_view (w_stock w) (T, v_id variant, wh_id warehouse)) (0, 0) = levels s"
      using found s by (auto simp: or_default_def new_stock_level_def stock_place_def levels_def
          split: option.splits)
    have "moves w (T, v_id variant, wh_id warehouse) (replenish_change (rs_quantity dto))
        (movement_of T (v_id variant) (wh_id warehouse) (Some (v_sku variant)) (snapshot s) x) w2"
    proof (rule save_moves [OF db assms(2)])
      show "save (stockRepo E) ?row w = (Inr x, w2)" using x found by simp
      show "\<exists>y \<in> set (w_stock w). sl_id y = sl_id ?row \<and> stock_place y = stock_place ?row"
        if "sl_id ?row \<noteq> no_id"
        using that found s s_place by (auto simp: or_default_def new_stock_level_def split: option.splits)
      show "stock_view (w_stock w) (stock_place ?row) = None" if "sl_id ?row = no_id"
        using that found s s_place assms(2)
        by (auto simp: or_default_def stock_ok_def ids_ok_def split: option.splits)
    qed (use view s_place in \<open>auto simp: replenish_change_def levels_def snapshot_def\<close>)
    with last show ?thesis by (auto simp: ret_eq)
  qed
qed

interpretation deduct: stock_operation deduct_tx
  "\<lambda>T (variant, warehouse, dto). (T, v_id variant, wh_id warehouse)"
  "\<lambda>(variant, warehouse, dto). deduct_change (sd_quantity dto)" "\<lambda>m. m"
  by unfold_locales
    (auto simp: deduct_tx_existing split: prod.splits dest!: existing_tx_run [OF _ _ changes_enacted(1)])

interpretation reserve: stock_operation reserve_tx
  "\<lambda>T dto. (T, sd_variantId dto, sd_warehouseId dto)" "\<lambda>dto. reserve_change (sd_quantity dto)" "\<lambda>m. m"
  by unfold_locales
    (auto simp: reserve_tx_existing dest!: existing_tx_run [OF _ _ changes_enacted(2)])

interpretation release: stock_operation release_tx
  "\<lambda>T dto. (T, sd_variantId dto, sd_warehouseId dto)" "\<lambda>dto. release_change (sd_quantity dto)" "\<lambda>m. m"
  by unfold_locales
    (auto simp: release_tx_existing dest!: existing_tx_run [OF _ _ changes_enacted(3)])

interpretation replenish: stock_operation replenish_tx
  "\<lambda>T (variant, warehouse, dto). (T, v_id variant, wh_id warehouse)"
  "\<lambda>(variant, warehouse, dto). replenish_change (rs_quantity dto)" snd
  by unfold_locales (auto split: prod.splits dest!: replenish_tx_run)

section \<open>The service's operations\<close>

lemma both_reads:
  assumes "both b m n w = (r, w')" and "\<And>r w'. m w = (r, w') \<Longrightarrow> w' = w" and "\<And>r w'. n w = (r, w') \<Longrightarrow> w' = w"
  shows "w' = w \<and> (case r of Inr (x, y) \<Rightarrow> m w = (Inr x, w) \<and> n w = (Inr y, w)
    | Inl e \<Rightarrow> m w = (Inl e, w) \<or> n w = (Inl e, w))"
proof -
  obtain rm wm rn wn where "m w = (rm, wm)" "n w = (rn, wn)" by (metis surj_pair)
  moreover from this assms(2,3) have "wm = w" "wn = w" by auto
  ultimately show ?thesis
    using assms(1) by (auto simp: both_def andThen_def ret_def split: sum.splits if_splits)
qed

definition known_place :: "uuid \<Rightarrow> uuid \<Rightarrow> uuid \<Rightarrow> world \<Rightarrow> bool" where
  "known_place T variantId warehouseId w \<longleftrightarrow>
     (\<exists>v \<in> set (w_variants w). v_id v = variantId \<and> v_tenantId v = T \<and> v_deletedAt v = None) \<and>
     (\<exists>h \<in> set (w_warehouses w). wh_id h = warehouseId \<and> wh_tenantId h = T \<and> wh_deletedAt h = None)"

lemma validated:
  assumes dbs: "repository variant_entity (variantOrm E)" "repository warehouse_entity (warehouseOrm E)"
    and run: "both b (variant_findOneById E T vi) (warehouse_findOne E T hi) w = (r, w')"
  shows "w' = w \<and> (case r of
      Inr (v, h) \<Rightarrow> known_place T vi hi w \<and> v_id v = vi \<and> wh_id h = hi
    | Inl e \<Rightarrow> \<not> known_place T vi hi w)"
proof -
  have states: "w' = w" if "variant_findOneById E T vi w = (r, w') \<or> warehouse_findOne E T hi w = (r', w')" for r r' w'
    using that variant_findOneById_state warehouse_findOne_Inr [OF dbs(2)] warehouse_findOne_Inl [OF dbs(2)]
    by (metis sum.exhaust)
  have none: "\<not> known_place T vi hi w" if "variant_findOneById E T vi w = (Inl e, w)" for e
    using repository.find_or_throw_Inl [OF dbs(1) that [unfolded variant_findOneById_def]]
    by (auto simp: known_place_def)
  have none': "\<not> known_place T vi hi w" if "warehouse_findOne E T hi w = (Inl e, w)" for e
    using warehouse_findOne_Inl [OF dbs(2) that] by (auto simp: known_place_def)
  from both_reads [OF run] states none none' show ?thesis
    by (fastforce simp: known_place_def split: sum.splits prod.splits
        dest: variant_findOneById_Inr [OF dbs(1)] warehouse_findOne_Inr [OF dbs(2)])
qed

lemma call_shape:
  "andThen m (\<lambda>a. publishStockMovement ctx (f a)) =
     andThen m (\<lambda>a. andThen (publishStockMovement ctx (f a)) (\<lambda>_. ret ()))"
proof -
  have "k = andThen k (\<lambda>_. ret ())" for k :: "(world, unit) act"
    by (rule ext) (auto simp: andThen_def ret_def split: prod.splits sum.splits)
  then show ?thesis by metis
qed

lemma deduct_call:
  assumes "repository stock_level_entity (stockOrm E)" "repository variant_entity (variantOrm E)"
    "repository warehouse_entity (warehouseOrm E)"
    and "\<And>n. stock_ok (w_stock (drift (between_attempts S) w n))"
    and run: "deductStock E S ctx T dto w = (r, w')"
  shows "if known_place T (sd_variantId dto) (sd_warehouseId dto) w
    then stock_outcome E S ctx (T, sd_variantId dto, sd_warehouseId dto)
      (deduct_change (sd_quantity dto)) w r w'
    else isl r \<and> w' = w"
  using run unfolding deductStock_def
proof (cases rule: andThenE)
  case (err e)
  with validated [OF assms(2,3) err(1)] show ?thesis by simp
next
  case (ok vh w1)
  obtain v h where vh: "vh = (v, h)" by (cases vh)
  with validated [OF assms(2,3) ok(1)] have k: "w1 = w" "known_place T (sd_variantId dto) (sd_warehouseId dto) w"
    "v_id v = sd_variantId dto" "wh_id h = sd_warehouseId dto" by auto
  from deduct.call_outcome [OF assms(1,4), of T "(v, h, dto)" ctx "\<lambda>_. ()" r w'] ok(2) k show ?thesis
    by (simp add: vh call_shape)
qed

lemma replenish_call:
  assumes "repository stock_level_entity (stockOrm E)" "repository variant_entity (variantOrm E)"
    "repository warehouse_entity (warehouseOrm E)"
    and "\<And>n. stock_ok (w_stock (drift (between_attempts S) w n))"
    and run: "replenish E S ctx T dto w = (r, w')"
  shows "if known_place T (rs_variantId dto) (rs_warehouseId dto) w
    then stock_outcome E S ctx (T, rs_variantId dto, rs_warehouseId dto)
      (replenish_change (rs_quantity dto)) w r w'
    else isl r \<and> w' = w"
  using run unfolding replenish_def
proof (cases rule: andThenE)
  case (err e)
  with validated [OF assms(2,3) err(1)] show ?thesis by simp
next
  case (ok vh w1)
  obtain v h where vh: "vh = (v, h)" by (cases vh)
  with validated [OF assms(2,3) ok(1)] have k: "w1 = w" "known_place T (rs_variantId dto) (rs_warehouseId dto) w"
    "v_id v = rs_variantId dto" "wh_id h = rs_warehouseId dto" by auto
  from replenish.call_outcome [OF assms(1,4), of T "(v, h, dto)" ctx fst r w'] ok(2) k show ?thesis
    by (simp add: vh case_prod_unfold)
qed

lemma reserve_release_call:
  assumes "repository stock_level_entity (stockOrm E)"
    and "\<And>n. stock_ok (w_stock (drift (between_attempts S) w n))"
  shows "(reserveStock E S ctx T dto w = (r, w') \<longrightarrow>
      stock_outcome E S ctx (T, sd_variantId dto, sd_warehouseId dto)
        (reserve_change (sd_quantity dto)) w r w') \<and>
    (releaseStock E S ctx T dto w = (r, w') \<longrightarrow>
      stock_outcome E S ctx (T, sd_variantId dto, sd_warehouseId dto)
        (release_change (sd_quantity dto)) w r w')"
  using reserve.call_outcome [OF assms, of T dto ctx "\<lambda>_. ()" r w']
    release.call_outcome [OF assms, of T dto ctx "\<lambda>_. ()" r w']
  by (simp add: reserveStock_def releaseStock_def call_shape)

section \<open>Properties of the operations\<close>






section \<open>A concrete store\<close>

definition calm :: surroundings where
  "calm = \<lparr>variant_first = True, random_draw = (\<lambda>_. 0), between_attempts = (\<lambda>_ w. w),
     commit_error = (\<lambda>_. None)\<rparr>"

lemma drift_calm [simp]: "drift (between_attempts calm) w n = w"
  by (induction n) (simp_all add: calm_def)

definition sample_stock :: world where
  "sample_stock = empty_world\<lparr>
     w_variants := [(new_variant (js ''A'') (js ''P'') \<lparr>cv_sku = js ''TSH-M'', cv_price = 10,
       cv_attributes = None\<rparr>)\<lparr>v_id := js ''V''\<rparr>],
     w_warehouses := [(new_warehouse (js ''A'') \<lparr>cw_name = js ''Main'', cw_location = None\<rparr>)\<lparr>wh_id := js ''H''\<rparr>],
     w_stock := [(new_stock_level (js ''A'') (js ''V'') (js ''H''))\<lparr>sl_id := js ''S'',
       sl_availableQuantity := 10, sl_reservedQuantity := 2\<rparr>]\<rparr>"

definition sample_request :: "int \<Rightarrow> stock_dto" where
  "sample_request q = \<lparr>sd_warehouseId = js ''H'', sd_variantId = js ''V'', sd_quantity = q,
     sd_referenceId = None, sd_reason = None\<rparr>"

abbreviation sample_place :: stock_place where
  "sample_place \<equiv> (js ''A'', js ''V'', js ''H'')"

lemma sample_stock_ok: "stock_ok (w_stock sample_stock)"
  by (simp add: stock_ok_def ids_ok_def unique_ok_def sample_stock_def no_id_def js_def)




section \<open>Histories\<close>

text \<open>
  One call of the service, as the controller makes it: the quantity has passed validation (at
  least 1), the request has a tenant context, and calls run one after another. Interleavings
  within a call are the subject of theory \<open>Interleaving\<close>.
\<close>

definition sequential :: "surroundings \<Rightarrow> bool" where
  "sequential S \<longleftrightarrow> between_attempts S = (\<lambda>_ w. w)"

inductive inventory_step :: "env \<Rightarrow> uuid \<Rightarrow> world \<Rightarrow> world \<Rightarrow> bool" for E :: env where
  inv_deduct: "deductStock E S ctx T dto w = (r, w') \<Longrightarrow> 1 \<le> sd_quantity dto \<Longrightarrow> sequential S \<Longrightarrow>
    context_tenant ctx = Some T \<Longrightarrow> inventory_step E T w w'"
| inv_replenish: "replenish E S ctx T dto' w = (r', w') \<Longrightarrow> 1 \<le> rs_quantity dto' \<Longrightarrow> sequential S \<Longrightarrow>
    context_tenant ctx = Some T \<Longrightarrow> inventory_step E T w w'"
| inv_reserve: "reserveStock E S ctx T dto w = (r, w') \<Longrightarrow> 1 \<le> sd_quantity dto \<Longrightarrow> sequential S \<Longrightarrow>
    context_tenant ctx = Some T \<Longrightarrow> inventory_step E T w w'"
| inv_release: "releaseStock E S ctx T dto w = (r, w') \<Longrightarrow> 1 \<le> sd_quantity dto \<Longrightarrow> sequential S \<Longrightarrow>
    context_tenant ctx = Some T \<Longrightarrow> inventory_step E T w w'"
| inv_findAll: "inventory_findAll E T query w = (r'', w') \<Longrightarrow> inventory_step E T w w'"

definition quantities_ok :: "stock_level list \<Rightarrow> bool" where
  "quantities_ok t \<longleftrightarrow> (\<forall>r \<in> set t. 0 \<le> sl_availableQuantity r \<and> 0 \<le> sl_reservedQuantity r)"

lemma quantities_view:
  "stock_ok t \<Longrightarrow> quantities_ok t \<longleftrightarrow> (\<forall>k a b. stock_view t k = Some (a, b) \<longrightarrow> 0 \<le> a \<and> 0 \<le> b)"
proof -
  assume ok: "stock_ok t"
  have view: "stock_view t (stock_place r) = Some (sl_availableQuantity r, sl_reservedQuantity r)"
    if "r \<in> set t" for r
    using that by (simp add: stock_view_Some [OF ok] levels_def) blast
  have rows: "\<exists>r \<in> set t. a = sl_availableQuantity r \<and> b = sl_reservedQuantity r"
    if "stock_view t k = Some (a, b)" for k a b
    using that by (auto simp: stock_view_Some [OF ok] levels_def)
  show ?thesis
    unfolding quantities_ok_def using view rows by metis
qed

definition inventory_inv :: "world \<Rightarrow> bool" where
  "inventory_inv w \<longleftrightarrow> stock_ok (w_stock w) \<and> quantities_ok (w_stock w)"

text \<open>A change that never drives a quantity below zero.\<close>

definition safe_change :: "stock_change \<Rightarrow> bool" where
  "safe_change change \<longleftrightarrow> (\<forall>l a b. change l = Some (a, b) \<longrightarrow>
     (\<forall>c d. l = Some (c, d) \<longrightarrow> 0 \<le> c \<and> 0 \<le> d) \<longrightarrow> 0 \<le> a \<and> 0 \<le> b)"

lemma safe_changes:
  "1 \<le> q \<Longrightarrow> safe_change (deduct_change q)" "1 \<le> q \<Longrightarrow> safe_change (reserve_change q)"
  "1 \<le> q \<Longrightarrow> safe_change (release_change q)" "1 \<le> q \<Longrightarrow> safe_change (replenish_change q)"
  by (auto simp: safe_change_def deduct_change_def reserve_change_def release_change_def
      replenish_change_def or_default_def split: option.splits if_splits prod.splits)

lemma drift_sequential: "sequential S \<Longrightarrow> drift (between_attempts S) w n = w"
  by (induction n) (simp_all add: sequential_def)

lemma inventory_findAll_state: "inventory_findAll E T query w = (r, w') \<Longrightarrow> w' = w"
  by (cases r) (auto simp: inventory_findAll_def Let_def flow_simps inv_simps)

definition moved_safely :: "uuid \<Rightarrow> world \<Rightarrow> world \<Rightarrow> bool" where
  "moved_safely T w w' \<longleftrightarrow> (\<exists>k change m u ctx. fst k = T \<and> safe_change change \<and>
     context_tenant ctx = Some T \<and> moves w k change m u \<and> w' = emitted (movement_events ctx m) u)"

lemma outcome_sequential:
  assumes "stock_outcome E S ctx (T, v, h) change w r w'" and "safe_change change" and "sequential S"
    and "context_tenant ctx = Some T"
  shows "w' = w \<or> moved_safely T w w'"
  using assms by (fastforce simp: stock_outcome_def Let_def drift_sequential moved_safely_def)

lemma inventory_step_moves:
  assumes dbs: "repository stock_level_entity (stockOrm E)" "repository variant_entity (variantOrm E)"
    "repository warehouse_entity (warehouseOrm E)"
    and ok: "stock_ok (w_stock w)" and step: "inventory_step E T w w'"
  shows "w' = w \<or> moved_safely T w w'"
proof -
  have oks: "stock_ok (w_stock (drift (between_attempts S) w n))" if "sequential S" for S n
    using ok that by (simp add: drift_sequential)
  from step show ?thesis
  proof (cases rule: inventory_step.cases)
    case (inv_deduct S ctx dto r)
    from deduct_call [OF dbs oks [OF inv_deduct(3)] inv_deduct(1)] show ?thesis
      using outcome_sequential safe_changes(1) [OF inv_deduct(2)] inv_deduct(3,4)
      by (metis (full_types))
  next
    case (inv_replenish S ctx dto r)
    from replenish_call [OF dbs oks [OF inv_replenish(3)] inv_replenish(1)] show ?thesis
      using outcome_sequential safe_changes(4) [OF inv_replenish(2)] inv_replenish(3,4)
      by (metis (full_types))
  next
    case (inv_reserve S ctx dto r)
    from reserve_release_call [OF dbs(1) oks [OF inv_reserve(3)]] inv_reserve(1) show ?thesis
      using outcome_sequential safe_changes(2) [OF inv_reserve(2)] inv_reserve(3,4) by blast
  next
    case (inv_release S ctx dto r)
    from reserve_release_call [OF dbs(1) oks [OF inv_release(3)]] inv_release(1) show ?thesis
      using outcome_sequential safe_changes(3) [OF inv_release(2)] inv_release(3,4) by blast
  next
    case inv_findAll
    then show ?thesis by (auto dest: inventory_findAll_state)
  qed
qed

lemma moved_safely_inv:
  assumes "moved_safely T w w'" and "inventory_inv w"
  shows "inventory_inv w'"
proof -
  from assms(1) obtain k change m u ctx l where safe: "safe_change change"
    and l: "change (stock_view (w_stock w) k) = Some l"
      "stock_view (w_stock u) = (stock_view (w_stock w))(k \<mapsto> l)" "stock_ok (w_stock u)"
    and w': "w' = emitted (movement_events ctx m) u"
    by (auto simp: moved_safely_def moves_def)
  obtain a b where ab: "l = (a, b)" by (cases l)
  from assms(2) have old: "\<forall>k a b. stock_view (w_stock w) k = Some (a, b) \<longrightarrow> 0 \<le> a \<and> 0 \<le> b"
    using quantities_view [of "w_stock w"] unfolding inventory_inv_def by blast
  then have "0 \<le> a \<and> 0 \<le> b"
    using safe l(1) unfolding ab safe_change_def by blast
  with l(2,3) old show ?thesis
    by (auto simp: inventory_inv_def quantities_view w' emitted_def ab)
qed

lemma inventory_service:
  assumes "repository stock_level_entity (stockOrm E)" "repository variant_entity (variantOrm E)"
    "repository warehouse_entity (warehouseOrm E)"
  shows "tenant_service (inventory_step E) w_stock sl_tenantId inventory_inv"
proof
  fix T w w'
  assume step: "inventory_step E T w w'" and inv: "inventory_inv w"
  then have "stock_ok (w_stock w)" by (simp add: inventory_inv_def)
  note m = inventory_step_moves [OF assms this step]
  then show "inventory_inv w'" using moved_safely_inv inv by blast
  from m show "{#x \<in># mset (w_stock w'). sl_tenantId x \<noteq> T#} = {#x \<in># mset (w_stock w). sl_tenantId x \<noteq> T#}"
    by (auto simp: moved_safely_def moves_def emitted_def)
qed

interpretation inventory: tenant_service "inventory_step mem_env" w_stock sl_tenantId inventory_inv
  by (rule inventory_service) simp_all

lemma deduct_step:
  "inventory_step mem_env (js ''A'') w (snd (deductStock mem_env calm (sample_context (js ''A''))
     (js ''A'') (sample_request 3) w))"
  by (rule inv_deduct [OF prod.collapse [symmetric]])
    (simp_all add: sample_request_def sequential_def calm_def sample_context_def context_tenant_def
      truthy_def js_def)

lemma sample_inv: "inventory_inv sample_stock"
  using sample_stock_ok
  by (simp add: inventory_inv_def quantities_ok_def) (simp add: sample_stock_def)

definition sample_after :: world where
  "sample_after = snd (deductStock mem_env calm (sample_context (js ''A'')) (js ''A'') (sample_request 3)
     (snd (deductStock mem_env calm (sample_context (js ''A'')) (js ''A'') (sample_request 3) sample_stock)))"

lemma sample_history: "history (inventory_step mem_env) [js ''A'', js ''A''] sample_stock sample_after"
  unfolding sample_after_def by (auto intro!: deduct_step exI)

text \<open>
  C5: Through any history of inventory calls of any tenants, no available or reserved quantity
  is ever negative, stock levels stay unique per variant and warehouse, and the stock of a tenant
  that made no call is exactly what it was.
\<close>

theorem inventory_history:
  assumes "repository stock_level_entity (stockOrm E)" "repository variant_entity (variantOrm E)"
    "repository warehouse_entity (warehouseOrm E)"
    and "history (inventory_step E) Ts w w'" and "inventory_inv w"
  shows "inventory_inv w' \<and> (T \<notin> set Ts \<longrightarrow>
    {#x \<in># mset (w_stock w'). sl_tenantId x = T#} = {#x \<in># mset (w_stock w). sl_tenantId x = T#})"
  using assms tenant_service.history_inv [OF inventory_service [OF assms(1-3)]]
    tenant_service.history_tenant [OF inventory_service [OF assms(1-3)]] by blast

lemma inventory_history_witness:
  "inventory_inv sample_after \<and> stock_view (w_stock sample_after) sample_place = Some (4, 2)"
proof
  show "inventory_inv sample_after"
    using inventory_history [OF _ _ _ sample_history sample_inv, of "js ''B''"] by simp
qed code_simp

section \<open>The published movements\<close>

text \<open>
  Replaying the movements on the bus over a ledger: each must find the quantities it says were
  there before. \<open>None\<close> is a replay that does not fit.
\<close>

fun replay :: "event list \<Rightarrow> (stock_place \<Rightarrow> (int \<times> int) option) \<Rightarrow>
    (stock_place \<Rightarrow> (int \<times> int) option) option" where
  "replay [] v = Some v"
| "replay (StockMovementEvent m # es) v =
     (let k = (sm_tenantId m, sm_variantId m, sm_warehouseId m);
          before = (ss_availableQuantity (sm_before m), ss_reservedQuantity (sm_before m));
          after = (ss_availableQuantity (sm_after m), ss_reservedQuantity (sm_after m))
      in if or_default (v k) (0, 0) = before then replay es (v(k \<mapsto> after)) else None)"
| "replay (AuditLogEvent e # es) v = replay es v"
| "replay (NotificationDispatchEvent e # es) v = replay es v"

lemma replay_append: "replay (es @ fs) v = Option.bind (replay es v) (replay fs)"
  by (induction es v rule: replay.induct) (simp_all add: Let_def del: fun_upd_apply)

lemma moved_safely_replay:
  assumes "moved_safely T w w'"
  shows "\<exists>es. w_bus w' = w_bus w @ es \<and>
    replay es (stock_view (w_stock w)) = Some (stock_view (w_stock w'))"
proof -
  from assms obtain k change m u ctx where ctx: "context_tenant ctx = Some T"
    and m: "moves w k change m u" and w': "w' = emitted (movement_events ctx m) u"
    by (auto simp: moved_safely_def)
  from m obtain t where "u = w\<lparr>w_stock := t\<rparr>" by (auto simp: moves_def)
  then have "w_bus u = w_bus w" by simp
  with ctx m show ?thesis
    by (intro exI [of _ "movement_events ctx m"])
      (auto simp: w' emitted_def movement_events_def audit_events_def moves_def reports_def Let_def)
qed

text \<open>
  C6: The published movements account for the whole stock table: after any history of
  inventory calls, the events published since then, replayed over the quantities there were,
  give exactly the quantities there are; each movement's before is what the movements
  published earlier left.
\<close>

theorem movements_account_for_stock:
  assumes "repository stock_level_entity (stockOrm E)" "repository variant_entity (variantOrm E)"
    "repository warehouse_entity (warehouseOrm E)"
    and "history (inventory_step E) Ts w w'" and "inventory_inv w"
  shows "\<exists>es. w_bus w' = w_bus w @ es \<and>
    replay es (stock_view (w_stock w)) = Some (stock_view (w_stock w'))"
  using assms(4,5)
proof (induction rule: history.induct)
  case (history_Nil w)
  then show ?case by (intro exI [of _ "[]"]) simp
next
  case (history_Cons T w w1 Ts w2)
  from history_Cons.prems have "stock_ok (w_stock w)" by (simp add: inventory_inv_def)
  from inventory_step_moves [OF assms(1-3) this history_Cons.hyps(1)]
  obtain es where es: "w_bus w1 = w_bus w @ es"
    "replay es (stock_view (w_stock w)) = Some (stock_view (w_stock w1))"
    using moved_safely_replay by (metis append_Nil2 replay.simps(1))
  have "inventory_inv w1"
    using tenant_service.step_inv [OF inventory_service [OF assms(1-3)] history_Cons.hyps(1) history_Cons.prems] .
  from history_Cons.IH [OF this] es show ?case
    by (auto simp: replay_append)
qed

lemma movements_account_for_stock_witness:
  "\<exists>es. w_bus sample_after = w_bus sample_stock @ es \<and> length es = 4 \<and>
    replay es (stock_view (w_stock sample_stock)) = Some (stock_view (w_stock sample_after))"
proof -
  have "length (w_bus sample_after) = length (w_bus sample_stock) + 4" by code_simp
  with movements_account_for_stock [OF _ _ _ sample_history sample_inv] show ?thesis by force
qed

end
