(* ===== verification/Interleaving.thy ===== *)
theory Interleaving
  imports Inventory
begin

text \<open>
  Concurrent stock deductions. \<open>deductStock\<close> runs its transaction at PostgreSQL's default
  isolation level (read committed) and reads without a lock, so another transaction's statements
  may run between its \<open>findOne\<close> and its \<open>save\<close>. Here a deduction is split into these two
  statements, and any number of deductions at one place are interleaved. The \<open>save\<close> of an entity
  with a \<open>@VersionColumn\<close> counts the version up but does not compare it, so it stores what was
  computed from the earlier read.
\<close>

section \<open>The two statements of a deduction\<close>

definition deduct_load ::
  "env \<Rightarrow> uuid \<Rightarrow> variant \<Rightarrow> warehouse \<Rightarrow> stock_dto \<Rightarrow> (world, stock_snapshot \<times> stock_level) act" where
  "deduct_load E tenantId variant warehouse dto =
     andThen (find_one (stockRepo E) (stock_at tenantId (v_id variant) (wh_id warehouse))) (\<lambda>found.
     case found of
       None \<Rightarrow> throw (NotFoundException (js ''There is no stock level with this info''))
     | Some stockLevel \<Rightarrow>
         andThen (ensure (\<not> sl_availableQuantity stockLevel < sd_quantity dto)
           (BadRequestException (js ''insufficient stock quantity''))) (\<lambda>_.
         ret (snapshot stockLevel,
           stockLevel\<lparr>sl_availableQuantity := sl_availableQuantity stockLevel - sd_quantity dto\<rparr>)))"

definition deduct_store ::
  "env \<Rightarrow> uuid \<Rightarrow> variant \<Rightarrow> warehouse \<Rightarrow> stock_snapshot \<times> stock_level \<Rightarrow> (world, stock_movement) act" where
  "deduct_store E tenantId variant warehouse = (\<lambda>(before, stockLevel).
     andThen (save (stockRepo E) stockLevel) (\<lambda>stockLevel.
     ret (movement_of tenantId (v_id variant) (wh_id warehouse) (Some (v_sku variant)) before stockLevel)))"

lemma deduct_tx_split:
  "deduct_tx E T (variant, warehouse, dto) w =
     andThen (deduct_load E T variant warehouse dto) (deduct_store E T variant warehouse) w"
  by (auto simp: deduct_tx_def deduct_load_def deduct_store_def andThen_def find_one_def gets_def ensure_def
      throw_def ret_def Let_def split: option.splits list.splits)

lemma deduct_load_Inr:
  assumes db: "repository stock_level_entity (stockOrm E)" and ok: "stock_ok (w_stock w)"
    and run: "deduct_load E T variant warehouse dto w = (Inr (b, s), w')"
  shows "w' = w \<and> (\<exists>r \<in> set (w_stock w). stock_place r = (T, v_id variant, wh_id warehouse) \<and>
    stock_view (w_stock w) (T, v_id variant, wh_id warehouse) = Some (levels r) \<and>
    sd_quantity dto \<le> sl_availableQuantity r \<and> b = snapshot r \<and>
    s = r\<lparr>sl_availableQuantity := sl_availableQuantity r - sd_quantity dto\<rparr>)"
proof -
  from run obtain r where f: "find_one (stockRepo E) (stock_at T (v_id variant) (wh_id warehouse)) w = (Inr (Some r), w')"
    and r: "sd_quantity dto \<le> sl_availableQuantity r" "b = snapshot r"
      "s = r\<lparr>sl_availableQuantity := sl_availableQuantity r - sd_quantity dto\<rparr>"
    by (auto simp: deduct_load_def flow_simps find_one_eq split: option.splits)
  from find_stock [OF db ok f] r show ?thesis by auto
qed

lemma deduct_load_state: "deduct_load E T variant warehouse dto w = (r, w') \<Longrightarrow> w' = w"
  by (cases r) (auto simp: deduct_load_def flow_simps find_one_eq split: option.splits list.splits)

text \<open>A row known by its identifier and place, whatever its quantities are by now.\<close>

definition known_row :: "world \<Rightarrow> stock_level \<Rightarrow> bool" where
  "known_row w s \<longleftrightarrow> sl_id s \<noteq> no_id \<and> (\<exists>y \<in> set (w_stock w). sl_id y = sl_id s \<and> stock_place y = stock_place s)"

lemma store_run:
  assumes db: "repository stock_level_entity (stockOrm E)" and ok: "stock_ok (w_stock w)"
    and known: "known_row w s" and run: "save (stockRepo E) s w = (Inr x, w')"
  shows "stock_ok (w_stock w') \<and> w' = w\<lparr>w_stock := w_stock w'\<rparr> \<and>
    stock_view (w_stock w') = (stock_view (w_stock w))(stock_place s \<mapsto> levels s) \<and>
    (\<forall>r. known_row w r \<longrightarrow> known_row w' r) \<and> levels x = levels s \<and>
    {#r \<in># mset (w_stock w'). sl_tenantId r \<noteq> fst (stock_place s)#} =
      {#r \<in># mset (w_stock w). sl_tenantId r \<noteq> fst (stock_place s)#}"
proof -
  from run obtain t' where t: "o_save (stockOrm E) s (w_stock w) = Inr (x, t')" and w': "w' = w\<lparr>w_stock := t'\<rparr>"
    by (auto simp: save_Inr stockRepo_def)
  from known have id: "sl_id s \<noteq> no_id" and old: "\<exists>y \<in> set (w_stock w). sl_id y = sl_id s \<and> stock_place y = stock_place s"
    by (simp_all add: known_row_def)
  note x = stock_saved [OF db t] and xid = repository.save_old [OF db t, unfolded stock_fields, OF id]
  note set' = repository.save_set [OF db t, unfolded stock_fields]
  have "known_row w' r" if r: "known_row w r" for r
  proof -
    from r obtain y where y: "sl_id r \<noteq> no_id" "y \<in> set (w_stock w)" "sl_id y = sl_id r" "stock_place y = stock_place r"
      by (auto simp: known_row_def)
    show ?thesis
    proof (cases "sl_id y = sl_id x")
      case True
      from old obtain z where z: "z \<in> set (w_stock w)" "sl_id z = sl_id s" "stock_place z = stock_place s" by blast
      with True xid y(2) ok have "z = y" by (metis repository.same_id [OF db] stock_fields(1) stock_ok_def)
      with x z y xid True show ?thesis by (auto simp: known_row_def w' set')
    next
      case False
      with y show ?thesis by (auto simp: known_row_def w' set')
    qed
  qed
  moreover have "{#r \<in># mset t'. sl_tenantId r \<noteq> fst (stock_place s)#} =
      {#r \<in># mset (w_stock w). sl_tenantId r \<noteq> fst (stock_place s)#}"
  proof (rule repository.save_others [OF db t, where tenant_of = sl_tenantId])
    show "ids_ok stock_level_entity (w_stock w)" using ok by (simp add: stock_ok_def)
    show "sl_tenantId x = fst (stock_place s)" using x by (simp add: stock_place_def)
    show "\<exists>y \<in> set (w_stock w). e_id stock_level_entity y = e_id stock_level_entity s \<and>
        sl_tenantId y = fst (stock_place s)"
      using old by (auto simp: stock_place_def)
  qed
  ultimately show ?thesis
    using w' x id stock_view_save [OF db t ok old] stock_save_ok [OF db t ok] by auto
qed

section \<open>Interleaved deductions\<close>

datatype thread =
    Started stock_dto
  | Holding stock_dto stock_snapshot stock_level
  | Finished stock_dto "exn + stock_movement"

text \<open>One step runs the next statement of one of the deductions.\<close>

inductive thread_step ::
  "env \<Rightarrow> uuid \<Rightarrow> variant \<Rightarrow> warehouse \<Rightarrow> world \<times> thread list \<Rightarrow> world \<times> thread list \<Rightarrow> bool"
  for E :: env and T :: uuid and v :: variant and h :: warehouse where
  step_load: "i < length ts \<Longrightarrow> ts ! i = Started dto \<Longrightarrow> deduct_load E T v h dto w = (Inr (b, s), w') \<Longrightarrow>
    thread_step E T v h (w, ts) (w', ts[i := Holding dto b s])"
| step_refuse: "i < length ts \<Longrightarrow> ts ! i = Started dto \<Longrightarrow> deduct_load E T v h dto w = (Inl e, w') \<Longrightarrow>
    thread_step E T v h (w, ts) (w', ts[i := Finished dto (Inl e)])"
| step_store: "i < length ts \<Longrightarrow> ts ! i = Holding dto b s \<Longrightarrow> deduct_store E T v h (b, s) w = (r, w') \<Longrightarrow>
    thread_step E T v h (w, ts) (w', ts[i := Finished dto r])"

inductive threads_reach ::
  "env \<Rightarrow> uuid \<Rightarrow> variant \<Rightarrow> warehouse \<Rightarrow> world \<times> thread list \<Rightarrow> world \<times> thread list \<Rightarrow> bool"
  for E :: env and T :: uuid and v :: variant and h :: warehouse where
  reach_refl: "threads_reach E T v h c c"
| reach_step: "threads_reach E T v h c c' \<Longrightarrow> thread_step E T v h c' c'' \<Longrightarrow> threads_reach E T v h c c''"

fun thread_ok :: "world \<Rightarrow> stock_place \<Rightarrow> thread \<Rightarrow> bool" where
  "thread_ok w k (Holding dto b s) \<longleftrightarrow> known_row w s \<and> stock_place s = k \<and>
     0 \<le> sl_availableQuantity s \<and> 0 \<le> sl_reservedQuantity s"
| "thread_ok w k _ \<longleftrightarrow> True"

definition threads_inv :: "stock_place \<Rightarrow> world \<times> thread list \<Rightarrow> bool" where
  "threads_inv k c \<longleftrightarrow> stock_ok (w_stock (fst c)) \<and> quantities_ok (w_stock (fst c)) \<and>
     list_all (thread_ok (fst c) k) (snd c)"

lemma thread_ok_mono: "thread_ok w k t \<Longrightarrow> (\<And>r. known_row w r \<Longrightarrow> known_row w' r) \<Longrightarrow> thread_ok w' k t"
  by (cases t) auto

lemma list_all_update: "list_all P xs \<Longrightarrow> P y \<Longrightarrow> list_all P (xs[i := y])"
  by (auto simp: list_all_iff dest: set_update_subset_insert [THEN subsetD])

lemma thread_step_inv:
  assumes db: "repository stock_level_entity (stockOrm E)" and k: "k = (T, v_id v, wh_id h)"
    and step: "thread_step E T v h c c'" and inv: "threads_inv k c"
  shows "threads_inv k c' \<and> {#r \<in># mset (w_stock (fst c')). sl_tenantId r \<noteq> T#} =
    {#r \<in># mset (w_stock (fst c)). sl_tenantId r \<noteq> T#}"
  using step
proof cases
  case (step_load i ts dto w b s w')
  from inv step_load have ok: "stock_ok (w_stock w)" "quantities_ok (w_stock w)" "list_all (thread_ok w k) ts"
    by (simp_all add: threads_inv_def)
  from deduct_load_Inr [OF db ok(1) step_load(5)] obtain r where r: "w' = w" "r \<in> set (w_stock w)"
    "stock_place r = k" "sd_quantity dto \<le> sl_availableQuantity r"
    "s = r\<lparr>sl_availableQuantity := sl_availableQuantity r - sd_quantity dto\<rparr>" by (auto simp: k)
  have "sl_id r \<noteq> no_id" using ok(1) r(2) by (auto simp: stock_ok_def ids_ok_def)
  moreover have "0 \<le> sl_reservedQuantity r" using ok(2) r(2) by (auto simp: quantities_ok_def)
  ultimately have "thread_ok w k (Holding dto b s)" using r by (auto simp: known_row_def)
  with ok r(1) step_load show ?thesis by (simp add: threads_inv_def list_all_update)
next
  case (step_refuse i ts dto w e w')
  then have "w' = w" by (blast dest: deduct_load_state)
  with step_refuse inv show ?thesis by (simp add: threads_inv_def list_all_update)
next
  case (step_store i ts dto b s w r w')
  from inv step_store have ok: "stock_ok (w_stock w)" "quantities_ok (w_stock w)" "list_all (thread_ok w k) ts"
    by (simp_all add: threads_inv_def)
  have held: "known_row w s" "stock_place s = k" "0 \<le> sl_availableQuantity s" "0 \<le> sl_reservedQuantity s"
    using ok(3) step_store(3,4) by (auto simp: list_all_length)
  show ?thesis
  proof (cases "save (stockRepo E) s w")
    case (Pair r0 w0)
    show ?thesis
    proof (cases r0)
      case (Inl e)
      with Pair have fail: "save (stockRepo E) s w = (Inl e, w0)" by simp
      then have "w0 = w" by (simp add: save_Inl)
      with fail step_store(5) have "w' = w" by (auto simp: deduct_store_def andThen_def)
      with step_store inv show ?thesis by (simp add: threads_inv_def list_all_update)
    next
      case (Inr x)
      with Pair step_store(5) have "w' = w0" by (auto simp: deduct_store_def andThen_def ret_def)
      with Pair Inr have "save (stockRepo E) s w = (Inr x, w')" by simp
      note s = store_run [OF db ok(1) held(1) this]
      have "\<forall>k a b. stock_view (w_stock w) k = Some (a, b) \<longrightarrow> 0 \<le> a \<and> 0 \<le> b"
        using ok(2) quantities_view [OF ok(1)] by blast
      then have "\<forall>k a b. stock_view (w_stock w') k = Some (a, b) \<longrightarrow> 0 \<le> a \<and> 0 \<le> b"
        using held s by (simp add: levels_def)
      then have "quantities_ok (w_stock w')"
        using s quantities_view by blast
      moreover have "list_all (thread_ok w' k) ts"
        using ok(3) s by (auto simp: list_all_iff intro: thread_ok_mono)
      ultimately show ?thesis
        using s held(2) step_store by (simp add: threads_inv_def list_all_update k)
    qed
  qed
qed

lemma threads_reach_inv:
  assumes db: "repository stock_level_entity (stockOrm E)"
    and run: "threads_reach E T v h c c'" and inv: "threads_inv (T, v_id v, wh_id h) c"
  shows "threads_inv (T, v_id v, wh_id h) c' \<and> {#r \<in># mset (w_stock (fst c')). sl_tenantId r \<noteq> T#} =
    {#r \<in># mset (w_stock (fst c)). sl_tenantId r \<noteq> T#}"
  using run inv
proof induction
  case (reach_step c c' c'')
  from thread_step_inv [OF db refl reach_step.hyps(2)] reach_step show ?case by auto
qed simp


text \<open>Two deductions of which both read before either writes.\<close>

definition overlapping_deductions ::
  "env \<Rightarrow> uuid \<Rightarrow> variant \<Rightarrow> warehouse \<Rightarrow> stock_dto \<Rightarrow> stock_dto \<Rightarrow> (world, stock_movement \<times> stock_movement) act" where
  "overlapping_deductions E T v h dto1 dto2 =
     andThen (deduct_load E T v h dto1) (\<lambda>held1.
     andThen (deduct_load E T v h dto2) (\<lambda>held2.
     andThen (deduct_store E T v h held1) (\<lambda>m1.
     andThen (deduct_store E T v h held2) (\<lambda>m2.
     ret (m1, m2)))))"

lemma overlapping_reach:
  assumes "overlapping_deductions E T v h dto1 dto2 w = (Inr (m1, m2), w')"
  shows "threads_reach E T v h (w, [Started dto1, Started dto2])
    (w', [Finished dto1 (Inr m1), Finished dto2 (Inr m2)])"
proof -
  from assms obtain b1 s1 w1 b2 s2 w2 w3 where
    run: "deduct_load E T v h dto1 w = (Inr (b1, s1), w1)" "deduct_load E T v h dto2 w1 = (Inr (b2, s2), w2)"
      "deduct_store E T v h (b1, s1) w2 = (Inr m1, w3)" "deduct_store E T v h (b2, s2) w3 = (Inr m2, w')"
    by (auto simp: overlapping_deductions_def flow_simps)
  have "thread_step E T v h (w, [Started dto1, Started dto2]) (w1, [Holding dto1 b1 s1, Started dto2])"
    using step_load [of 0 "[Started dto1, Started dto2]", OF _ _ run(1)] by simp
  moreover have "thread_step E T v h (w1, [Holding dto1 b1 s1, Started dto2]) (w2, [Holding dto1 b1 s1, Holding dto2 b2 s2])"
    using step_load [of 1 "[Holding dto1 b1 s1, Started dto2]", OF _ _ run(2)] by simp
  moreover have "thread_step E T v h (w2, [Holding dto1 b1 s1, Holding dto2 b2 s2])
      (w3, [Finished dto1 (Inr m1), Holding dto2 b2 s2])"
    using step_store [of 0 "[Holding dto1 b1 s1, Holding dto2 b2 s2]", OF _ _ run(3)] by simp
  moreover have "thread_step E T v h (w3, [Finished dto1 (Inr m1), Holding dto2 b2 s2])
      (w', [Finished dto1 (Inr m1), Finished dto2 (Inr m2)])"
    using step_store [of 1 "[Finished dto1 (Inr m1), Holding dto2 b2 s2]", OF _ _ run(4)] by simp
  ultimately show ?thesis by (rule reach_step [OF reach_step [OF reach_step [OF reach_step [OF reach_refl]]]])
qed




end
