(* ===== verification/Http.thy ===== *)
theory Http
  imports AuditLog
begin

text \<open>
  Requests and responses: \<open>RequestIdMiddleware\<close>, the context the audit interceptor takes from a
  request, and \<open>GlobalExceptionFilter\<close>, which turns whatever a request throws into the error
  response. The runtime's part (the names of the status codes, the text of a stack trace, the
  JSON text of an exception, the clock) is a parameter.
\<close>

section \<open>Requests\<close>

text \<open>A header as Node presents it: absent, a string, or a list of strings.\<close>

datatype header = HeaderAbsent | HeaderOne jstring | HeaderMany "jstring list"

text \<open>
  What the code reads of a request before a handler runs; \<open>rq_requestId\<close> and \<open>rq_id\<close> are the
  properties \<open>requestId\<close> and \<open>id\<close> an earlier middleware may have set.
\<close>

record http_request =
  rq_method :: jstring
  rq_originalUrl :: jstring
  rq_url :: jstring
  rq_tenantHeader :: header
  rq_idHeader :: header
  rq_requestId :: "jstring option"
  rq_id :: "jstring option"
  rq_bearer :: "jstring option"
  rq_ip :: "jstring option"
  rq_userAgent :: "jstring option"

text \<open>\<open>RequestIdMiddleware.use\<close>: the identifier put on the request; \<open>fresh\<close> is \<open>randomUUID()\<close>.\<close>

definition request_id :: "jstring \<Rightarrow> http_request \<Rightarrow> jstring" where
  "request_id fresh req =
     (case truthy (rq_requestId req) of
        Some i \<Rightarrow> i
      | None \<Rightarrow>
          (case truthy (rq_id req) of
             Some i \<Rightarrow> i
           | None \<Rightarrow>
               (case rq_idHeader req of
                  HeaderOne incoming \<Rightarrow> if 0 < length incoming then incoming else fresh
                | _ \<Rightarrow> fresh)))"

text \<open>
  \<open>AuditContextInterceptor.intercept\<close>: the storage the handler runs in, from the tenant and the
  user that middleware and guards have put on the request.
\<close>

definition audit_context_of :: "uuid option \<Rightarrow> uuid option \<Rightarrow> jstring \<Rightarrow> http_request \<Rightarrow> audit_context" where
  "audit_context_of tenantId userId requestId req = \<lparr>ac_tenantId = tenantId, ac_actorId = userId,
     ac_requestId = Some requestId, ac_ipAddress = rq_ip req, ac_userAgent = rq_userAgent req\<rparr>"

section \<open>The exception filter\<close>

record error_response =
  er_statusCode :: nat
  er_timestamp :: nat
  er_path :: jstring
  er_message :: jstring
  er_error :: jstring
  er_details :: "jstring list option"
  er_stack :: "jstring option"

record runtime =
  isProduction :: bool
  status_name :: "nat \<Rightarrow> jstring option"
  stack_of :: "exn \<Rightarrow> jstring"
  now_ms :: nat

fun exception_status :: "exn \<Rightarrow> nat" where
  "exception_status (HttpException status _) = status"
| "exception_status _ = 500"

fun exception_body :: "exn \<Rightarrow> exn_body option" where
  "exception_body (HttpException _ body) = Some body"
| "exception_body _ = None"

definition filter_message :: "exn \<Rightarrow> jstring" where
  "filter_message exception = (case exception_body exception of
     None \<Rightarrow> js ''internal server error''
   | Some (BodyString s) \<Rightarrow> s
   | Some (BodyObject (MsgList _) _) \<Rightarrow> js ''validation failed''
   | Some (BodyObject (MsgStr m) _) \<Rightarrow> m)"

definition filter_details :: "exn \<Rightarrow> jstring list option" where
  "filter_details exception = (case exception_body exception of
     Some (BodyObject (MsgList ms) _) \<Rightarrow> Some ms
   | _ \<Rightarrow> None)"

definition filter_error :: "runtime \<Rightarrow> exn \<Rightarrow> jstring" where
  "filter_error R exception =
     (let named = or_default (status_name R (exception_status exception)) (js ''Unknown Error'')
      in case exception_body exception of
           Some (BodyObject _ error) \<Rightarrow> or_default (truthy error) named
         | _ \<Rightarrow> named)"

text \<open>
  \<open>catch\<close>: the line logged for a server error, and the response. Every exception of the model
  is an \<open>Error\<close>, so outside production the response carries its stack trace.
\<close>

definition filter_log :: "runtime \<Rightarrow> jstring option \<Rightarrow> http_request \<Rightarrow> exn \<Rightarrow> (jstring \<times> jstring) option" where
  "filter_log R requestId req exception =
     (if 500 \<le> exception_status exception
      then Some (js ''['' @ or_default requestId (js ''no-request-id'') @ js ''] '' @
             or_default (truthy (Some (rq_method req))) (js ''UNKNOWN'') @ js '' '' @
             or_default (truthy (Some (rq_originalUrl req))) (rq_url req) @ js '' '' @
             digits (exception_status exception), stack_of R exception)
      else None)"

definition filter_catch :: "runtime \<Rightarrow> http_request \<Rightarrow> exn \<Rightarrow> error_response" where
  "filter_catch R req exception = \<lparr>er_statusCode = exception_status exception, er_timestamp = now_ms R,
     er_path = rq_originalUrl req, er_message = filter_message exception, er_error = filter_error R exception,
     er_details = filter_details exception,
     er_stack = (if isProduction R then None else Some (stack_of R exception))\<rparr>"

lemmas filter_defs = filter_catch_def filter_message_def filter_details_def filter_error_def

text \<open>An exception the services throw on purpose: its status and body are those of a \<open>HttpException\<close>.\<close>

fun is_http :: "exn \<Rightarrow> bool" where
  "is_http (HttpException _ _) = True"
| "is_http _ = False"

lemma not_http: "\<not> is_http e \<Longrightarrow> exception_status e = 500 \<and> exception_body e = None"
  by (cases e) simp_all


definition sample_runtime :: runtime where
  "sample_runtime = \<lparr>isProduction = True,
     status_name = (\<lambda>n. if n = 500 then Some (js ''INTERNAL_SERVER_ERROR'') else None),
     stack_of = (\<lambda>e. js ''Error: at ...''), now_ms = 7\<rparr>"

definition plain_request :: http_request where
  "plain_request = \<lparr>rq_method = js ''GET'', rq_originalUrl = js ''/api/v1/products'', rq_url = js ''/products'',
     rq_tenantHeader = HeaderAbsent, rq_idHeader = HeaderAbsent, rq_requestId = None, rq_id = None,
     rq_bearer = None, rq_ip = None, rq_userAgent = None\<rparr>"


end
