(* ===== verification/Tenant.thy ===== *)
theory Tenant
  imports TenantService Http
begin

text \<open>
  The tenants themselves (\<open>src/tenant\<close>): \<open>TenantService\<close> keeps the registry of tenants;
  \<open>TenantMiddleware\<close> resolves the tenant of a request from its \<open>X-Tenant-ID\<close> header,
  \<open>TenantInterceptor\<close> and \<open>TenantGuard\<close> pass it on and check it again.
\<close>

section \<open>The registry\<close>

record create_tenant_dto =
  ct_domainName :: jstring
  ct_businessName :: jstring
  ct_status :: tenant_status

record update_tenant_dto =
  ut_domainName :: "jstring option"
  ut_businessName :: "jstring option"
  ut_status :: "tenant_status option"

definition tenant_findAll :: "env \<Rightarrow> (world, tenant list) act" where
  "tenant_findAll E = find_many (tenantRepo E) (\<lambda>_. True) [(js ''createdAt'', js ''DESC'')]"

definition tenant_findById :: "env \<Rightarrow> uuid \<Rightarrow> (world, tenant option) act" where
  "tenant_findById E i = find_one (tenantRepo E) (\<lambda>t. t_id t = i)"

definition tenant_findOne :: "env \<Rightarrow> uuid \<Rightarrow> (world, tenant) act" where
  "tenant_findOne E i = find_or_throw (tenantRepo E) (\<lambda>t. t_id t = i)
     (NotFoundException (js ''Tenant with ID '' @ i @ js '' not found''))"

definition findByIdAndValidate :: "env \<Rightarrow> uuid \<Rightarrow> (world, tenant option) act" where
  "findByIdAndValidate E i =
     andThen (tenant_findById E i) (\<lambda>found.
     case found of
       None \<Rightarrow> ret None
     | Some tenant \<Rightarrow> if t_status tenant = ARCHIVED then ret None else ret (Some tenant))"

definition new_tenant :: "create_tenant_dto \<Rightarrow> tenant" where
  "new_tenant dto = \<lparr>t_id = no_id, t_domainName = ct_domainName dto, t_businessName = ct_businessName dto,
     t_status = ct_status dto, t_createdAt = 0, t_updatedAt = 0, t_deletedAt = None\<rparr>"

definition domain_taken :: "jstring \<Rightarrow> jstring" where
  "domain_taken domainName = js ''A tenant with domain name \"'' @ domainName @ js ''\" already exists''"

definition tenant_create :: "env \<Rightarrow> create_tenant_dto \<Rightarrow> (world, tenant) act" where
  "tenant_create E dto =
     conflict_on_unique (domain_taken (ct_domainName dto)) (save (tenantRepo E) (new_tenant dto))"

definition tenant_patch :: "update_tenant_dto \<Rightarrow> tenant \<Rightarrow> tenant" where
  "tenant_patch dto tenant =
     (let tenant = (case ut_domainName dto of None \<Rightarrow> tenant | Some d \<Rightarrow> tenant\<lparr>t_domainName := d\<rparr>);
          tenant = (case ut_businessName dto of None \<Rightarrow> tenant | Some b \<Rightarrow> tenant\<lparr>t_businessName := b\<rparr>)
      in (case ut_status dto of None \<Rightarrow> tenant | Some s \<Rightarrow> tenant\<lparr>t_status := s\<rparr>))"

text \<open>A template literal prints a missing \<open>domainName\<close> as \<open>undefined\<close>.\<close>

definition tenant_update :: "env \<Rightarrow> uuid \<Rightarrow> update_tenant_dto \<Rightarrow> (world, tenant) act" where
  "tenant_update E i dto =
     andThen (tenant_findOne E i) (\<lambda>tenant.
     conflict_on_unique (domain_taken (or_default (ut_domainName dto) (js ''undefined'')))
       (save (tenantRepo E) (tenant_patch dto tenant)))"

definition tenant_remove :: "env \<Rightarrow> uuid \<Rightarrow> (world, unit) act" where
  "tenant_remove E i =
     andThen (tenant_findOne E i) (\<lambda>tenant.
     andThen (soft_remove (tenantRepo E) (\<lambda>t. t_id t = t_id tenant)) (\<lambda>_. ret ()))"

section \<open>The tenant of a request\<close>

fun status_text :: "tenant_status \<Rightarrow> jstring" where
  "status_text PENDING = js ''pending''"
| "status_text ACTIVE = js ''active''"
| "status_text SUSPENDED = js ''suspended''"
| "status_text ARCHIVED = js ''archived''"

text \<open>\<open>TenantMiddleware.use\<close>: what it puts on the request.\<close>

definition tenant_middleware :: "env \<Rightarrow> header \<Rightarrow> (world, uuid \<times> tenant) act" where
  "tenant_middleware E header =
     (case header of
        HeaderAbsent \<Rightarrow> throw (BadRequestException (js ''Missing X-Tenant-ID header''))
      | HeaderMany _ \<Rightarrow> throw (BadRequestException (js ''Only single value for X-Tenant-ID id allowed''))
      | HeaderOne tenantId \<Rightarrow>
          if tenantId = [] then throw (BadRequestException (js ''Missing X-Tenant-ID header''))
          else andThen (ensure (is_uuid E tenantId) (BadRequestException (js ''Invalid tenant ID format''))) (\<lambda>_.
          andThen (findByIdAndValidate E tenantId) (\<lambda>found.
          case found of
            None \<Rightarrow> throw (NotFoundException (js ''Tenant not found or is archived''))
          | Some tenant \<Rightarrow>
              andThen (ensure (t_status tenant = ACTIVE)
                (ForbiddenException (js ''Tenant is currently '' @ status_text (t_status tenant) @
                  js ''. Access denied.''))) (\<lambda>_.
              ret (tenantId, tenant)))))"

text \<open>\<open>TenantGuard.canActivate\<close>; \<open>store\<close> is the asynchronous storage the middleware filled.\<close>

definition tenant_guard :: "env \<Rightarrow> bool \<Rightarrow> uuid option \<Rightarrow> (world, unit) act" where
  "tenant_guard E isPublic store =
     (if isPublic then ret ()
      else (case truthy store of
        None \<Rightarrow> throw (UnauthorizedException (js ''Missing or invalid tenant context''))
      | Some tenantId \<Rightarrow>
          andThen (find_one (tenantRepo E) (\<lambda>t. t_id t = tenantId \<and> t_deletedAt t = None)) (\<lambda>found.
          case found of
            None \<Rightarrow> throw (ForbiddenException (js ''Tenant not found or has been removed''))
          | Some tenant \<Rightarrow> ret ())))"

text \<open>\<open>TenantInterceptor.intercept\<close>: the storage the handler runs in.\<close>

definition tenant_interceptor :: "uuid option \<Rightarrow> uuid option \<Rightarrow> uuid option" where
  "tenant_interceptor req_tenantId store = (case truthy req_tenantId of None \<Rightarrow> store | Some i \<Rightarrow> Some i)"

lemma tenant_fields [simp]:
  "e_id tenant_entity = t_id" "e_alive tenant_entity x \<longleftrightarrow> t_deletedAt x = None"
  by (simp_all add: tenant_entity_def)

definition active_tenant :: "uuid \<Rightarrow> world \<Rightarrow> bool" where
  "active_tenant i w \<longleftrightarrow> i \<noteq> [] \<and>
     (\<exists>t \<in> set (w_tenants w). t_id t = i \<and> t_status t = ACTIVE \<and> t_deletedAt t = None)"

lemma middleware_run:
  assumes db: "repository tenant_entity (tenantOrm E)" and run: "tenant_middleware E header w = (r, w')"
  shows "w' = w" and "r = Inr (i, t) \<Longrightarrow> header = HeaderOne i \<and> is_uuid E i \<and> active_tenant i w"
proof -
  show "w' = w"
    using run by (auto simp: tenant_middleware_def andThen_ensure andThen_gets throw_def ret_def
        findByIdAndValidate_def tenant_findById_def find_one_def andThen_def gets_def ensure_def
        split: header.splits if_splits option.splits list.splits prod.splits sum.splits)
  assume r: "r = Inr (i, t)"
  with run obtain w1 where h: "header = HeaderOne i" "i \<noteq> []" "is_uuid E i" and
    f: "tenant_findById E i w = (Inr (Some t), w1)" and s: "t_status t = ACTIVE"
    by (auto simp: tenant_middleware_def findByIdAndValidate_def flow_simps
        split: header.splits if_splits option.splits)
  from repository.find_one_Some [OF db f [unfolded tenant_findById_def]] h s
  show "header = HeaderOne i \<and> is_uuid E i \<and> active_tenant i w"
    by (auto simp: active_tenant_def)
qed

lemma guard_run:
  assumes db: "repository tenant_entity (tenantOrm E)" and run: "tenant_guard E isPublic store w = (r, w')"
  shows "w' = w" and "r = Inr () \<longleftrightarrow> isPublic \<or> (\<exists>i. truthy store = Some i \<and>
    (\<exists>t \<in> set (w_tenants w). t_id t = i \<and> t_deletedAt t = None))"
proof -
  show "w' = w"
    using run by (auto simp: tenant_guard_def find_one_def andThen_gets ret_def throw_def
        split: if_splits option.splits)
  have "o_select (tenantOrm E) P (w_tenants w) = [] \<longleftrightarrow> \<not> (\<exists>t \<in> set (w_tenants w). t_deletedAt t = None \<and> P t)" for P
    using repository.select_Nil [OF db] by auto
  note none = this
  show "r = Inr () \<longleftrightarrow> isPublic \<or> (\<exists>i. truthy store = Some i \<and>
    (\<exists>t \<in> set (w_tenants w). t_id t = i \<and> t_deletedAt t = None))"
  proof (cases "isPublic \<or> truthy store = None")
    case True
    then show ?thesis using run by (auto simp: tenant_guard_def ret_def throw_def)
  next
    case False
    then obtain i where i: "\<not> isPublic" "truthy store = Some i" by blast
    let ?P = "\<lambda>t. t_id t = i \<and> t_deletedAt t = None"
    from i run have "r = (case o_select (tenantOrm E) ?P (w_tenants w) of
        [] \<Rightarrow> Inl (ForbiddenException (js ''Tenant not found or has been removed'')) | _ \<Rightarrow> Inr ())"
      by (auto simp: tenant_guard_def find_one_def andThen_gets ret_def throw_def split: list.splits)
    then have "r = Inr () \<longleftrightarrow> o_select (tenantOrm E) ?P (w_tenants w) \<noteq> []"
      by (auto split: list.splits)
    with i none show ?thesis by auto
  qed
qed

section \<open>Histories of the registry\<close>

text \<open>One call of the tenant controller, with the tenant it is about.\<close>

inductive registry_step :: "env \<Rightarrow> uuid \<Rightarrow> world \<Rightarrow> world \<Rightarrow> bool" for E :: env where
  reg_created: "tenant_create E dto w = (Inr t, w') \<Longrightarrow> registry_step E (t_id t) w w'"
| reg_create_failed: "tenant_create E dto w = (Inl e, w') \<Longrightarrow> registry_step E i w w'"
| reg_update: "tenant_update E i udto w = (r, w') \<Longrightarrow> registry_step E i w w'"
| reg_remove: "tenant_remove E i w = (r', w') \<Longrightarrow> registry_step E i w w'"
| reg_find: "tenant_findOne E i w = (r, w') \<Longrightarrow> registry_step E i w w'"
| reg_list: "tenant_findAll E w = (r'', w') \<Longrightarrow> registry_step E i w w'"

definition registry_inv :: "world \<Rightarrow> bool" where
  "registry_inv w \<longleftrightarrow> ids_ok tenant_entity (w_tenants w) \<and> unique_ok tenant_entity (w_tenants w)"

lemma tenant_killed: "killed tenant_entity x y \<Longrightarrow> t_id y = t_id x \<and> t_domainName y = t_domainName x"
  by (auto simp: killed_def tenant_entity_def dest: arg_cong [where f = t_domainName])

lemma tenant_remove_unique:
  assumes db: "repository tenant_entity db" and s: "o_soft_remove db P t = Inr (n, t')"
    and u: "unique_ok tenant_entity t"
  shows "unique_ok tenant_entity t'"
proof -
  obtain g where g: "mset t' = image_mset g (mset t)"
    and gx: "\<And>x. if P x then killed tenant_entity x (g x) else g x = x"
    using repository.remove_rows [OF db s] by blast
  have same: "t_id (g x) = t_id x \<and> t_domainName (g x) = t_domainName x" for x
    using gx [of x] tenant_killed by (cases "P x") auto
  have "set t' = g ` set t" using arg_cong [where f = set_mset, OF g] by simp
  then show ?thesis
    using u same by (simp add: unique_ok_def tenant_entity_def)
qed

text \<open>The two writes of the registry: a saved row and a removed one.\<close>

definition registry_write :: "env \<Rightarrow> uuid \<Rightarrow> world \<Rightarrow> world \<Rightarrow> bool" where
  "registry_write E i w w' \<longleftrightarrow> w' = w \<or>
     (\<exists>row x t. o_save (tenantOrm E) row (w_tenants w) = Inr (x, t) \<and> t_id x = i \<and> w' = w\<lparr>w_tenants := t\<rparr>) \<or>
     (\<exists>n t. o_soft_remove (tenantOrm E) (\<lambda>x. t_id x = i) (w_tenants w) = Inr (n, t) \<and> w' = w\<lparr>w_tenants := t\<rparr>)"

lemma tenant_found:
  assumes db: "repository tenant_entity (tenantOrm E)" and run: "tenant_findOne E i w = (Inr t, w1)"
  shows "w1 = w \<and> t \<in> set (w_tenants w) \<and> t_id t = i \<and> t_deletedAt t = None"
  using repository.find_or_throw_Inr [OF db run [unfolded tenant_findOne_def]] by simp

lemma tenant_patch_id [simp]: "t_id (tenant_patch dto t) = t_id t" "t_deletedAt (tenant_patch dto t) = t_deletedAt t"
  by (simp_all add: tenant_patch_def Let_def split: option.splits)

lemma registry_step_writes:
  assumes db: "repository tenant_entity (tenantOrm E)" and ids: "ids_ok tenant_entity (w_tenants w)"
    and step: "registry_step E i w w'"
  shows "registry_write E i w w'"
  using step
proof cases
  case (reg_created dto t)
  then show ?thesis
    by (auto simp: tenant_create_def conflict_on_unique_Inr save_Inr registry_write_def tenantRepo_def)
next
  case (reg_create_failed dto e)
  then show ?thesis
    by (auto simp: tenant_create_def conflict_on_unique_Inl save_Inl registry_write_def)
next
  case (reg_update dto r)
  from reg_update [unfolded tenant_update_def] show ?thesis
  proof (cases rule: andThenE)
    case (err e)
    then show ?thesis by (auto simp: tenant_findOne_def registry_write_def dest: find_or_throw_state)
  next
    case (ok t w1)
    from tenant_found [OF db ok(1)] have t: "w1 = w" "t \<in> set (w_tenants w)" "t_id t = i" by auto
    with ids have "t_id (tenant_patch dto t) \<noteq> no_id" by (auto simp: ids_ok_def)
    note old = repository.save_old [OF db _ this [folded tenant_fields(1)]]
    show ?thesis
    proof (cases r)
      case (Inl e)
      with ok(2) t show ?thesis by (auto simp: conflict_on_unique_Inl save_Inl registry_write_def)
    next
      case (Inr x)
      with ok(2) t obtain t' where
        s: "o_save (tenantOrm E) (tenant_patch dto t) (w_tenants w) = Inr (x, t')" "w' = w\<lparr>w_tenants := t'\<rparr>"
        by (auto simp: conflict_on_unique_Inr save_Inr tenantRepo_def)
      with old [OF s(1)] t show ?thesis unfolding registry_write_def by auto
    qed
  qed
next
  case (reg_remove r)
  from reg_remove [unfolded tenant_remove_def] show ?thesis
  proof (cases rule: andThenE)
    case (err e)
    then show ?thesis by (auto simp: tenant_findOne_def registry_write_def dest: find_or_throw_state)
  next
    case (ok t w1)
    from tenant_found [OF db ok(1)] have t: "w1 = w" "t_id t = i" by auto
    from ok(2) show ?thesis
      by (cases r) (auto simp: t flow_simps soft_remove_Inr soft_remove_Inl registry_write_def tenantRepo_def)
  qed
next
  case (reg_find r)
  then show ?thesis by (auto simp: tenant_findOne_def registry_write_def dest: find_or_throw_state)
next
  case (reg_list r)
  then show ?thesis by (auto simp: tenant_findAll_def registry_write_def find_many_eq)
qed

lemma registry_service:
  assumes db: "repository tenant_entity (tenantOrm E)"
  shows "tenant_service (registry_step E) w_tenants t_id registry_inv"
proof
  fix i w w'
  assume step: "registry_step E i w w'" and inv: "registry_inv w"
  then have ids: "ids_ok tenant_entity (w_tenants w)" and u: "unique_ok tenant_entity (w_tenants w)"
    by (simp_all add: registry_inv_def)
  from registry_step_writes [OF db ids step]
  consider (same) "w' = w"
    | (saved) row x t where "o_save (tenantOrm E) row (w_tenants w) = Inr (x, t)" "t_id x = i" "w' = w\<lparr>w_tenants := t\<rparr>"
    | (removed) n t where "o_soft_remove (tenantOrm E) (\<lambda>x. t_id x = i) (w_tenants w) = Inr (n, t)"
        "w' = w\<lparr>w_tenants := t\<rparr>"
    by (auto simp: registry_write_def)
  note cases = this
  from cases show "registry_inv w'"
  proof cases
    case saved
    then show ?thesis
      using repository.save_ids [OF db saved(1) ids] repository.save_unique [OF db saved(1) u]
      by (simp add: registry_inv_def)
  next
    case removed
    then show ?thesis
      using repository.remove_ids [OF db removed(1) ids] tenant_remove_unique [OF db removed(1) u]
      by (simp add: registry_inv_def)
  qed (use inv in simp)
  from cases show "{#x \<in># mset (w_tenants w'). t_id x \<noteq> i#} = {#x \<in># mset (w_tenants w). t_id x \<noteq> i#}"
  proof cases
    case saved
    then show ?thesis
      using repository.save_outside [OF db saved(1), where Q = "\<lambda>x. t_id x = i"] by simp
  next
    case removed
    then show ?thesis
      using repository.remove_outside [OF db removed(1), where Q = "\<lambda>x. t_id x = i"] tenant_killed by simp
  qed simp
qed

interpretation registry: tenant_service "registry_step mem_env" w_tenants t_id registry_inv
  by (rule registry_service) simp

text \<open>
  C27: Through any history of calls to the tenant controller, domain names stay unique among all
  tenants, removed ones included, and a tenant that no call is about is exactly what it was.
\<close>

theorem registry_history:
  assumes "repository tenant_entity (tenantOrm E)" and "history (registry_step E) is w w'" and "registry_inv w"
  shows "(\<forall>x \<in> set (w_tenants w'). \<forall>y \<in> set (w_tenants w'). t_domainName x = t_domainName y \<longrightarrow> x = y) \<and>
    (i \<notin> set is \<longrightarrow> {#t \<in># mset (w_tenants w'). t_id t = i#} = {#t \<in># mset (w_tenants w). t_id t = i#})"
proof -
  have "registry_inv w'" using tenant_service.history_inv [OF registry_service [OF assms(1)] assms(2,3)] .
  then have "x = y" if "x \<in> set (w_tenants w')" "y \<in> set (w_tenants w')" "t_domainName x = t_domainName y" for x y
    using that by (fastforce simp: registry_inv_def unique_ok_def tenant_entity_def ids_ok_def distinct_map dest: inj_onD)
  with tenant_service.history_tenant [OF registry_service [OF assms(1)] assms(2,3), of i] show ?thesis by blast
qed

definition sample_tenant :: create_tenant_dto where
  "sample_tenant = \<lparr>ct_domainName = js ''acme.example.com'', ct_businessName = js ''Acme'', ct_status = ACTIVE\<rparr>"

definition registered :: world where
  "registered = snd (tenant_create mem_env sample_tenant empty_world)"

definition acme :: uuid where
  "acme = t_id (hd (w_tenants registered))"

lemma registered_history: "history (registry_step mem_env) [acme] empty_world registered"
proof -
  let ?run = "tenant_create mem_env sample_tenant empty_world"
  have ok: "\<not> isl (fst ?run)" and id: "map t_id (w_tenants (snd ?run)) = [t_id (projr (fst ?run))]"
    by code_simp+
  from ok have "?run = (Inr (projr (fst ?run)), snd ?run)" by (metis prod.collapse sum.collapse(2))
  from reg_created [OF this] have "registry_step mem_env (t_id (projr (fst ?run))) empty_world registered"
    by (simp only: registered_def)
  moreover from id have "t_id (projr (fst ?run)) = acme"
    unfolding acme_def registered_def by (cases "w_tenants (snd ?run)") simp_all
  ultimately show ?thesis by (simp only: history_Cons_iff history_Nil_iff) blast
qed

lemma empty_registry: "registry_inv empty_world"
  by (simp add: registry_inv_def ids_ok_def unique_ok_def empty_world_def)

lemma registry_history_witness:
  "inj_on t_domainName (set (w_tenants (snd (tenant_create mem_env sample_tenant registered)))) \<and>
   fst (tenant_create mem_env sample_tenant registered) =
     Inl (ConflictException (js ''A tenant with domain name \"acme.example.com\" already exists''))"
proof -
  obtain r w' where run: "tenant_create mem_env sample_tenant registered = (r, w')" by (metis surj_pair)
  have refused: "fst (tenant_create mem_env sample_tenant registered) =
     Inl (ConflictException (js ''A tenant with domain name \"acme.example.com\" already exists''))" by code_simp
  with run have "registry_step mem_env acme registered w'" by (auto intro: reg_create_failed)
  with registered_history have "history (registry_step mem_env) [acme, acme] empty_world w'" by auto
  from registry_history [OF _ this empty_registry] refused run show ?thesis
    by (simp add: inj_on_def)
qed

text \<open>
  C28: A tenant whose status is set to anything but active, or that is removed, is locked out at
  once: whatever the request, the middleware then refuses its identifier, and no state changes.
\<close>

theorem tenant_lockout:
  assumes db: "repository tenant_entity (tenantOrm E)" and inv: "registry_inv w"
    and off: "(\<exists>t. tenant_update E i dto w = (Inr t, w1) \<and> ut_status dto = Some s \<and> s \<noteq> ACTIVE) \<or>
      tenant_remove E i w = (Inr (), w1)"
    and run: "tenant_middleware E (HeaderOne i) w1 = (r, w')"
  shows "w' = w1 \<and> (\<exists>code body. r = Inl (HttpException code body) \<and> code \<in> {400, 403, 404})"
proof -
  from inv have ids: "ids_ok tenant_entity (w_tenants w)" by (simp add: registry_inv_def)
  have inactive: "\<not> active_tenant i w1"
    using off
  proof
    assume "\<exists>t. tenant_update E i dto w = (Inr t, w1) \<and> ut_status dto = Some s \<and> s \<noteq> ACTIVE"
    then obtain t where u: "tenant_update E i dto w = (Inr t, w1)" "ut_status dto = Some s" "s \<noteq> ACTIVE" by blast
    from u(1) obtain t0 w0 where f: "tenant_findOne E i w = (Inr t0, w0)"
      and s: "save (tenantRepo E) (tenant_patch dto t0) w0 = (Inr t, w1)"
      by (auto simp: tenant_update_def flow_simps)
    from tenant_found [OF db f] have t0: "w0 = w" "t0 \<in> set (w_tenants w)" "t_id t0 = i" by auto
    from s t0 obtain t' where sv: "o_save (tenantOrm E) (tenant_patch dto t0) (w_tenants w) = Inr (t, t')"
      and w1: "w1 = w\<lparr>w_tenants := t'\<rparr>" by (auto simp: save_Inr tenantRepo_def)
    from repository.save_cols [OF db sv] have "t_status t = t_status (tenant_patch dto t0)"
      by (auto simp: tenant_entity_def dest: arg_cong [where f = t_status])
    then have "t_status t \<noteq> ACTIVE" using u(2,3) by (simp add: tenant_patch_def Let_def)
    moreover have "t_id t = i"
      using repository.save_old [OF db sv] t0 ids by (auto simp: ids_ok_def)
    ultimately show "\<not> active_tenant i w1"
      using repository.save_set [OF db sv] by (auto simp: active_tenant_def w1)
  next
    assume "tenant_remove E i w = (Inr (), w1)"
    then obtain t0 w0 n where f: "tenant_findOne E i w = (Inr t0, w0)"
      and s: "soft_remove (tenantRepo E) (\<lambda>t. t_id t = t_id t0) w0 = (Inr n, w1)"
      by (auto simp: tenant_remove_def flow_simps)
    from tenant_found [OF db f] have t0: "w0 = w" "t_id t0 = i" by auto
    with s obtain t' where sv: "o_soft_remove (tenantOrm E) (\<lambda>t. t_id t = i) (w_tenants w) = Inr (n, t')"
      and w1: "w1 = w\<lparr>w_tenants := t'\<rparr>" by (auto simp: soft_remove_Inr tenantRepo_def)
    from repository.remove_live [OF db sv] show "\<not> active_tenant i w1"
      by (auto simp: active_tenant_def w1)
  qed
  note mw = middleware_run [OF db run]
  show ?thesis
  proof (cases r)
    case (Inr p)
    obtain j t where "p = (j, t)" by (cases p)
    with mw(2) Inr mw(1) inactive show ?thesis by auto
  next
    case (Inl e)
    with run mw(1) show ?thesis
      by (auto simp: tenant_middleware_def findByIdAndValidate_def tenant_findById_def find_one_eq flow_simps
          split: if_splits option.splits list.splits)
  qed
qed

lemma tenant_lockout_witness:
  "let w1 = snd (tenant_update mem_env acme \<lparr>ut_domainName = None, ut_businessName = None, ut_status = Some SUSPENDED\<rparr> registered)
   in fst (tenant_middleware mem_env (HeaderOne acme) w1) =
      Inl (ForbiddenException (js ''Tenant is currently suspended. Access denied.'')) \<and>
     snd (tenant_middleware mem_env (HeaderOne acme) w1) = w1"
proof -
  let ?dto = "\<lparr>ut_domainName = None, ut_businessName = None, ut_status = Some SUSPENDED\<rparr>"
  let ?w1 = "snd (tenant_update mem_env acme ?dto registered)"
  have "\<not> isl (fst (tenant_update mem_env acme ?dto registered))" by code_simp
  then obtain t where u: "tenant_update mem_env acme ?dto registered = (Inr t, ?w1)"
    by (metis isl_def old.sum.exhaust prod.collapse)
  have inv: "registry_inv registered"
    using registry.history_inv [OF registered_history empty_registry] .
  obtain r w' where run: "tenant_middleware mem_env (HeaderOne acme) ?w1 = (r, w')" by (metis surj_pair)
  have "(\<exists>t. tenant_update mem_env acme ?dto registered = (Inr t, ?w1) \<and> ut_status ?dto = Some SUSPENDED \<and>
      SUSPENDED \<noteq> ACTIVE) \<or> tenant_remove mem_env acme registered = (Inr (), ?w1)"
    by (intro disjI1 exI [of _ t] conjI u) simp_all
  from tenant_lockout [OF _ inv this run] have "w' = ?w1" by simp
  moreover have "fst (tenant_middleware mem_env (HeaderOne acme) ?w1) =
      Inl (ForbiddenException (js ''Tenant is currently suspended. Access denied.''))" by code_simp
  ultimately show ?thesis using run by (simp add: Let_def)
qed

end
