(* ===== verification/Auth.thy ===== *)
theory Auth
  imports Tenant Cache
begin

text \<open>
  Users and their credentials (\<open>src/auth\<close>): registration, login, token refresh and the cached
  profile of \<open>AuthService\<close>; the strategy and the guards that turn a bearer token into a user
  and compare the user's role with the roles a route asks for. Tokens are made and checked by a
  library; the locale \<open>token_library\<close> states its documented behaviour. Times are seconds.
\<close>

section \<open>The service\<close>

record register_dto =
  rg_email :: jstring
  rg_password :: jstring
  rg_firstName :: jstring
  rg_lastName :: jstring
  rg_role :: "user_role option"

record login_dto =
  lg_email :: jstring
  lg_password :: jstring

record user_response =
  ur_id :: uuid
  ur_email :: jstring
  ur_firstName :: jstring
  ur_lastName :: jstring
  ur_role :: user_role
  ur_tenantId :: uuid
  ur_isActive :: bool
  ur_createdAt :: nat
  ur_updatedAt :: nat

record authenticated_user =
  au_id :: uuid
  au_email :: jstring
  au_role :: user_role
  au_tenantId :: uuid
  au_firstName :: jstring
  au_lastName :: jstring

record refreshed =
  rf_user :: user
  rf_accessToken :: jstring
  rf_refreshToken :: jstring

fun role_text :: "user_role \<Rightarrow> jstring" where
  "role_text SUPER_ADMIN = js ''super_admin''"
| "role_text TENANT_ADMIN = js ''tenant_admin''"
| "role_text AUDITOR = js ''auditor''"
| "role_text CATALOG_MANAGER = js ''catalog_manager''"
| "role_text WAREHOUSE_MANAGER = js ''warehouse_manager''"
| "role_text CUSTOMER = js ''customer''"

definition findOneByEmail :: "env \<Rightarrow> uuid \<Rightarrow> jstring \<Rightarrow> (world, user option) act" where
  "findOneByEmail E tenantId email = find_one (userRepo E) (\<lambda>u. u_tenantId u = tenantId \<and> u_email u = email)"

definition toUserResponseDto :: "user \<Rightarrow> user_response" where
  "toUserResponseDto user = \<lparr>ur_id = u_id user, ur_email = u_email user, ur_firstName = u_firstName user,
     ur_lastName = u_lastName user, ur_role = u_role user, ur_tenantId = u_tenantId user,
     ur_isActive = u_isActive user, ur_createdAt = u_createdAt user, ur_updatedAt = u_updatedAt user\<rparr>"

definition registered_user :: "env \<Rightarrow> uuid \<Rightarrow> register_dto \<Rightarrow> user" where
  "registered_user E tenantId dto = \<lparr>u_id = no_id, u_tenantId = tenantId, u_email = rg_email dto,
     u_firstName = rg_firstName dto, u_lastName = rg_lastName dto,
     u_passwordHash = bcrypt_hash E (rg_password dto) 10, u_role = or_default (rg_role dto) CUSTOMER,
     u_isActive = True, u_createdAt = 0, u_updatedAt = 0, u_deletedAt = None\<rparr>"

definition user_values :: "user \<Rightarrow> jval" where
  "user_values u = JObj [(''email'', JStr (u_email u)), (''firstName'', JStr (u_firstName u)),
     (''lastName'', JStr (u_lastName u)), (''role'', JStr (role_text (u_role u)))]"

definition register_user ::
  "env \<Rightarrow> audit_context option \<Rightarrow> uuid \<Rightarrow> register_dto \<Rightarrow> (world, user_response) act" where
  "register_user E ctx tenantId dto =
     andThen (findOneByEmail E tenantId (rg_email dto)) (\<lambda>user.
     andThen (ensure (user = None) (BadRequestException (js ''Email already exists''))) (\<lambda>_.
     andThen (save_and_record (userRepo E) ctx
       (\<lambda>saved. audit_input CREATE ET_USER (u_id saved) None (Some (user_values saved)))
       (registered_user E tenantId dto)) (\<lambda>savedUser.
     ret (toUserResponseDto savedUser))))"

definition token_payload :: "user \<Rightarrow> jwt_payload" where
  "token_payload user = \<lparr>jp_sub = u_id user, jp_tenantId = u_tenantId user, jp_email = u_email user,
     jp_role = u_role user\<rparr>"

lemma payload_tenant: "jp_tenantId (token_payload user) = u_tenantId user"
  by (simp add: token_payload_def)

abbreviation access_secret :: "env \<Rightarrow> jstring" where
  "access_secret E \<equiv> config_get E (js ''JWT_ACCESS_SECRET'')"

abbreviation refresh_secret :: "env \<Rightarrow> jstring" where
  "refresh_secret E \<equiv> config_get E (js ''JWT_REFRESH_SECRET'')"

definition generateTokens :: "env \<Rightarrow> nat \<Rightarrow> user \<Rightarrow> jstring \<times> jstring" where
  "generateTokens E now user =
     (jwt_sign E now (token_payload user) (access_secret E) (js ''15m''),
      jwt_sign E now (token_payload user) (refresh_secret E) (js ''15m''))"

definition login_user ::
  "env \<Rightarrow> nat \<Rightarrow> audit_context option \<Rightarrow> uuid \<Rightarrow> login_dto \<Rightarrow> (world, jstring) act" where
  "login_user E now ctx tenantId dto =
     andThen (findOneByEmail E tenantId (lg_email dto)) (\<lambda>found.
     case found of
       None \<Rightarrow> throw (UnauthorizedException (js ''Invalid credentials''))
     | Some user \<Rightarrow>
         andThen (ensure (u_isActive user) (UnauthorizedException (js ''Account is deactivated''))) (\<lambda>_.
         andThen (ensure (bcrypt_compare E (lg_password dto) (u_passwordHash user))
           (UnauthorizedException (js ''Invalid credentials''))) (\<lambda>_.
         let (accessToken, refreshToken) = generateTokens E now user
         in andThen (audit_record ctx ((audit_input LOGIN ET_USER (u_id user) None None)
              \<lparr>ai_actorId := Some (u_id user)\<rparr>)) (\<lambda>_.
            ret accessToken))))"

definition identity_of :: "user \<Rightarrow> authenticated_user" where
  "identity_of user = \<lparr>au_id = u_id user, au_email = u_email user, au_role = u_role user,
     au_tenantId = u_tenantId user, au_firstName = u_firstName user, au_lastName = u_lastName user\<rparr>"

definition validateJwtPayload :: "env \<Rightarrow> jwt_payload \<Rightarrow> (world, authenticated_user) act" where
  "validateJwtPayload E jwtPayload =
     andThen (find_or_throw (userRepo E)
       (\<lambda>u. u_id u = jp_sub jwtPayload \<and> u_tenantId u = jp_tenantId jwtPayload)
       (UnauthorizedException (js ''User not found''))) (\<lambda>user.
     andThen (ensure (u_isActive user) (UnauthorizedException (js ''Account is deactivated''))) (\<lambda>_.
     ret (identity_of user)))"

definition showUserInfo :: "env \<Rightarrow> uuid \<Rightarrow> uuid \<Rightarrow> (world, user) act" where
  "showUserInfo E tenantId i =
     (let cacheKey = user_key tenantId i in
      andThen (cache_get (redis E) cacheKey) (\<lambda>cached. case cached of
        Some (CachedUser u) \<Rightarrow> ret u
      | Some _ \<Rightarrow> throw (OtherError (js ''a cached value of another kind''))
      | None \<Rightarrow>
          andThen (find_or_throw (userRepo E)
            (\<lambda>u. u_id u = i \<and> u_tenantId u = tenantId \<and> u_deletedAt u = None)
            (NotFoundException (js ''There is no user with this id''))) (\<lambda>user.
          andThen (cache_set (redis E) cacheKey (CachedUser user) CACHE_TTL_USER) (\<lambda>_.
          ret user))))"

definition refreshToken :: "env \<Rightarrow> nat \<Rightarrow> uuid \<Rightarrow> jstring \<Rightarrow> (world, refreshed) act" where
  "refreshToken E now tenantId token =
     (case jwt_verify E now token (refresh_secret E) of
        Inl error \<Rightarrow> throw error
      | Inr payload \<Rightarrow>
          andThen (find_or_throw (userRepo E) (\<lambda>u. u_tenantId u = tenantId \<and> u_id u = jp_sub payload)
            (UnauthorizedException (js ''User not found''))) (\<lambda>user.
          andThen (ensure (u_isActive user) (UnauthorizedException (js ''Account is deactivated''))) (\<lambda>_.
          let (access, fresh) = generateTokens E now user
          in ret \<lparr>rf_user = user, rf_accessToken = access, rf_refreshToken = fresh\<rparr>)))"

section \<open>The guards\<close>

text \<open>\<open>JwtStrategy.validate\<close>; \<open>validateJwtPayload\<close> never returns a falsy user.\<close>

definition jwt_validate :: "env \<Rightarrow> uuid option \<Rightarrow> jwt_payload \<Rightarrow> (world, authenticated_user) act" where
  "jwt_validate E req_tenantId payload =
     andThen (ensure (\<not> (\<exists>t \<in> set_option (truthy req_tenantId). jp_tenantId payload \<noteq> t))
       (ForbiddenException (js ''Token does not belong to the specified tenant''))) (\<lambda>_.
     validateJwtPayload E payload)"

text \<open>
  \<open>JwtAuthGuard.canActivate\<close>: a public route passes without a user; otherwise Passport takes
  the bearer token, verifies it with the strategy's secret and calls \<open>validate\<close>. Without a
  valid token Passport's guard answers with a bare 401.
\<close>

definition unauthorized :: exn where
  "unauthorized = HttpException 401 (BodyObject (MsgStr (js ''Unauthorized'')) None)"

definition jwt_auth_guard ::
  "env \<Rightarrow> nat \<Rightarrow> bool \<Rightarrow> uuid option \<Rightarrow> jstring option \<Rightarrow> (world, authenticated_user option) act" where
  "jwt_auth_guard E now isPublic req_tenantId bearer =
     (if isPublic then ret None
      else (case bearer of
        None \<Rightarrow> throw unauthorized
      | Some token \<Rightarrow>
          (case jwt_verify E now token (access_secret E) of
             Inl _ \<Rightarrow> throw unauthorized
           | Inr payload \<Rightarrow> andThen (jwt_validate E req_tenantId payload) (\<lambda>user. ret (Some user)))))"

definition role_guard :: "user_role list option \<Rightarrow> authenticated_user option \<Rightarrow> (world, unit) act" where
  "role_guard requiredRoles user =
     (case requiredRoles of
        None \<Rightarrow> ret ()
      | Some roles \<Rightarrow>
          (case user of
             None \<Rightarrow> throw (UnauthorizedException (js ''User not authenticated''))
           | Some u \<Rightarrow>
               andThen (ensure (list_ex (\<lambda>role. role = au_role u) roles)
                 (ForbiddenException (js ''Insufficient role permissions''))) (\<lambda>_. ret ())))"

section \<open>The token library\<close>

text \<open>
  \<open>jsonwebtoken\<close>, as the code relies on it: a token signed for fifteen minutes is accepted,
  with the claims it was signed with, until then and only under its own secret; whatever is
  accepted was signed with that secret.
\<close>

locale token_library =
  fixes sign :: "nat \<Rightarrow> jwt_payload \<Rightarrow> jstring \<Rightarrow> jstring \<Rightarrow> jstring"
    and verify :: "nat \<Rightarrow> jstring \<Rightarrow> jstring \<Rightarrow> exn + jwt_payload"
  assumes verify_fresh: "now < iat + 900 \<Longrightarrow> verify now (sign iat p secret (js ''15m'')) secret = Inr p"
    and verify_expired: "iat + 900 \<le> now \<Longrightarrow> \<exists>e. verify now (sign iat p secret (js ''15m'')) secret = Inl e"
    and verify_secret: "secret' \<noteq> secret \<Longrightarrow> \<exists>e. verify now (sign iat p secret ttl) secret' = Inl e"
    and verify_genuine: "verify now t secret = Inr p \<Longrightarrow> \<exists>iat ttl. t = sign iat p secret ttl"
begin

lemma verify_signed:
  "verify now (sign iat p secret (js ''15m'')) secret' = Inr q \<longleftrightarrow>
     secret' = secret \<and> now < iat + 900 \<and> q = p"
proof (cases "secret' = secret")
  case True
  then show ?thesis
    using verify_fresh [of now iat p secret] verify_expired [of iat now p secret]
    by (cases "now < iat + 900") auto
qed (use verify_secret [of secret' secret now iat p "js ''15m''"] in auto)

end

interpretation mem_tokens: token_library mem_sign mem_verify
proof
  show "mem_verify now t secret = Inr p \<Longrightarrow> \<exists>iat ttl. t = mem_sign iat p secret ttl" for now t secret p
    by (auto simp: mem_verify_def Let_def split: if_splits)
qed (simp_all add: mem_verify_sign)

lemma mem_env_tokens [simp]: "jwt_sign mem_env = mem_sign" "jwt_verify mem_env = mem_verify"
  by (simp_all add: mem_env_def)

section \<open>Users as rows\<close>

lemma user_fields [simp]:
  "e_id user_entity = u_id" "e_alive user_entity x \<longleftrightarrow> u_deletedAt x = None"
  by (simp_all add: user_entity_def)

definition user_key_of :: "user \<Rightarrow> uuid \<times> jstring" where
  "user_key_of u = (u_tenantId u, u_email u)"

lemma user_saved:
  assumes db: "repository user_entity db" and s: "o_save db row t = Inr (x, t')"
  shows "u_tenantId x = u_tenantId row \<and> u_email x = u_email row \<and> u_firstName x = u_firstName row \<and>
    u_lastName x = u_lastName row \<and> u_passwordHash x = u_passwordHash row \<and> u_role x = u_role row \<and>
    u_isActive x = u_isActive row \<and> u_deletedAt x = u_deletedAt row"
  using repository.save_cols [OF db s] by (cases x; cases row) (simp add: user_entity_def)

lemma user_table:
  assumes "repository user_entity db"
  shows "tenant_table user_entity db user_key_of"
proof -
  have "user_key_of x = user_key_of y"
    if "e_cols user_entity x = e_cols user_entity (e_set_id user_entity i y)" for x y i
    using that by (cases x; cases y) (simp add: user_entity_def user_key_of_def)
  moreover have "fst (user_key_of y) = fst (user_key_of x)" if "killed user_entity x y" for x y
  proof -
    from that have "e_cols user_entity (e_kill user_entity y) = e_cols user_entity (e_kill user_entity x)"
      by (simp add: killed_def)
    from arg_cong [where f = u_tenantId, OF this] show ?thesis by (simp add: user_entity_def user_key_of_def)
  qed
  ultimately show ?thesis
    using assms by (simp add: tenant_table_def tenant_table_axioms_def keyed_repository_def keyed_repository_axioms_def)
qed

definition users_ok :: "world \<Rightarrow> bool" where
  "users_ok w \<longleftrightarrow> table_inv user_entity user_key_of (w_users w)"

definition user_named :: "uuid \<Rightarrow> jstring \<Rightarrow> world \<Rightarrow> user \<Rightarrow> bool" where
  "user_named T email w u \<longleftrightarrow> u \<in> set (w_users w) \<and> u_deletedAt u = None \<and> u_tenantId u = T \<and> u_email u = email"

lemma user_named_unique:
  assumes "users_ok w" and "user_named T email w u" and "user_named T email w v"
  shows "u = v"
proof -
  have "u_id u = u_id v"
    using assms by (auto simp: users_ok_def table_inv_def live_key_unique_def user_named_def user_key_of_def)
  with assms show ?thesis
    by (auto simp: users_ok_def table_inv_def ids_ok_def user_named_def distinct_map dest: inj_onD)
qed

lemma findOneByEmail_run:
  assumes db: "repository user_entity (userOrm E)" and ok: "users_ok w"
  shows "findOneByEmail E T email w = (Inr found, w') \<longleftrightarrow> w' = w \<and>
    (case found of None \<Rightarrow> \<not> (\<exists>u. user_named T email w u) | Some u \<Rightarrow> user_named T email w u)"
proof -
  let ?P = "\<lambda>u. u_tenantId u = T \<and> u_email u = email"
  obtain f where f: "find_one (userRepo E) ?P w = (Inr f, w)"
    by (simp add: find_one_eq)
  have F: "case f of None \<Rightarrow> \<not> (\<exists>u. user_named T email w u) | Some u \<Rightarrow> user_named T email w u"
  proof (cases f)
    case None
    with repository.find_one_None [OF db, of "userRepo E" ?P w w] f show ?thesis
      by (auto simp: user_named_def)
  next
    case (Some u)
    with repository.find_one_Some [OF db, of "userRepo E" ?P w u w] f show ?thesis
      by (simp add: user_named_def)
  qed
  let ?G = "\<lambda>g. case g of None \<Rightarrow> \<not> (\<exists>u. user_named T email w u) | Some u \<Rightarrow> user_named T email w u"
  have "found = f" if "?G found"
  proof (cases f)
    case None
    with F that show ?thesis by (cases found) auto
  next
    case (Some u)
    with F that show ?thesis using user_named_unique [OF ok, of T email u] by (cases found) auto
  qed
  with F show ?thesis unfolding findOneByEmail_def f by auto
qed

lemma findOneByEmail_cases:
  assumes db: "repository user_entity (userOrm E)" and ok: "users_ok w"
  obtains (none) "findOneByEmail E T email w = (Inr None, w)" and "\<not> (\<exists>u. user_named T email w u)"
    | (some) u where "findOneByEmail E T email w = (Inr (Some u), w)" and "user_named T email w u"
proof (cases "\<exists>u. user_named T email w u")
  case True
  then obtain u where "user_named T email w u" ..
  then show thesis using some findOneByEmail_run [OF db ok, of T email "Some u" w] by simp
next
  case False
  then show thesis using none findOneByEmail_run [OF db ok, of T email None w] by simp
qed

text \<open>What a login publishes: the user is the actor, whatever the request context says.\<close>

definition login_event :: "audit_context option \<Rightarrow> user \<Rightarrow> event list" where
  "login_event ctx u = audit_events ctx ((audit_input LOGIN ET_USER (u_id u) None None)\<lparr>ai_actorId := Some (u_id u)\<rparr>)"

text \<open>
  C29: A login of a request with a tenant context succeeds exactly when the tenant has a live,
  active user of that email whose stored hash matches the password; it then returns the access
  token of that user, signed with the access secret for fifteen minutes, publishes the login with
  the user as the actor and changes nothing else. An unknown email and a wrong password are
  answered alike, and no failure changes anything.
\<close>

theorem login_outcome:
  assumes db: "repository user_entity (userOrm E)" and ok: "users_ok w" and ctx: "context_tenant ctx \<noteq> None"
    and run: "login_user E now ctx T dto w = (r, w')"
  shows "((\<exists>token. r = Inr token) \<longleftrightarrow> (\<exists>u. user_named T (lg_email dto) w u \<and> u_isActive u \<and>
      bcrypt_compare E (lg_password dto) (u_passwordHash u))) \<and>
    (\<forall>token u. r = Inr token \<longrightarrow> user_named T (lg_email dto) w u \<longrightarrow>
      token = jwt_sign E now (token_payload u) (access_secret E) (js ''15m'') \<and> w' = emitted (login_event ctx u) w) \<and>
    (isl r \<longrightarrow> w' = w \<and> r = Inl (UnauthorizedException
      (if \<exists>u. user_named T (lg_email dto) w u \<and> \<not> u_isActive u then js ''Account is deactivated''
       else js ''Invalid credentials'')))"
proof -
  consider (none) "findOneByEmail E T (lg_email dto) w = (Inr None, w)" "\<not> (\<exists>u. user_named T (lg_email dto) w u)"
    | (some) u where "findOneByEmail E T (lg_email dto) w = (Inr (Some u), w)" "user_named T (lg_email dto) w u"
    using findOneByEmail_cases [OF db ok, of T "lg_email dto"] by blast
  then show ?thesis
  proof cases
    case none
    with run [unfolded login_user_def andThen_ok [where m = "findOneByEmail E T (lg_email dto)" and w = w, OF none(1)]]
    show ?thesis by (auto simp: throw_eq)
  next
    case (some u)
    have only: "user_named T (lg_email dto) w v \<longleftrightarrow> v = u" for v
      using some(2) user_named_unique [OF ok] by blast
    from run [unfolded login_user_def andThen_ok [where m = "findOneByEmail E T (lg_email dto)" and w = w, OF some(1)]
        option.case andThen_ensure generateTokens_def Let_def prod.case] ctx
    show ?thesis
      by (auto simp: only login_event_def andThen_def audit_record_cases ret_def split: if_splits prod.splits sum.splits)
  qed
qed

section \<open>Registration\<close>

definition created_user :: "env \<Rightarrow> uuid \<Rightarrow> register_dto \<Rightarrow> user \<Rightarrow> bool" where
  "created_user E T dto u \<longleftrightarrow> u_tenantId u = T \<and> u_email u = rg_email dto \<and> u_firstName u = rg_firstName dto \<and>
     u_lastName u = rg_lastName dto \<and> u_passwordHash u = bcrypt_hash E (rg_password dto) 10 \<and>
     u_role u = or_default (rg_role dto) CUSTOMER \<and> u_isActive u \<and> u_deletedAt u = None"

lemma register_run:
  assumes db: "repository user_entity (userOrm E)" and ok: "users_ok w"
    and run: "register_user E ctx T dto w = (r, w')"
  shows "(w_users w' = w_users w \<and> w' = w \<and> isl r) \<or>
    (\<not> (\<exists>u. user_named T (rg_email dto) w u) \<and> (\<exists>x t'. o_save (userOrm E) (registered_user E T dto) (w_users w) = Inr (x, t') \<and>
      w_users w' = t' \<and> created_user E T dto x \<and> (isl r \<longleftrightarrow> context_tenant ctx = None) \<and>
      (\<forall>resp. r = Inr resp \<longrightarrow> resp = toUserResponseDto x)))"
proof -
  consider (none) "findOneByEmail E T (rg_email dto) w = (Inr None, w)" "\<not> (\<exists>u. user_named T (rg_email dto) w u)"
    | (some) u where "findOneByEmail E T (rg_email dto) w = (Inr (Some u), w)" "user_named T (rg_email dto) w u"
    using findOneByEmail_cases [OF db ok, of T "rg_email dto"] by blast
  then show ?thesis
  proof cases
    case none
    note run = run [unfolded register_user_def andThen_ok [where m = "findOneByEmail E T (rg_email dto)" and w = w, OF none(1)]
        andThen_ensure]
    then have "andThen (save_and_record (userRepo E) ctx
        (\<lambda>saved. audit_input CREATE ET_USER (u_id saved) None (Some (user_values saved))) (registered_user E T dto))
        (\<lambda>savedUser. ret (toUserResponseDto savedUser)) w = (r, w')" by simp
    then show ?thesis
    proof (cases rule: andThenE)
      case (err e)
      from save_and_record_state [OF err(1)] consider "w' = w"
        | x t' where "o_save (userOrm E) (registered_user E T dto) (w_users w) = Inr (x, t')" "w_users w' = t'"
        by (auto simp: emitted_def userRepo_def)
      then show ?thesis
      proof cases
        case 2
        have "context_tenant ctx = None"
          using err(1) 2 by (auto simp: save_and_record_def flow_simps inv_simps)
        with 2 none(2) user_saved [OF db 2(1)] err(2) show ?thesis
          by (auto simp: created_user_def registered_user_def)
      qed (use err(2) in simp)
    next
      case (ok x w1)
      then obtain t' where s: "o_save (userOrm E) (registered_user E T dto) (w_users w) = Inr (x, t')"
        and w1: "w_users w' = t'" "context_tenant ctx \<noteq> None" "r = Inr (toUserResponseDto x)"
        by (auto simp: save_and_record_Inr ret_eq emitted_def userRepo_def)
      with none(2) user_saved [OF db s] show ?thesis
        by (auto simp: created_user_def registered_user_def)
    qed
  next
    case (some u)
    from run [unfolded register_user_def andThen_ok [where m = "findOneByEmail E T (rg_email dto)" and w = w, OF some(1)]
        andThen_ensure] show ?thesis by auto
  qed
qed

lemma register_writes:
  assumes db: "repository user_entity (userOrm E)" and ok: "users_ok w"
    and run: "register_user E ctx T dto w = (r, w')"
  shows "tenant_write user_entity (userOrm E) user_key_of T (w_users w) (w_users w')"
  using register_run [OF assms]
proof
  assume a: "\<not> (\<exists>u. user_named T (rg_email dto) w u) \<and> (\<exists>x t'. o_save (userOrm E) (registered_user E T dto) (w_users w) = Inr (x, t') \<and>
      w_users w' = t' \<and> created_user E T dto x \<and> (isl r \<longleftrightarrow> context_tenant ctx = None) \<and>
      (\<forall>resp. r = Inr resp \<longrightarrow> resp = toUserResponseDto x))"
  then obtain x t' where s: "o_save (userOrm E) (registered_user E T dto) (w_users w) = Inr (x, t')" "w_users w' = t'"
    by blast
  from a have "key_free user_entity user_key_of (user_key_of (registered_user E T dto)) no_id (w_users w)"
    by (auto simp: key_free_def user_key_of_def registered_user_def user_named_def)
  from write_new [OF s(1) _ _ this] s(2) show ?thesis
    by (simp add: registered_user_def user_key_of_def)
qed (simp add: write_nothing)

lemma register_users_ok:
  assumes db: "repository user_entity (userOrm E)" and ok: "users_ok w"
    and run: "register_user E ctx T dto w = (r, w')"
  shows "users_ok w'"
  using tenant_table.write_inv [OF user_table [OF db] register_writes [OF assms]] ok by (simp add: users_ok_def)

section \<open>Tokens and guards\<close>

lemma validate_Inr:
  assumes db: "repository user_entity (userOrm E)"
  shows "validateJwtPayload E p w = (Inr a, w') \<Longrightarrow> w' = w \<and> (\<exists>v \<in> set (w_users w). u_deletedAt v = None \<and>
    u_id v = jp_sub p \<and> u_tenantId v = jp_tenantId p \<and> u_isActive v \<and> a = identity_of v)"
  using repository.find_or_throw_Inr [OF db, where R = "userRepo E" and w = w]
  by (fastforce simp: validateJwtPayload_def flow_simps)

lemma validate_state: "validateJwtPayload E p w = (r, w') \<Longrightarrow> w' = w"
  by (cases r) (auto simp: validateJwtPayload_def flow_simps dest: find_or_throw_state)

lemma jwt_auth_guard_state: "jwt_auth_guard E now isPublic req bearer w = (r, w') \<Longrightarrow> w' = w"
  by (cases r) (auto simp: jwt_auth_guard_def jwt_validate_def flow_simps
      dest: validate_state split: if_splits option.splits sum.splits)

lemma jwt_auth_guard_Inr:
  assumes db: "repository user_entity (userOrm E)"
    and run: "jwt_auth_guard E now False req bearer w = (Inr user, w')"
  shows "\<exists>token p v. bearer = Some token \<and> jwt_verify E now token (access_secret E) = Inr p \<and>
    (\<forall>t. truthy req = Some t \<longrightarrow> jp_tenantId p = t) \<and> v \<in> set (w_users w) \<and> u_deletedAt v = None \<and>
    u_id v = jp_sub p \<and> u_tenantId v = jp_tenantId p \<and> u_isActive v \<and> user = Some (identity_of v)"
proof -
  from run obtain token p a where t: "bearer = Some token" "jwt_verify E now token (access_secret E) = Inr p"
    and v: "jwt_validate E req p w = (Inr a, w')" and user: "user = Some a"
    by (auto simp: jwt_auth_guard_def flow_simps split: option.splits sum.splits)
  from v have "validateJwtPayload E p w = (Inr a, w')" and "\<forall>t. truthy req = Some t \<longrightarrow> jp_tenantId p = t"
    by (auto simp: jwt_validate_def flow_simps)
  with validate_Inr [OF db] t user show ?thesis by blast
qed

lemma login_found:
  assumes "findOneByEmail E T (lg_email dto) w = (Inr (Some u), w)" and "u_isActive u"
    and "bcrypt_compare E (lg_password dto) (u_passwordHash u)" and "context_tenant ctx \<noteq> None"
  shows "login_user E now ctx T dto w =
    (Inr (jwt_sign E now (token_payload u) (access_secret E) (js ''15m'')), emitted (login_event ctx u) w)"
  unfolding login_user_def andThen_ok [where m = "findOneByEmail E T (lg_email dto)" and w = w, OF assms(1)]
  using assms(2-4)
  by (simp add: andThen_def ensure_def generateTokens_def audit_record_run ret_def login_event_def audit_events_def
      emitted_def split: option.splits)

lemma login_Inr:
  assumes db: "repository user_entity (userOrm E)"
    and run: "login_user E now ctx T dto w = (Inr token, w')"
  shows "\<exists>u. user_named T (lg_email dto) w u \<and>
    token = jwt_sign E now (token_payload u) (access_secret E) (js ''15m'') \<and> w_users w' = w_users w"
proof -
  from run obtain u w1 where f: "findOneByEmail E T (lg_email dto) w = (Inr (Some u), w1)"
    and t: "token = jwt_sign E now (token_payload u) (access_secret E) (js ''15m'')" "w_users w' = w_users w1"
    by (auto simp: login_user_def andThen_Inr ensure_Inr ret_eq throw_eq audit_record_Inr generateTokens_def
        split: option.splits)
  from repository.find_one_Some [OF db f [unfolded findOneByEmail_def]] t show ?thesis
    by (auto simp: user_named_def)
qed

lemma jwt_auth_guard_valid:
  assumes "jwt_verify E now token (access_secret E) = Inr p" and "T \<noteq> []"
  shows "jwt_auth_guard E now False (Some T) (Some token) w =
    (if jp_tenantId p \<noteq> T then (Inl (ForbiddenException (js ''Token does not belong to the specified tenant'')), w)
     else (case validateJwtPayload E p w of (Inl e, w') \<Rightarrow> (Inl e, w') | (Inr a, w') \<Rightarrow> (Inr (Some a), w')))"
  using assms
  by (simp add: jwt_auth_guard_def jwt_validate_def truthy_def andThen_def ensure_def throw_def ret_def
      split: prod.splits sum.splits)

lemma jwt_auth_guard_invalid:
  "jwt_verify E now token (access_secret E) = Inl e \<Longrightarrow>
     jwt_auth_guard E now False req (Some token) w = (Inl unauthorized, w)"
  by (simp add: jwt_auth_guard_def throw_def)

lemma validate_found:
  assumes db: "repository user_entity (userOrm E)" and ok: "users_ok w"
    and v: "v \<in> set (w_users w)" "u_deletedAt v = None" "u_id v = jp_sub p" "u_tenantId v = jp_tenantId p" "u_isActive v"
  shows "validateJwtPayload E p w = (Inr (identity_of v), w)"
proof -
  let ?P = "\<lambda>u. u_id u = jp_sub p \<and> u_tenantId u = jp_tenantId p"
  let ?e = "UnauthorizedException (js ''User not found'')"
  obtain r w1 where f: "find_or_throw (userRepo E) ?P ?e w = (r, w1)" by (rule prod.exhaust)
  then have w1: "w1 = w" by (rule find_or_throw_state)
  show ?thesis
  proof (cases r)
    case (Inl e)
    with repository.find_or_throw_Inl [OF db, of "userRepo E" ?P ?e w e w1] f v show ?thesis by auto
  next
    case (Inr x)
    with repository.find_or_throw_Inr [OF db, of "userRepo E" ?P ?e w x w1] f
    have x: "x \<in> set (w_users w)" "u_id x = u_id v" using v(3) by simp_all
    then have "x = v"
      using ok v(1) repository.same_id [OF db, of "w_users w" x v] by (simp add: users_ok_def table_inv_def)
    with f Inr w1 v(5) show ?thesis
      by (simp add: validateJwtPayload_def andThen_def ensure_def ret_def)
  qed
qed

text \<open>
  C30: The token of a login opens protected routes of its own tenant, as its own user, for fifteen
  minutes and for as long as that user is live and active: presented with another tenant it is
  refused with 403, after fifteen minutes with 401. The guard changes nothing.
\<close>

theorem token_scope:
  assumes lib: "token_library (jwt_sign E) (jwt_verify E)" and db: "repository user_entity (userOrm E)"
    and ok: "users_ok w2" and login: "login_user E now ctx T dto w = (Inr token, w1)" and T': "T' \<noteq> []"
    and run: "jwt_auth_guard E later False (Some T') (Some token) w2 = (r, w3)"
  shows "\<exists>u. user_named T (lg_email dto) w u \<and> w3 = w2 \<and>
    (now + 900 \<le> later \<longrightarrow> r = Inl unauthorized) \<and>
    (later < now + 900 \<and> T' \<noteq> T \<longrightarrow>
      r = Inl (ForbiddenException (js ''Token does not belong to the specified tenant''))) \<and>
    (later < now + 900 \<and> T' = T \<longrightarrow> (\<forall>a. r = Inr a \<longleftrightarrow> (\<exists>v \<in> set (w_users w2). u_deletedAt v = None \<and>
      u_id v = u_id u \<and> u_tenantId v = T \<and> u_isActive v \<and> a = Some (identity_of v))))"
proof -
  from login_Inr [OF db login] obtain u where u: "user_named T (lg_email dto) w u"
    and token: "token = jwt_sign E now (token_payload u) (access_secret E) (js ''15m'')" by blast
  have tenant: "u_tenantId u = T" using u by (simp add: user_named_def)
  note v = token_library.verify_signed [OF lib, of later now "token_payload u" "access_secret E" "access_secret E"]
  show ?thesis
  proof (intro exI [of _ u] conjI impI allI u)
    show "w3 = w2" using run by (rule jwt_auth_guard_state)
    show "r = Inl unauthorized" if "now + 900 \<le> later"
    proof -
      from v that obtain e where "jwt_verify E later token (access_secret E) = Inl e"
        by (cases "jwt_verify E later token (access_secret E)") (auto simp: token)
      with run jwt_auth_guard_invalid show ?thesis by fastforce
    qed
    show "r = Inl (ForbiddenException (js ''Token does not belong to the specified tenant''))"
      if "later < now + 900 \<and> T' \<noteq> T"
      using run jwt_auth_guard_valid [OF v [THEN iffD2] T', folded token, where w = w2] that tenant
      by (auto simp: token_payload_def)
    show "r = Inr a \<longleftrightarrow> (\<exists>v \<in> set (w_users w2). u_deletedAt v = None \<and>
      u_id v = u_id u \<and> u_tenantId v = T \<and> u_isActive v \<and> a = Some (identity_of v))"
      if l: "later < now + 900 \<and> T' = T" for a
    proof -
      obtain r0 w0 where val: "validateJwtPayload E (token_payload u) w2 = (r0, w0)" by (metis surj_pair)
      have go: "r = (case r0 of Inl e \<Rightarrow> Inl e | Inr a \<Rightarrow> Inr (Some a))"
        using run jwt_auth_guard_valid [OF v [THEN iffD2] T', folded token, where w = w2] l val
          tenant [folded payload_tenant] by (auto split: sum.splits)
      show ?thesis
      proof
        assume "r = Inr a"
        with go obtain b where b: "r0 = Inr b" "a = Some b" by (auto split: sum.splits)
        with validate_Inr [OF db, of "token_payload u" w2 b w0] val tenant
        show "\<exists>v \<in> set (w_users w2). u_deletedAt v = None \<and> u_id v = u_id u \<and> u_tenantId v = T \<and> u_isActive v \<and>
          a = Some (identity_of v)" by (auto simp: token_payload_def)
      next
        assume "\<exists>v \<in> set (w_users w2). u_deletedAt v = None \<and> u_id v = u_id u \<and> u_tenantId v = T \<and> u_isActive v \<and>
          a = Some (identity_of v)"
        then obtain x where x: "x \<in> set (w_users w2)" "u_deletedAt x = None" "u_id x = u_id u" "u_tenantId x = T"
          "u_isActive x" "a = Some (identity_of x)" by blast
        with validate_found [OF db ok x(1,2), of "token_payload u"] tenant val go show "r = Inr a"
          by (auto simp: token_payload_def)
      qed
    qed
  qed
qed

text \<open>
  C31: Registration is open and grants what it is asked for: after it succeeds, the same
  credentials log in, and within fifteen minutes the token identifies the new user of that tenant
  with the role the registration named, whichever it is, or as a customer when it named none.
\<close>

theorem register_login:
  assumes lib: "token_library (jwt_sign E) (jwt_verify E)" and db: "repository user_entity (userOrm E)"
    and bcrypt: "\<And>p n. bcrypt_compare E p (bcrypt_hash E p n)"
    and ok: "users_ok w" and T: "T \<noteq> []" and ctx: "context_tenant ctx \<noteq> None" and time: "later < now + 900"
    and reg: "register_user E ctx T dto w = (Inr resp, w1)"
    and login: "login_user E now ctx T \<lparr>lg_email = rg_email dto, lg_password = rg_password dto\<rparr> w1 = (r, w2)"
  shows "\<exists>token a. r = Inr token \<and> jwt_auth_guard E later False (Some T) (Some token) w2 = (Inr (Some a), w2) \<and>
    au_id a = ur_id resp \<and> au_tenantId a = T \<and> au_email a = rg_email dto \<and>
    au_role a = or_default (rg_role dto) CUSTOMER"
proof -
  from register_run [OF db ok reg] obtain x t' where s: "o_save (userOrm E) (registered_user E T dto) (w_users w) = Inr (x, t')"
    and x: "w_users w1 = t'" "created_user E T dto x" "resp = toUserResponseDto x" by auto
  have "x \<in> set (w_users w1)" using repository.save_set [OF db s] x(1) by simp
  then have named: "user_named T (rg_email dto) w1 x" using x(2) by (simp add: user_named_def created_user_def)
  have ok1: "users_ok w1" using register_users_ok [OF db ok reg] .
  have found: "findOneByEmail E T (rg_email dto) w1 = (Inr (Some x), w1)"
    using findOneByEmail_run [OF db ok1, of T "rg_email dto" "Some x" w1] named by simp
  let ?token = "jwt_sign E now (token_payload x) (access_secret E) (js ''15m'')"
  have run: "r = Inr ?token" "w_users w2 = w_users w1"
    using login login_found [OF _ _ _ ctx, where w = w1 and u = x and T = T and E = E] found x(2) bcrypt
    by (auto simp: created_user_def emitted_def)
  have "jwt_verify E later ?token (access_secret E) = Inr (token_payload x)"
    using token_library.verify_fresh [OF lib time] .
  note guard = jwt_auth_guard_valid [OF this T, where w = w2]
  have x': "x \<in> set (w_users w2)" "u_deletedAt x = None" "u_id x = jp_sub (token_payload x)"
    "u_tenantId x = jp_tenantId (token_payload x)" "u_isActive x" "u_tenantId x = T"
    using named x(2) by (simp_all add: run(2) token_payload_def user_named_def created_user_def)
  have "users_ok w2" using ok1 by (simp add: users_ok_def run(2))
  note valid = validate_found [OF db this x'(1-5)]
  have "jwt_auth_guard E later False (Some T) (Some ?token) w2 = (Inr (Some (identity_of x)), w2)"
    unfolding guard valid payload_tenant by (simp add: x'(6))
  with run(1) x show ?thesis
    by (auto simp: identity_of_def toUserResponseDto_def created_user_def)
qed

definition sample_registration :: register_dto where
  "sample_registration = \<lparr>rg_email = js ''ann@example.com'', rg_password = js ''secret-1'', rg_firstName = js ''Ann'',
     rg_lastName = js ''Lee'', rg_role = Some SUPER_ADMIN\<rparr>"

definition sample_login :: login_dto where
  "sample_login = \<lparr>lg_email = js ''ann@example.com'', lg_password = js ''secret-1''\<rparr>"

definition joined :: world where
  "joined = snd (register_user mem_env (sample_context (js ''A'')) (js ''A'') sample_registration empty_world)"

lemma empty_users: "users_ok empty_world"
  by (simp add: users_ok_def empty_world_def)

lemma joined_users: "users_ok joined"
  unfolding joined_def by (rule register_users_ok [OF _ empty_users prod.collapse [symmetric]]) simp

lemma sample_tenant_context [simp]: "context_tenant (sample_context (js ''A'')) = Some (js ''A'')"
  by (simp add: context_tenant_def sample_context_def truthy_def js_def)

lemma js_Nil [simp]: "js s = [] \<longleftrightarrow> s = []"
  by (simp add: js_def)

lemma login_outcome_witness:
  "(\<exists>u. user_named (js ''A'') (js ''ann@example.com'') joined u \<and> u_isActive u \<and>
      bcrypt_compare mem_env (js ''secret-1'') (u_passwordHash u)) \<and>
   fst (login_user mem_env 0 (sample_context (js ''A'')) (js ''A'') (sample_login\<lparr>lg_password := js ''wrong''\<rparr>) joined) =
     Inl (UnauthorizedException (js ''Invalid credentials''))"
proof
  obtain r w' where run: "login_user mem_env 0 (sample_context (js ''A'')) (js ''A'') sample_login joined = (r, w')"
    by (rule prod.exhaust)
  have "\<not> isl (fst (login_user mem_env 0 (sample_context (js ''A'')) (js ''A'') sample_login joined))" by code_simp
  with run have "\<exists>token. r = Inr token" by (cases r) simp_all
  with login_outcome [OF _ joined_users _ run] show "\<exists>u. user_named (js ''A'') (js ''ann@example.com'') joined u \<and> u_isActive u \<and>
      bcrypt_compare mem_env (js ''secret-1'') (u_passwordHash u)" by (simp add: sample_login_def)
qed code_simp

lemma token_scope_witness:
  "\<exists>token. fst (login_user mem_env 0 (sample_context (js ''A'')) (js ''A'') sample_login joined) = Inr token \<and>
     fst (jwt_auth_guard mem_env 10 False (Some (js ''B'')) (Some token) joined) =
       Inl (ForbiddenException (js ''Token does not belong to the specified tenant'')) \<and>
     fst (jwt_auth_guard mem_env 900 False (Some (js ''A'')) (Some token) joined) = Inl unauthorized"
proof -
  let ?run = "login_user mem_env 0 (sample_context (js ''A'')) (js ''A'') sample_login joined"
  obtain r w' where run: "?run = (r, w')" by (rule prod.exhaust)
  have "\<not> isl (fst ?run)" by code_simp
  with run obtain token where token: "?run = (Inr token, w')" by (cases r) simp_all
  obtain r1 w1 where g1: "jwt_auth_guard mem_env 10 False (Some (js ''B'')) (Some token) joined = (r1, w1)" by (rule prod.exhaust)
  obtain r2 w2 where g2: "jwt_auth_guard mem_env 900 False (Some (js ''A'')) (Some token) joined = (r2, w2)" by (rule prod.exhaust)
  from token_scope [OF _ _ joined_users token _ g1] token_scope [OF _ _ joined_users token _ g2] mem_tokens.token_library_axioms
  show ?thesis by (simp add: token g1 g2)
qed

lemma register_login_witness:
  "\<exists>token a. fst (login_user mem_env 0 (sample_context (js ''A'')) (js ''A'') sample_login joined) = Inr token \<and>
     fst (jwt_auth_guard mem_env 899 False (Some (js ''A'')) (Some token) joined) = Inr (Some a) \<and> au_role a = SUPER_ADMIN"
proof -
  let ?reg = "register_user mem_env (sample_context (js ''A'')) (js ''A'') sample_registration empty_world"
  have "\<not> isl (fst ?reg)" by code_simp
  then obtain resp where reg: "?reg = (Inr resp, joined)"
    unfolding joined_def by (metis prod.collapse sum.collapse(2))
  obtain r w' where run: "login_user mem_env 0 (sample_context (js ''A'')) (js ''A'')
      \<lparr>lg_email = rg_email sample_registration, lg_password = rg_password sample_registration\<rparr> joined = (r, w')" by (rule prod.exhaust)
  have "\<And>p n. bcrypt_compare mem_env p (bcrypt_hash mem_env p n)" by (simp add: mem_env_def)
  from register_login [OF _ _ this empty_users _ _ _ reg run, of 899] mem_tokens.token_library_axioms
  obtain token a where t: "r = Inr token" "jwt_auth_guard mem_env 899 False (Some (js ''A'')) (Some token) w' = (Inr (Some a), w')"
      "au_role a = SUPER_ADMIN"
    by (auto simp: sample_registration_def or_default_def)
  have "w_users w' = w_users joined" using login_Inr [OF _ run [unfolded t(1)]] by auto
  then have "fst (jwt_auth_guard mem_env 899 False (Some (js ''A'')) (Some token) joined) =
      fst (jwt_auth_guard mem_env 899 False (Some (js ''A'')) (Some token) w')"
    by (auto simp: jwt_auth_guard_def jwt_validate_def validateJwtPayload_def find_or_throw_def find_one_def gets_def andThen_def
        ensure_def throw_def ret_def split: sum.splits list.splits)
  with t run show ?thesis by (auto simp: sample_registration_def sample_login_def)
qed

end
