(* ===== verification/Admin.thy ===== *)
theory Admin
  imports Auth
begin

text \<open>
  Administration (\<open>src/admin/services\<close>): \<open>TenantProvisioningService\<close> creates a tenant with its
  administrator and settings in one transaction, \<open>TenantSettingService\<close> merges settings,
  \<open>TenantUserManagementService\<close> invites users and changes their roles.
\<close>

section \<open>Provisioning\<close>

record provision_dto =
  pv_domainName :: jstring
  pv_businessName :: jstring
  pv_adminEmail :: jstring
  pv_adminFirstName :: jstring
  pv_adminLastName :: jstring
  pv_adminPassword :: jstring

definition provisioned_tenant :: "provision_dto \<Rightarrow> tenant" where
  "provisioned_tenant dto = \<lparr>t_id = no_id, t_domainName = pv_domainName dto,
     t_businessName = pv_businessName dto, t_status = ACTIVE, t_createdAt = 0, t_updatedAt = 0,
     t_deletedAt = None\<rparr>"

definition admin_user :: "env \<Rightarrow> uuid \<Rightarrow> provision_dto \<Rightarrow> user" where
  "admin_user E tenantId dto = \<lparr>u_id = no_id, u_tenantId = tenantId, u_email = pv_adminEmail dto,
     u_firstName = pv_adminFirstName dto, u_lastName = pv_adminLastName dto,
     u_passwordHash = bcrypt_hash E (pv_adminPassword dto) 12, u_role = TENANT_ADMIN, u_isActive = True,
     u_createdAt = 0, u_updatedAt = 0, u_deletedAt = None\<rparr>"

definition initial_setting :: "uuid \<Rightarrow> tenant_setting" where
  "initial_setting tenantId = \<lparr>ts_id = no_id, ts_tenantId = tenantId,
     ts_config = [(js ''currency'', JStr (js ''USD'')), (js ''theme'', JStr (js ''light''))],
     ts_createdAt = 0, ts_updatedAt = 0\<rparr>"

definition provision_tx :: "env \<Rightarrow> provision_dto \<Rightarrow> (world, tenant) act" where
  "provision_tx E dto =
     andThen (find_one (tenantRepo E) (\<lambda>t. t_domainName t = pv_domainName dto)) (\<lambda>existingTenant.
     andThen (ensure (existingTenant = None)
       (BadRequestException (js ''A tenant with this domain already exists.''))) (\<lambda>_.
     andThen (save (tenantRepo E) (provisioned_tenant dto)) (\<lambda>savedTenant.
     andThen (find_one (userRepo E) (\<lambda>u. u_email u = pv_adminEmail dto \<and> u_tenantId u = t_id savedTenant))
       (\<lambda>existingUser.
     andThen (ensure (existingUser = None)
       (BadRequestException (js ''A user with this email already exists in this tenant.''))) (\<lambda>_.
     andThen (save (userRepo E) (admin_user E (t_id savedTenant) dto)) (\<lambda>_.
     andThen (save (settingRepo E) (initial_setting (t_id savedTenant))) (\<lambda>_.
     ret savedTenant)))))))"

text \<open>\<open>error instanceof BadRequestException\<close>: the only exceptions of status 400 thrown here.\<close>

fun is_bad_request :: "exn \<Rightarrow> bool" where
  "is_bad_request (HttpException status _) \<longleftrightarrow> status = 400"
| "is_bad_request _ \<longleftrightarrow> False"

definition provisioning_error :: "exn \<Rightarrow> exn" where
  "provisioning_error error =
     (if is_bad_request error then error
      else if isUniqueViolation error
      then ConflictException (js ''A record with unique identifiers already exists.'')
      else InternalServerErrorException (js ''An error occurred during tenant provisioning.''))"

definition createTenant :: "env \<Rightarrow> (world \<Rightarrow> exn option) \<Rightarrow> provision_dto \<Rightarrow> (world, tenant) act" where
  "createTenant E commit dto =
     catch (transaction commit (provision_tx E dto)) (\<lambda>error. throw (provisioning_error error))"

definition updateTenantStatus :: "env \<Rightarrow> uuid \<Rightarrow> tenant_status \<Rightarrow> (world, tenant) act" where
  "updateTenantStatus E tenantId newStatus =
     andThen (find_or_throw (tenantRepo E) (\<lambda>t. t_id t = tenantId \<and> t_deletedAt t = None)
       (NotFoundException (js ''Tenant not found''))) (\<lambda>tenant.
     catch (save (tenantRepo E) (tenant\<lparr>t_status := newStatus\<rparr>))
       (\<lambda>_. throw (InternalServerErrorException (js ''Failed to update tenant status''))))"

section \<open>Settings\<close>

type_synonym settings = "(jstring \<times> jval) list"

text \<open>\<open>{...a, ...b}\<close>: the keys of \<open>a\<close> in their order, then the new keys of \<open>b\<close>.\<close>

definition spread :: "settings \<Rightarrow> settings \<Rightarrow> settings" where
  "spread a b = map (\<lambda>(k, v). (k, case map_of b k of Some v' \<Rightarrow> v' | None \<Rightarrow> v)) a @
     filter (\<lambda>(k, v). k \<notin> fst ` set a) b"

definition config_json :: "settings \<Rightarrow> jval" where
  "config_json c = JObj [(''config'', JObj (map (\<lambda>(k, v). (map char_of k, v)) c))]"

definition getSettings :: "env \<Rightarrow> uuid \<Rightarrow> (world, tenant_setting) act" where
  "getSettings E tenantId = find_or_throw (settingRepo E) (\<lambda>s. ts_tenantId s = tenantId)
     (NotFoundException (js ''Tenant settings not found''))"

definition updateSettings ::
  "env \<Rightarrow> audit_context option \<Rightarrow> uuid \<Rightarrow> settings option \<Rightarrow> (world, tenant_setting) act" where
  "updateSettings E ctx tenantId config =
     andThen (getSettings E tenantId) (\<lambda>settings.
     let oldConfig = ts_config settings;
         settings = (case config of None \<Rightarrow> settings
           | Some c \<Rightarrow> settings\<lparr>ts_config := spread (ts_config settings) c\<rparr>)
     in save_and_record (settingRepo E) ctx (\<lambda>saved. audit_input UPDATE ET_TENANT_SETTING (ts_id saved)
          (Some (config_json oldConfig)) (Some (config_json (ts_config saved)))) settings)"

section \<open>Users of a tenant\<close>

record invite_dto =
  iv_email :: jstring
  iv_firstName :: jstring
  iv_lastName :: jstring
  iv_role :: user_role
  iv_password :: jstring

definition invited_user :: "env \<Rightarrow> uuid \<Rightarrow> invite_dto \<Rightarrow> user" where
  "invited_user E tenantId dto = \<lparr>u_id = no_id, u_tenantId = tenantId, u_email = iv_email dto,
     u_firstName = iv_firstName dto, u_lastName = iv_lastName dto,
     u_passwordHash = bcrypt_hash E (iv_password dto) 12, u_role = iv_role dto, u_isActive = True,
     u_createdAt = 0, u_updatedAt = 0, u_deletedAt = None\<rparr>"

definition inviteUser :: "env \<Rightarrow> audit_context option \<Rightarrow> uuid \<Rightarrow> invite_dto \<Rightarrow> (world, user) act" where
  "inviteUser E ctx tenantId dto =
     andThen (find_one (userRepo E) (\<lambda>u. u_email u = iv_email dto \<and> u_tenantId u = tenantId)) (\<lambda>existingUser.
     andThen (ensure (existingUser = None)
       (BadRequestException (js ''User with this email already exists in this tenant''))) (\<lambda>_.
     andThen (ensure (iv_role dto \<noteq> SUPER_ADMIN)
       (BadRequestException (js ''Cannot invite a user as Super Admin''))) (\<lambda>_.
     catch (save_and_record (userRepo E) ctx
         (\<lambda>saved. audit_input CREATE ET_USER (u_id saved) None (Some (user_values saved)))
         (invited_user E tenantId dto))
       (\<lambda>error. throw (if isUniqueViolation error
          then ConflictException (js ''A user with this unique identifier already exists'')
          else InternalServerErrorException (js ''An error occurred during user invitation''))))))"

definition role_value :: "user_role \<Rightarrow> jval" where
  "role_value r = JObj [(''role'', JStr (role_text r))]"

definition updateUserRole ::
  "env \<Rightarrow> audit_context option \<Rightarrow> uuid \<Rightarrow> uuid \<Rightarrow> user_role \<Rightarrow> (world, user) act" where
  "updateUserRole E ctx tenantId userId role =
     andThen (find_or_throw (userRepo E) (\<lambda>u. u_id u = userId \<and> u_tenantId u = tenantId)
       (NotFoundException (js ''User not found in this tenant''))) (\<lambda>user.
     andThen (ensure (\<not> (u_role user = SUPER_ADMIN \<or> role = SUPER_ADMIN))
       (BadRequestException (js ''Cannot assign or modify Super Admin role''))) (\<lambda>_.
     let oldRole = u_role user in
     catch (andThen (save_and_record (userRepo E) ctx
         (\<lambda>saved. audit_input UPDATE ET_USER (u_id saved) (Some (role_value oldRole)) (Some (role_value (u_role saved))))
         (user\<lparr>u_role := role\<rparr>)) (\<lambda>saved.
       andThen (cache_del (redis E) (user_key tenantId userId)) (\<lambda>_. ret saved)))
       (\<lambda>_. throw (InternalServerErrorException (js ''Failed to update user role'')))))"

section \<open>What provisioning does\<close>

lemma setting_saved:
  assumes db: "repository tenant_setting_entity db" and s: "o_save db row t = Inr (x, t')"
  shows "ts_tenantId x = ts_tenantId row \<and> ts_config x = ts_config row"
  using repository.save_cols [OF db s] by (cases x; cases row) (simp add: tenant_setting_entity_def)

lemma tenant_saved:
  assumes db: "repository tenant_entity db" and s: "o_save db row t = Inr (x, t')"
  shows "t_domainName x = t_domainName row \<and> t_businessName x = t_businessName row \<and> t_status x = t_status row \<and>
    t_deletedAt x = t_deletedAt row"
  using repository.save_cols [OF db s] by (cases x; cases row) (simp add: tenant_entity_def)

text \<open>A provisioning that succeeds has saved three rows, each new.\<close>

lemma createTenant_saves:
  assumes tdb: "repository tenant_entity (tenantOrm E)" and udb: "repository user_entity (userOrm E)"
    and run: "createTenant E commit dto w = (Inr t, w')"
  shows "\<exists>t' u u' s s'. o_save (tenantOrm E) (provisioned_tenant dto) (w_tenants w) = Inr (t, t') \<and>
    o_save (userOrm E) (admin_user E (t_id t) dto) (w_users w) = Inr (u, u') \<and>
    o_save (settingOrm E) (initial_setting (t_id t)) (w_settings w) = Inr (s, s') \<and>
    w' = w\<lparr>w_tenants := t', w_users := u', w_settings := s'\<rparr> \<and>
    \<not> (\<exists>x \<in> set (w_tenants w). t_deletedAt x = None \<and> t_domainName x = pv_domainName dto) \<and>
    \<not> (\<exists>x \<in> set (w_users w). u_deletedAt x = None \<and> u_email x = pv_adminEmail dto \<and> u_tenantId x = t_id t)"
proof -
  from run have "provision_tx E dto w = (Inr t, w')"
    by (auto simp: createTenant_def flow_simps dest: transaction_Inr)
  then obtain w1 w2 u s where free: "find_one (tenantRepo E) (\<lambda>t. t_domainName t = pv_domainName dto) w = (Inr None, w)"
    and t: "save (tenantRepo E) (provisioned_tenant dto) w = (Inr t, w1)"
    and fresh: "find_one (userRepo E) (\<lambda>u. u_email u = pv_adminEmail dto \<and> u_tenantId u = t_id t) w1 = (Inr None, w1)"
    and u: "save (userRepo E) (admin_user E (t_id t) dto) w1 = (Inr u, w2)"
    and s: "save (settingRepo E) (initial_setting (t_id t)) w2 = (Inr s, w')"
    by (auto simp: provision_tx_def andThen_Inr ensure_Inr ret_eq find_one_eq)
  from t obtain t' where t': "o_save (tenantOrm E) (provisioned_tenant dto) (w_tenants w) = Inr (t, t')"
    "w1 = w\<lparr>w_tenants := t'\<rparr>" by (auto simp: save_Inr tenantRepo_def)
  from u t'(2) obtain u' where u': "o_save (userOrm E) (admin_user E (t_id t) dto) (w_users w) = Inr (u, u')"
    "w2 = w1\<lparr>w_users := u'\<rparr>" by (auto simp: save_Inr userRepo_def)
  from s u'(2) t'(2) obtain s' where s': "o_save (settingOrm E) (initial_setting (t_id t)) (w_settings w) = Inr (s, s')"
    "w' = w2\<lparr>w_settings := s'\<rparr>" by (auto simp: save_Inr settingRepo_def)
  from t'(1) u'(1) s' u'(2) t'(2) repository.find_one_None [OF tdb free] repository.find_one_None [OF udb fresh]
  show ?thesis by (intro exI [of _ t'] exI [of _ u] exI [of _ u'] exI [of _ s] exI [of _ s']) auto
qed

text \<open>
  C32: Provisioning a tenant is all or nothing. When it succeeds, exactly one active tenant with
  the requested domain, one active administrator of that tenant with the requested email and
  one settings record of that tenant have been added, and nothing else changed; when it fails,
  for whatever reason, the commit included, nothing changed at all, and the error is one of the
  documented ones. A domain in use by a live tenant is refused with 400.
\<close>

theorem createTenant_atomic:
  assumes tdb: "repository tenant_entity (tenantOrm E)" and udb: "repository user_entity (userOrm E)"
    and sdb: "repository tenant_setting_entity (settingOrm E)"
    and run: "createTenant E commit dto w = (r, w')"
  shows "case r of
      Inr t \<Rightarrow> \<exists>u s. mset (w_tenants w') = add_mset t (mset (w_tenants w)) \<and>
        mset (w_users w') = add_mset u (mset (w_users w)) \<and> mset (w_settings w') = add_mset s (mset (w_settings w)) \<and>
        w' = w\<lparr>w_tenants := w_tenants w', w_users := w_users w', w_settings := w_settings w'\<rparr> \<and>
        t_domainName t = pv_domainName dto \<and> t_status t = ACTIVE \<and> u_tenantId u = t_id t \<and>
        u_email u = pv_adminEmail dto \<and> u_role u = TENANT_ADMIN \<and> u_isActive u \<and> ts_tenantId s = t_id t \<and>
        \<not> (\<exists>x \<in> set (w_tenants w). t_deletedAt x = None \<and> t_domainName x = pv_domainName dto)
    | Inl e \<Rightarrow> w' = w \<and> (\<exists>code body. e = HttpException code body \<and> code \<in> {400, 409, 500})"
proof (cases r)
  case (Inl e)
  with run obtain e' w1 where t: "transaction commit (provision_tx E dto) w = (Inl e', w')" "e = provisioning_error e'"
    by (auto simp: createTenant_def flow_simps)
  have "\<exists>code body. provisioning_error e' = HttpException code body \<and> code \<in> {400, 409, 500}"
    by (cases e') (auto simp: provisioning_error_def)
  with t Inl transaction_Inl [OF t(1)] show ?thesis by simp
next
  case (Inr t)
  from createTenant_saves [OF tdb udb run [unfolded Inr]] obtain t' u u' s s' where
    t': "o_save (tenantOrm E) (provisioned_tenant dto) (w_tenants w) = Inr (t, t')"
    and u': "o_save (userOrm E) (admin_user E (t_id t) dto) (w_users w) = Inr (u, u')"
    and s': "o_save (settingOrm E) (initial_setting (t_id t)) (w_settings w) = Inr (s, s')"
    and free: "\<not> (\<exists>x \<in> set (w_tenants w). t_deletedAt x = None \<and> t_domainName x = pv_domainName dto)"
    and w': "w' = w\<lparr>w_tenants := t', w_users := u', w_settings := s'\<rparr>" by blast
  have "mset t' = add_mset t (mset (w_tenants w))"
    using repository.save_insert [OF tdb t'] by (simp add: provisioned_tenant_def)
  moreover have "mset u' = add_mset u (mset (w_users w))"
    using repository.save_insert [OF udb u'] by (simp add: admin_user_def)
  moreover have "mset s' = add_mset s (mset (w_settings w))"
    using repository.save_insert [OF sdb s'] by (simp add: initial_setting_def tenant_setting_entity_def)
  moreover note free
  moreover have "t_domainName t = pv_domainName dto \<and> t_status t = ACTIVE"
    using tenant_saved [OF tdb t'] by (simp add: provisioned_tenant_def)
  moreover have "u_tenantId u = t_id t \<and> u_email u = pv_adminEmail dto \<and> u_role u = TENANT_ADMIN \<and> u_isActive u"
    using user_saved [OF udb u'] by (simp add: admin_user_def)
  moreover have "ts_tenantId s = t_id t"
    using setting_saved [OF sdb s'] by (simp add: initial_setting_def)
  ultimately show ?thesis
    by (auto simp: Inr w' intro!: exI [of _ u] exI [of _ s])
qed

definition sample_provision :: provision_dto where
  "sample_provision = \<lparr>pv_domainName = js ''my-shop'', pv_businessName = js ''My Shop'',
     pv_adminEmail = js ''ann@example.com'', pv_adminFirstName = js ''Ann'', pv_adminLastName = js ''Lee'',
     pv_adminPassword = js ''secret-1''\<rparr>"

definition provisioned :: world where
  "provisioned = snd (createTenant mem_env (\<lambda>_. None) sample_provision empty_world)"

lemma createTenant_atomic_witness:
  "mset (w_tenants provisioned) = {#projr (fst (createTenant mem_env (\<lambda>_. None) sample_provision empty_world))#} \<and>
   size (mset (w_users provisioned)) = 1 \<and>
   createTenant mem_env (\<lambda>_. Some (OtherError (js ''connection lost''))) sample_provision empty_world =
     (Inl (InternalServerErrorException (js ''An error occurred during tenant provisioning.'')), empty_world)"
proof -
  let ?run = "createTenant mem_env (\<lambda>_. None) sample_provision empty_world"
  let ?fail = "createTenant mem_env (\<lambda>_. Some (OtherError (js ''connection lost''))) sample_provision empty_world"
  obtain r w' where run: "?run = (r, w')" by (rule prod.exhaust)
  obtain f v where fail: "?fail = (f, v)" by (rule prod.exhaust)
  have "\<not> isl (fst ?run)" by code_simp
  with run obtain t where r: "r = Inr t" by (cases r) simp_all
  have f: "fst ?fail = Inl (InternalServerErrorException (js ''An error occurred during tenant provisioning.''))"
    by code_simp
  have "provisioned = w'" by (simp only: provisioned_def run snd_conv)
  with createTenant_atomic [OF _ _ _ run] have "mset (w_tenants provisioned) = {#t#}" "size (mset (w_users provisioned)) = 1"
    by (auto simp: r empty_world_def)
  moreover from createTenant_atomic [OF _ _ _ fail] f fail have "v = empty_world" by simp
  ultimately show ?thesis using f fail by (simp add: run r)
qed

section \<open>Settings merge\<close>

lemma map_of_spread: "map_of (spread a b) k = (case map_of b k of Some v \<Rightarrow> Some v | None \<Rightarrow> map_of a k)"
proof -
  have old: "map_of (map (\<lambda>(k, v). (k, case map_of b k of Some v' \<Rightarrow> v' | None \<Rightarrow> v)) a) k =
      map_option (\<lambda>v. case map_of b k of Some v' \<Rightarrow> v' | None \<Rightarrow> v) (map_of a k)"
    by (induction a) (auto split: option.splits)
  have "map_of (filter (\<lambda>(k, v). k \<notin> K) b) k = (if k \<in> K then None else map_of b k)" for K
    by (induction b) auto
  moreover have "k \<in> fst ` set a \<longleftrightarrow> map_of a k \<noteq> None" by (simp add: map_of_eq_None_iff)
  ultimately have "map_of (filter (\<lambda>(k, v). k \<notin> fst ` set a) b) k = (if map_of a k = None then map_of b k else None)"
    by presburger
  then show ?thesis
    by (cases "map_of a k") (simp_all add: spread_def old map_add_def split: option.splits)
qed

section \<open>Histories of user calls\<close>

lemma cache_del_redis: "cache_del R k w = (r, w') \<Longrightarrow> \<exists>st. w' = w\<lparr>w_redis := st\<rparr>"
  by (auto simp: cache_del_def split: prod.splits sum.splits)

lemma cache_set_redis: "cache_set R k v ttl w = (r, w') \<Longrightarrow> \<exists>st. w' = w\<lparr>w_redis := st\<rparr>"
  by (auto simp: cache_set_def split: prod.splits sum.splits)

lemma cache_get_state: "cache_get R k w = (r, w') \<Longrightarrow> w' = w"
  by (auto simp: cache_get_def split: prod.splits sum.splits option.splits)

text \<open>
  The calls that read or write users: the open routes of the authentication controller, and the
  two of the tenant administrator.
\<close>

inductive admin_step :: "env \<Rightarrow> uuid \<Rightarrow> world \<Rightarrow> world \<Rightarrow> bool" for E :: env where
  us_login: "login_user E now ctx T ldto w = (rt, w') \<Longrightarrow> admin_step E T w w'"
| us_refresh: "refreshToken E now T token w = (rr, w') \<Longrightarrow> admin_step E T w w'"
| us_show: "showUserInfo E T i w = (ru, w') \<Longrightarrow> admin_step E T w w'"
| us_invite: "inviteUser E ctx T idto w = (ru, w') \<Longrightarrow> admin_step E T w w'"
| us_role: "updateUserRole E ctx T i role w = (ru, w') \<Longrightarrow> admin_step E T w w'"

inductive user_step :: "env \<Rightarrow> uuid \<Rightarrow> world \<Rightarrow> world \<Rightarrow> bool" for E :: env where
  us_admin: "admin_step E T w w' \<Longrightarrow> user_step E T w w'"
| us_register: "register_user E ctx T rdto w = (r, w') \<Longrightarrow> user_step E T w w'"

text \<open>What a call of the administrator does to the users: nothing, a new user, or a new role.\<close>

inductive user_write :: "env \<Rightarrow> uuid \<Rightarrow> user list \<Rightarrow> user list \<Rightarrow> bool" for E :: env and T :: uuid where
  uw_nothing: "user_write E T t t"
| uw_invite: "o_save (userOrm E) row t = Inr (x, t') \<Longrightarrow> u_id row = no_id \<Longrightarrow> u_tenantId row = T \<Longrightarrow>
    u_role row \<noteq> SUPER_ADMIN \<Longrightarrow> key_free user_entity user_key_of (user_key_of row) no_id t \<Longrightarrow> user_write E T t t'"
| uw_role: "o_save (userOrm E) (old\<lparr>u_role := role\<rparr>) t = Inr (x, t') \<Longrightarrow> old \<in> set t \<Longrightarrow> u_deletedAt old = None \<Longrightarrow>
    u_tenantId old = T \<Longrightarrow> u_role old \<noteq> SUPER_ADMIN \<Longrightarrow> role \<noteq> SUPER_ADMIN \<Longrightarrow> user_write E T t t'"

lemma invite_writes:
  assumes db: "repository user_entity (userOrm E)" and run: "inviteUser E ctx T dto w = (r, w')"
  shows "user_write E T (w_users w) (w_users w')"
proof -
  let ?P = "\<lambda>u. u_email u = iv_email dto \<and> u_tenantId u = T"
  obtain f where f: "find_one (userRepo E) ?P w = (Inr f, w)" by (simp add: find_one_eq)
  note run = run [unfolded inviteUser_def andThen_ok [where m = "find_one (userRepo E) ?P" and w = w, OF f] andThen_ensure]
  show ?thesis
  proof (cases "f = None \<and> iv_role dto \<noteq> SUPER_ADMIN")
    case False
    with run show ?thesis by (auto simp: uw_nothing split: if_splits)
  next
    case True
    with run obtain r0 where s: "save_and_record (userRepo E) ctx
        (\<lambda>saved. audit_input CREATE ET_USER (u_id saved) None (Some (user_values saved))) (invited_user E T dto) w = (r0, w')"
      by (auto simp: catch_def throw_def split: prod.splits sum.splits)
    from True f have "key_free user_entity user_key_of (T, iv_email dto) no_id (w_users w)"
      using repository.find_one_None [OF db, of "userRepo E" ?P w w]
      by (auto simp: key_free_def user_key_of_def)
    then show ?thesis
      using save_and_record_state [OF s] True
      by (auto simp: userRepo_def emitted_def invited_user_def user_key_of_def intro: uw_nothing uw_invite)
  qed
qed

lemma role_writes:
  assumes db: "repository user_entity (userOrm E)" and run: "updateUserRole E ctx T i role w = (r, w')"
  shows "user_write E T (w_users w) (w_users w')"
  using run unfolding updateUserRole_def
proof (cases rule: andThenE)
  case (err e)
  then show ?thesis by (auto intro: uw_nothing dest: find_or_throw_state)
next
  case (ok u w1)
  from repository.find_or_throw_Inr [OF db ok(1)]
  have u: "w1 = w" "u \<in> set (w_users w)" "u_deletedAt u = None" "u_tenantId u = T" by auto
  note rest = ok(2) [unfolded andThen_ensure u(1) Let_def]
  show ?thesis
  proof (cases "u_role u = SUPER_ADMIN \<or> role = SUPER_ADMIN")
    case True
    with rest show ?thesis by (auto intro: uw_nothing)
  next
    case False
    let ?in = "\<lambda>saved. audit_input UPDATE ET_USER (u_id saved) (Some (role_value (u_role u))) (Some (role_value (u_role saved)))"
    from rest False obtain r1 w2 where s: "save_and_record (userRepo E) ctx ?in (u\<lparr>u_role := role\<rparr>) w = (r1, w2)"
      and w': "w_users w' = w_users w2"
      by (auto simp: catch_def andThen_def throw_def ret_def split: prod.splits sum.splits dest: cache_del_redis)
    show ?thesis
      using save_and_record_state [OF s] False u
      by (auto simp: w' userRepo_def emitted_def intro: uw_nothing uw_role)
  qed
qed

lemma login_users: "login_user E now ctx T dto w = (r, w') \<Longrightarrow> w_users w' = w_users w"
  by (auto simp: login_user_def findOneByEmail_def find_one_def andThen_gets andThen_ensure throw_eq generateTokens_def
      Let_def ret_eq audit_record_cases emitted_def elim!: andThenE split: option.splits if_splits list.splits)

lemma refresh_users: "refreshToken E now T token w = (r, w') \<Longrightarrow> w' = w"
  by (auto simp: refreshToken_def throw_eq ensure_Inr ensure_Inl generateTokens_def Let_def ret_eq
      elim!: andThenE dest: find_or_throw_state split: sum.splits if_splits)

lemma show_users: "showUserInfo E T i w = (r, w') \<Longrightarrow> w_users w' = w_users w"
  by (auto simp: showUserInfo_def Let_def throw_eq ret_eq elim!: andThenE
      dest!: find_or_throw_state cache_get_state cache_set_redis split: option.splits cached.splits)

lemma admin_step_writes:
  assumes "repository user_entity (userOrm E)" and "admin_step E T w w'"
  shows "user_write E T (w_users w) (w_users w')"
  using assms(2)
proof cases
  case us_login
  then show ?thesis by (simp add: login_users uw_nothing)
next
  case us_refresh
  then have "w' = w" by (rule refresh_users)
  then show ?thesis by (simp add: uw_nothing)
next
  case us_show
  then show ?thesis by (simp add: show_users uw_nothing)
qed (rule invite_writes [OF assms(1)] role_writes [OF assms(1)], assumption)+

lemma user_write_tenant_write:
  assumes "user_write E T t t'"
  shows "tenant_write user_entity (userOrm E) user_key_of T t t'"
  using assms
proof cases
  case uw_nothing
  then show ?thesis by (simp add: write_nothing)
next
  case (uw_invite row x)
  then show ?thesis by (intro write_new [OF uw_invite(1)]) (simp_all add: user_key_of_def)
next
  case (uw_role role old x)
  then show ?thesis by (intro write_old [OF uw_role(1), of old]) (simp_all add: user_key_of_def)
qed

lemma user_write_super_admins:
  assumes db: "repository user_entity (userOrm E)" and ids: "ids_ok user_entity t" and w: "user_write E T t t'"
  shows "{#u \<in># mset t'. u_role u = SUPER_ADMIN#} = {#u \<in># mset t. u_role u = SUPER_ADMIN#}"
  using w
proof cases
  case (uw_invite row x)
  have "u_role y \<noteq> SUPER_ADMIN" if "y \<in> set t" "u_id y = u_id x" for y
    using repository.save_new [OF db uw_invite(1)] uw_invite(2) that by (auto simp: image_iff)
  with repository.save_outside [OF db uw_invite(1), where Q = "\<lambda>u. u_role u \<noteq> SUPER_ADMIN"]
    user_saved [OF db uw_invite(1)] uw_invite(4) show ?thesis by simp
next
  case (uw_role role old x)
  have "u_id x = u_id old"
    using repository.save_old [OF db uw_role(1)] uw_role(2) ids by (auto simp: ids_ok_def)
  then have "u_role y \<noteq> SUPER_ADMIN" if "y \<in> set t" "u_id y = u_id x" for y
    using repository.same_id [OF db ids that(1) uw_role(2)] that(2) uw_role(5) by simp
  with repository.save_outside [OF db uw_role(1), where Q = "\<lambda>u. u_role u \<noteq> SUPER_ADMIN"]
    user_saved [OF db uw_role(1)] uw_role(6) show ?thesis by simp
qed simp

lemma user_service:
  assumes db: "repository user_entity (userOrm E)"
  shows "tenant_service (user_step E) w_users u_tenantId users_ok"
proof -
  have "tenant_write user_entity (userOrm E) user_key_of T (w_users w) (w_users w')"
    if "user_step E T w w'" "table_inv user_entity user_key_of (w_users w)" for T w w'
    using that(1)
  proof cases
    case us_admin
    then show ?thesis by (rule user_write_tenant_write [OF admin_step_writes [OF db]])
  next
    case (us_register ctx rdto r)
    with that(2) show ?thesis by (intro register_writes [OF db]) (simp_all add: users_ok_def)
  qed
  from tenant_table.writes_service [OF user_table [OF db], of "user_step E" w_users, OF this]
  show ?thesis by (simp add: users_ok_def [abs_def] user_key_of_def [abs_def])
qed

interpretation users: tenant_service "user_step mem_env" w_users u_tenantId users_ok
  by (rule user_service) simp

lemma admin_history_users: "history (admin_step E) Ts w w' \<Longrightarrow> history (user_step E) Ts w w'"
  by (induction rule: history.induct) (auto intro: us_admin)

text \<open>
  C33: Through any history of logins, token refreshes, profile reads, invitations and role changes
  of any tenants, no super administrator appears, disappears or is altered; emails stay unique
  per tenant among live users; and the users of a tenant without a call are exactly what they
  were.
\<close>

theorem administration_cannot_escalate:
  assumes db: "repository user_entity (userOrm E)"
    and run: "history (admin_step E) Ts w w'" and ok: "users_ok w"
  shows "users_ok w' \<and>
    {#u \<in># mset (w_users w'). u_role u = SUPER_ADMIN#} = {#u \<in># mset (w_users w). u_role u = SUPER_ADMIN#} \<and>
    (T \<notin> set Ts \<longrightarrow> {#u \<in># mset (w_users w'). u_tenantId u = T#} = {#u \<in># mset (w_users w). u_tenantId u = T#})"
proof (intro conjI)
  note service = user_service [OF db]
  note h = admin_history_users [OF run]
  show "users_ok w'" using tenant_service.history_inv [OF service h ok] .
  show "T \<notin> set Ts \<longrightarrow> {#u \<in># mset (w_users w'). u_tenantId u = T#} = {#u \<in># mset (w_users w). u_tenantId u = T#}"
    using tenant_service.history_tenant [OF service h ok] by blast
  show "{#u \<in># mset (w_users w'). u_role u = SUPER_ADMIN#} = {#u \<in># mset (w_users w). u_role u = SUPER_ADMIN#}"
    using run ok
  proof (induction rule: history.induct)
    case (history_Cons T w w1 Ts w2)
    have "users_ok w1"
      using tenant_service.step_inv [OF service us_admin [OF history_Cons.hyps(1)] history_Cons.prems] .
    moreover have "ids_ok user_entity (w_users w)"
      using history_Cons.prems by (simp add: users_ok_def table_inv_def)
    ultimately show ?case
      using history_Cons.IH user_write_super_admins [OF db _ admin_step_writes [OF db history_Cons.hyps(1)]] by simp
  qed simp
qed

definition sample_invitation :: "user_role \<Rightarrow> invite_dto" where
  "sample_invitation role = \<lparr>iv_email = js ''bob@example.com'', iv_firstName = js ''Bob'', iv_lastName = js ''Ray'',
     iv_role = role, iv_password = js ''secret-2''\<rparr>"

definition bob_invited :: world where
  "bob_invited = snd (inviteUser mem_env (sample_context (js ''A'')) (js ''A'') (sample_invitation CUSTOMER) joined)"

lemma bob_history: "history (admin_step mem_env) [js ''A''] joined bob_invited"
  unfolding bob_invited_def
  by (simp only: history_Cons_iff history_Nil_iff) (blast intro: us_invite [OF prod.collapse [symmetric]])

lemma administration_cannot_escalate_witness:
  "{#u \<in># mset (w_users bob_invited). u_role u = SUPER_ADMIN#} = {#u \<in># mset (w_users joined). u_role u = SUPER_ADMIN#} \<and>
   map u_role (w_users bob_invited) = [CUSTOMER, SUPER_ADMIN] \<and>
   fst (inviteUser mem_env (sample_context (js ''A'')) (js ''A'') (sample_invitation SUPER_ADMIN) joined) =
     Inl (BadRequestException (js ''Cannot invite a user as Super Admin''))"
proof (intro conjI)
  from administration_cannot_escalate [OF _ bob_history joined_users]
  show "{#u \<in># mset (w_users bob_invited). u_role u = SUPER_ADMIN#} = {#u \<in># mset (w_users joined). u_role u = SUPER_ADMIN#}"
    by simp
  show "map u_role (w_users bob_invited) = [CUSTOMER, SUPER_ADMIN]" by code_simp
  show "fst (inviteUser mem_env (sample_context (js ''A'')) (js ''A'') (sample_invitation SUPER_ADMIN) joined) =
     Inl (BadRequestException (js ''Cannot invite a user as Super Admin''))" by code_simp
qed

end
