(* ===== verification/Media.thy ===== *)
theory Media
  imports TenantService Http
begin

text \<open>
  Media assets (\<open>src/media\<close>, \<open>generateUniqueKey\<close> of \<open>s3-unique-key.util.ts\<close>): uploads, signed
  links for downloads, presigned links for direct uploads. S3 is a parameter; the locale
  \<open>object_store\<close> states what an accepted upload does. A fresh \<open>randomUUID()\<close> is an argument of
  the operations that draw one. The columns \<open>metadata\<close> and \<open>altText\<close> of an asset are never set.
\<close>

section \<open>Keys\<close>

text \<open>
  Node's \<open>path.extname\<close> (POSIX): the last component, trailing slashes left out; from its last
  dot on, unless that is its first character or the component is \<open>..\<close>.
\<close>

definition last_component :: "jstring \<Rightarrow> jstring" where
  "last_component path = rev (takeWhile (\<lambda>c. c \<noteq> 47) (dropWhile (\<lambda>c. c = 47) (rev path)))"

definition extname :: "jstring \<Rightarrow> jstring" where
  "extname path =
     (let base = last_component path; stem = butlast (rev (dropWhile (\<lambda>c. c \<noteq> 46) (rev base)))
      in if 46 \<notin> set base \<or> stem = [] \<or> base = js ''..'' then [] else drop (length stem) base)"

definition generateUniqueKey :: "uuid \<Rightarrow> uuid \<Rightarrow> jstring \<Rightarrow> jstring" where
  "generateUniqueKey fresh tenantId fileName = fresh @ js ''-'' @ tenantId @ js ''/'' @ extname fileName"

section \<open>The service\<close>

record uploaded_file =
  uf_originalname :: jstring
  uf_buffer :: "nat list"
  uf_mimetype :: jstring
  uf_size :: nat

definition startsWith :: "jstring \<Rightarrow> jstring \<Rightarrow> bool" where
  "startsWith s pre \<longleftrightarrow> take (length pre) s = pre"

fun string_includes :: "jstring \<Rightarrow> jstring \<Rightarrow> bool" where
  "string_includes s part \<longleftrightarrow> startsWith s part \<or> (case s of [] \<Rightarrow> False | _ # s' \<Rightarrow> string_includes s' part)"

declare string_includes.simps [simp del]

definition documentTypes :: "jstring list" where
  "documentTypes = [js ''pdf'', js ''doc'', js ''docx'', js ''xls'', js ''xlsx'', js ''ppt'', js ''pptx'',
     js ''txt'', js ''rtf'']"

definition getMediaTypeFromMimeType :: "jstring \<Rightarrow> media_type" where
  "getMediaTypeFromMimeType mimeType =
     (if startsWith mimeType (js ''image/'') then IMAGE
      else if startsWith mimeType (js ''video/'') then VIDEO
      else if startsWith mimeType (js ''audio/'') then AUDIO
      else if startsWith mimeType (js ''application/'') \<and> list_ex (string_includes mimeType) documentTypes then DOCUMENT
      else OTHER)"

abbreviation bucketName :: "env \<Rightarrow> jstring" where
  "bucketName E \<equiv> config_get E (js ''MINIO_BUCKET_NAME'')"

definition send_put :: "env \<Rightarrow> jstring \<Rightarrow> uploaded_file \<Rightarrow> (world, unit) act" where
  "send_put E key file = (\<lambda>w.
     case s3_put E (bucketName E) key \<lparr>so_body = uf_buffer file, so_contentType = uf_mimetype file\<rparr> (w_objects w) of
       Inl message \<Rightarrow> (Inl (HttpException 500 (BodyObject (MsgStr (js ''Failed to upload file to S3'')) (Some message))), w)
     | Inr objects \<Rightarrow> (Inr (), w\<lparr>w_objects := objects\<rparr>))"

definition new_asset :: "uuid \<Rightarrow> jstring \<Rightarrow> uploaded_file \<Rightarrow> media_asset" where
  "new_asset tenantId key file = \<lparr>m_id = no_id, m_tenantId = tenantId, m_fileName = key,
     m_originalFileName = uf_originalname file, m_mimeType = uf_mimetype file, m_sizeBytes = digits (uf_size file),
     m_url = js ''minio://tenantory-media/'' @ key, m_mediaType = getMediaTypeFromMimeType (uf_mimetype file),
     m_altText = None, m_createdAt = 0, m_updatedAt = 0\<rparr>"

definition uploadFile :: "env \<Rightarrow> uuid \<Rightarrow> uuid \<Rightarrow> uploaded_file \<Rightarrow> (world, media_asset) act" where
  "uploadFile E fresh tenantId file =
     (let key = generateUniqueKey fresh tenantId (uf_originalname file) in
      andThen (send_put E key file) (\<lambda>_.
      save (mediaRepo E) (new_asset tenantId key file)))"

definition getSignedURL :: "env \<Rightarrow> uuid \<Rightarrow> jstring \<Rightarrow> (world, jstring) act" where
  "getSignedURL E tenantId key =
     andThen (find_or_throw (mediaRepo E) (\<lambda>m. m_tenantId m = tenantId \<and> m_fileName m = key)
       (NotFoundException (js ''Media asset not found or access denied.''))) (\<lambda>_.
     ret (s3_sign_get E (bucketName E) key 3600))"

definition generatePresignedURL :: "env \<Rightarrow> uuid \<Rightarrow> uuid \<Rightarrow> jstring \<Rightarrow> jstring \<Rightarrow> (world, jstring \<times> jstring) act" where
  "generatePresignedURL E fresh tenantId fileName contentType =
     (let key = generateUniqueKey fresh tenantId fileName
      in ret (s3_sign_put E (bucketName E) key contentType 3600, key))"

section \<open>The object store\<close>

locale object_store =
  fixes put :: "jstring \<Rightarrow> jstring \<Rightarrow> s3_object \<Rightarrow> s3_store \<Rightarrow> jstring + s3_store"
  assumes put_stores: "put bucket key ob st = Inr st' \<Longrightarrow> map_of st' = (map_of st)((bucket, key) \<mapsto> ob)"
begin

lemma put_found: "put bucket key ob st = Inr st' \<Longrightarrow> map_of st' (bucket, key) = Some ob"
  by (simp add: put_stores)

lemma put_keeps: "put bucket key ob st = Inr st' \<Longrightarrow> map_of st k \<noteq> None \<Longrightarrow> map_of st' k \<noteq> None"
  by (simp add: put_stores)

end

interpretation mem_objects: object_store "s3_put mem_env"
  by unfold_locales (auto simp: mem_env_def)

section \<open>Histories\<close>

lemma media_fields [simp]:
  "e_id media_asset_entity = m_id" "e_alive media_asset_entity x"
  by (simp_all add: media_asset_entity_def)

lemma media_saved:
  assumes db: "repository media_asset_entity db" and s: "o_save db row t = Inr (x, t')"
  shows "x = row\<lparr>m_id := m_id x, m_createdAt := m_createdAt x, m_updatedAt := m_updatedAt x\<rparr>"
  using repository.save_cols [OF db s] by (cases x; cases row) (simp add: media_asset_entity_def)

text \<open>Every asset has its object in the bucket.\<close>

definition media_inv :: "env \<Rightarrow> world \<Rightarrow> bool" where
  "media_inv E w \<longleftrightarrow> ids_ok media_asset_entity (w_media w) \<and>
     (\<forall>m \<in> set (w_media w). map_of (w_objects w) (bucketName E, m_fileName m) \<noteq> None)"

lemma send_put_run:
  "send_put E key file w = (r, w') \<Longrightarrow>
     w' = w \<and> (\<exists>message. r = Inl (HttpException 500 (BodyObject (MsgStr (js ''Failed to upload file to S3'')) (Some message)))) \<or>
     r = Inr () \<and> (\<exists>st. s3_put E (bucketName E) key \<lparr>so_body = uf_buffer file, so_contentType = uf_mimetype file\<rparr>
       (w_objects w) = Inr st \<and> w' = w\<lparr>w_objects := st\<rparr>)"
  by (auto simp: send_put_def split: sum.splits)

text \<open>A run of an upload: refused by S3, refused by the database, or stored in both.\<close>

lemma uploadFile_cases:
  assumes run: "uploadFile E fresh T file w = (r, w')"
  defines "key \<equiv> generateUniqueKey fresh T (uf_originalname file)"
    and "ob \<equiv> \<lparr>so_body = uf_buffer file, so_contentType = uf_mimetype file\<rparr>"
  obtains (no_object) message where "w' = w"
      "r = Inl (HttpException 500 (BodyObject (MsgStr (js ''Failed to upload file to S3'')) (Some message)))"
    | (no_row) st e where "s3_put E (bucketName E) key ob (w_objects w) = Inr st" "w' = w\<lparr>w_objects := st\<rparr>" "r = Inl e"
    | (stored) st x t where "s3_put E (bucketName E) key ob (w_objects w) = Inr st"
      "o_save (mediaOrm E) (new_asset T key file) (w_media w) = Inr (x, t)"
      "w' = w\<lparr>w_objects := st, w_media := t\<rparr>" "r = Inr x"
  using run unfolding uploadFile_def Let_def key_def [symmetric]
proof (cases rule: andThenE)
  case (err e)
  with send_put_run [OF err(1)] show ?thesis using no_object by auto
next
  case (ok u w1)
  from send_put_run [OF ok(1)] obtain st where
    p: "s3_put E (bucketName E) key ob (w_objects w) = Inr st" "w1 = w\<lparr>w_objects := st\<rparr>"
    by (auto simp: ob_def)
  show ?thesis
  proof (cases r)
    case (Inl e)
    with ok(2) p show ?thesis by (intro no_row) (auto simp: save_Inl)
  next
    case (Inr x)
    with ok(2) p show ?thesis using stored by (auto simp: save_Inr mediaRepo_def)
  qed
qed

inductive media_step :: "env \<Rightarrow> uuid \<Rightarrow> world \<Rightarrow> world \<Rightarrow> bool" for E :: env where
  ms_upload: "uploadFile E fresh T file w = (r, w') \<Longrightarrow> media_step E T w w'"
| ms_get: "getSignedURL E T key w = (r', w') \<Longrightarrow> media_step E T w w'"
| ms_presign: "generatePresignedURL E fresh T fileName contentType w = (r'', w') \<Longrightarrow> media_step E T w w'"

lemma getSignedURL_state: "getSignedURL E T key w = (r, w') \<Longrightarrow> w' = w"
  by (auto simp: getSignedURL_def ret_eq elim!: andThenE dest: find_or_throw_state)

lemma getSignedURL_run:
  assumes db: "repository media_asset_entity (mediaOrm E)"
  shows "getSignedURL E T key w =
    (if \<exists>m \<in> set (w_media w). m_tenantId m = T \<and> m_fileName m = key
     then Inr (s3_sign_get E (bucketName E) key 3600)
     else Inl (NotFoundException (js ''Media asset not found or access denied.'')), w)"
proof -
  let ?P = "\<lambda>m. m_tenantId m = T \<and> m_fileName m = key"
  let ?e = "NotFoundException (js ''Media asset not found or access denied.'')"
  obtain r v where f: "find_or_throw (mediaRepo E) ?P ?e w = (r, v)" by (rule prod.exhaust)
  show ?thesis
  proof (cases r)
    case (Inl e)
    with repository.find_or_throw_Inl [OF db f [unfolded Inl]] f show ?thesis
      by (auto simp: getSignedURL_def andThen_def)
  next
    case (Inr m)
    with repository.find_or_throw_Inr [OF db f [unfolded Inr]] f show ?thesis
      by (auto simp: getSignedURL_def andThen_def ret_def)
  qed
qed

lemma media_service:
  assumes db: "repository media_asset_entity (mediaOrm E)" and s3: "object_store (s3_put E)"
  shows "tenant_service (media_step E) w_media m_tenantId (media_inv E)"
proof
  fix T w w'
  assume step: "media_step E T w w'" and inv: "media_inv E w"
  show "media_inv E w'"
    using step
  proof cases
    case (ms_upload fresh f r)
    then show ?thesis
    proof (cases rule: uploadFile_cases)
      case (no_row st e)
      with inv show ?thesis by (auto simp: media_inv_def object_store.put_stores [OF s3 no_row(1)])
    next
      case (stored st x t)
      from inv have ids: "ids_ok media_asset_entity (w_media w)" by (simp add: media_inv_def)
      have "m_fileName x = generateUniqueKey fresh T (uf_originalname f)"
        using arg_cong [where f = m_fileName, OF media_saved [OF db stored(2)]] by (simp add: new_asset_def)
      with stored inv repository.save_ids [OF db stored(2) ids] repository.save_set [OF db stored(2)] show ?thesis
        by (auto simp: media_inv_def object_store.put_stores [OF s3 stored(1)])
    qed (use inv in simp)
  next
    case (ms_get key r)
    with inv getSignedURL_state show ?thesis by blast
  next
    case (ms_presign fresh fileName contentType r)
    with inv show ?thesis by (simp add: generatePresignedURL_def ret_eq Let_def)
  qed
  show "{#x \<in># mset (w_media w'). m_tenantId x \<noteq> T#} = {#x \<in># mset (w_media w). m_tenantId x \<noteq> T#}"
    using step
  proof cases
    case (ms_upload fresh f r)
    then show ?thesis
    proof (cases rule: uploadFile_cases)
      case (stored st x t)
      have "m_tenantId x = T"
        using arg_cong [where f = m_tenantId, OF media_saved [OF db stored(2)]] by (simp add: new_asset_def)
      moreover have "ids_ok media_asset_entity (w_media w)" using inv by (simp add: media_inv_def)
      ultimately have "{#x \<in># mset t. m_tenantId x \<noteq> T#} = {#x \<in># mset (w_media w). m_tenantId x \<noteq> T#}"
        using stored(2) by (intro repository.save_others [OF db stored(2)]) (simp_all add: new_asset_def)
      with stored show ?thesis by simp
    qed simp_all
  next
    case (ms_get key r)
    then show ?thesis using getSignedURL_state by blast
  next
    case (ms_presign fresh fileName contentType r)
    then show ?thesis by (simp add: generatePresignedURL_def ret_eq Let_def)
  qed
qed

interpretation media: tenant_service "media_step mem_env" w_media m_tenantId "media_inv mem_env"
  by (rule media_service) (simp_all add: mem_objects.object_store_axioms)

text \<open>
  C34: Through any history of uploads, signed links and presigned links of any tenants, every
  asset has its object in the bucket, the assets of a tenant without a call are exactly what they
  were, and at the end a signed link for a key is handed to exactly the tenants that own an
  asset under that key; everyone else gets a 404.
\<close>

theorem media_history:
  assumes db: "repository media_asset_entity (mediaOrm E)" and s3: "object_store (s3_put E)"
    and run: "history (media_step E) Ts w w'" and ok: "media_inv E w"
  shows "(\<forall>m \<in> set (w_media w'). map_of (w_objects w') (config_get E (js ''MINIO_BUCKET_NAME''), m_fileName m) \<noteq> None) \<and>
    (T \<notin> set Ts \<longrightarrow> {#m \<in># mset (w_media w'). m_tenantId m = T#} = {#m \<in># mset (w_media w). m_tenantId m = T#}) \<and>
    (fst (getSignedURL E T key w') = Inr (s3_sign_get E (config_get E (js ''MINIO_BUCKET_NAME'')) key 3600) \<longleftrightarrow>
       (\<exists>m \<in> set (w_media w'). m_tenantId m = T \<and> m_fileName m = key)) \<and>
    (\<not> (\<exists>m \<in> set (w_media w'). m_tenantId m = T \<and> m_fileName m = key) \<longrightarrow>
       fst (getSignedURL E T key w') = Inl (NotFoundException (js ''Media asset not found or access denied.'')))"
proof (intro conjI)
  note service = media_service [OF db s3]
  show "\<forall>m \<in> set (w_media w'). map_of (w_objects w') (bucketName E, m_fileName m) \<noteq> None"
    using tenant_service.history_inv [OF service run ok] by (simp add: media_inv_def)
  show "T \<notin> set Ts \<longrightarrow> {#m \<in># mset (w_media w'). m_tenantId m = T#} = {#m \<in># mset (w_media w). m_tenantId m = T#}"
    using tenant_service.history_tenant [OF service run ok] by blast
qed (simp_all add: getSignedURL_run [OF db])

definition sample_file :: uploaded_file where
  "sample_file = \<lparr>uf_originalname = js ''shoe.png'', uf_buffer = [1, 2], uf_mimetype = js ''image/png'', uf_size = 2\<rparr>"

definition uploaded_world :: world where
  "uploaded_world = snd (uploadFile mem_env (js ''u1'') (js ''A'') sample_file empty_world)"

lemma media_history_witness:
  "list_all (\<lambda>m. map_of (w_objects uploaded_world) (js ''MINIO_BUCKET_NAME'', m_fileName m) \<noteq> None) (w_media uploaded_world) \<and>
   map m_fileName (w_media uploaded_world) = [js ''u1-A/.png''] \<and>
   fst (getSignedURL mem_env (js ''A'') (js ''u1-A/.png'') uploaded_world) = Inr (js ''MINIO_BUCKET_NAME/u1-A/.png'') \<and>
   fst (getSignedURL mem_env (js ''B'') (js ''u1-A/.png'') uploaded_world) =
     Inl (NotFoundException (js ''Media asset not found or access denied.''))"
proof (intro conjI)
  have run: "history (media_step mem_env) [js ''A''] empty_world uploaded_world"
    unfolding uploaded_world_def
    by (simp only: history_Cons_iff history_Nil_iff) (blast intro: ms_upload [OF prod.collapse [symmetric]])
  have "media_inv mem_env empty_world"
    by (simp add: media_inv_def empty_world_def ids_ok_def)
  note all = media_history [OF _ mem_objects.object_store_axioms run this]
  have bucket: "config_get mem_env k = k" for k by (simp add: mem_env_def)
  from all [of "js ''A''"] show "list_all (\<lambda>m. map_of (w_objects uploaded_world) (js ''MINIO_BUCKET_NAME'', m_fileName m) \<noteq> None)
     (w_media uploaded_world)"
    by (simp add: list_all_iff bucket)
  show "map m_fileName (w_media uploaded_world) = [js ''u1-A/.png'']" by code_simp
  show "fst (getSignedURL mem_env (js ''A'') (js ''u1-A/.png'') uploaded_world) = Inr (js ''MINIO_BUCKET_NAME/u1-A/.png'')"
    by code_simp
  have none: "list_ex (\<lambda>m. m_tenantId m = js ''B'') (w_media uploaded_world) = False" by code_simp
  from all [of "js ''B''" "js ''u1-A/.png''"] none
  show "fst (getSignedURL mem_env (js ''B'') (js ''u1-A/.png'') uploaded_world) =
     Inl (NotFoundException (js ''Media asset not found or access denied.''))"
    by (auto simp: list_ex_iff)
qed



end
