(* ===== verification/Search.thy ===== *)
theory Search
  imports TenantService
begin

text \<open>
  The fuzzy search of \<open>SearchService\<close> (\<open>src/search\<close>): the products of a tenant by name and its
  variants by SKU, best match first. Trigram similarity and PostgreSQL's ordering by a computed
  score are parameters; the locale \<open>ranking\<close> states what \<open>ORDER BY score DESC\<close> does.
\<close>

section \<open>The service\<close>

datatype search_type = SEARCH_PRODUCT | SEARCH_VARIANT | SEARCH_ALL

record search_query =
  fq_q :: jstring
  fq_limit :: "nat option"
  fq_type :: "search_type option"
  fq_categoryId :: "uuid option"

record product_hit =
  ph_score :: rat
  ph_product :: product

record variant_hit =
  vh_score :: rat
  vh_variant :: variant

record search_result =
  sr_products :: "product_hit list option"
  sr_variants :: "variant_hit list option"
  sr_type :: search_type

definition SIMILARITY_THRESHOLD :: rat where
  "SIMILARITY_THRESHOLD = 1 / 10"

definition limit_rows :: "nat \<Rightarrow> paging" where
  "limit_rows n = \<lparr>pg_skip = None, pg_take = Some n, pg_limit = None\<rparr>"

text \<open>\<open>new Map(raw.map(...))\<close>: the last entry of a key counts.\<close>

definition score_by_id :: "(uuid \<times> rat) list \<Rightarrow> uuid \<Rightarrow> rat option" where
  "score_by_id raw = map_of (rev raw)"

definition searchProducts :: "env \<Rightarrow> uuid \<Rightarrow> search_query \<Rightarrow> nat \<Rightarrow> (world, product_hit list) act" where
  "searchProducts E tenantId dto limit =
     (let score = (\<lambda>p. similarity E (p_name p) (fq_q dto)) in
      gets (\<lambda>w.
        let rows = o_select (productOrm E) (\<lambda>p. p_tenantId p = tenantId \<and> p_deletedAt p = None \<and>
              score p > SIMILARITY_THRESHOLD \<and>
              (case truthy (fq_categoryId dto) of None \<Rightarrow> True | Some categoryId \<Rightarrow> p_categoryId p = categoryId))
              (w_products w);
            entities = o_page (productOrm E) (limit_rows limit) (rank_products E score rows);
            raw = map (\<lambda>p. (p_id p, score p)) entities;
            scoreById = score_by_id raw
        in map (\<lambda>p. \<lparr>ph_score = or_default (scoreById (p_id p)) 0, ph_product = p\<rparr>) entities))"

definition searchVariants :: "env \<Rightarrow> uuid \<Rightarrow> search_query \<Rightarrow> nat \<Rightarrow> (world, variant_hit list) act" where
  "searchVariants E tenantId dto limit =
     (let score = (\<lambda>v. similarity E (v_sku v) (fq_q dto)) in
      gets (\<lambda>w.
        let rows = o_select (variantOrm E) (\<lambda>v. v_tenantId v = tenantId \<and> v_deletedAt v = None \<and>
              score v > SIMILARITY_THRESHOLD) (w_variants w);
            entities = o_page (variantOrm E) (limit_rows limit) (rank_variants E score rows);
            raw = map (\<lambda>v. (v_id v, score v)) entities;
            scoreById = score_by_id raw
        in map (\<lambda>v. \<lparr>vh_score = or_default (scoreById (v_id v)) 0, vh_variant = v\<rparr>) entities))"

definition search :: "env \<Rightarrow> uuid \<Rightarrow> search_query \<Rightarrow> (world, search_result) act" where
  "search E tenantId dto =
     (let limit = or_default (fq_limit dto) 10;
          result = \<lparr>sr_products = None, sr_variants = None, sr_type = or_default (fq_type dto) SEARCH_ALL\<rparr> in
      andThen (if fq_type dto = Some SEARCH_ALL \<or> fq_type dto = Some SEARCH_PRODUCT
               then andThen (searchProducts E tenantId dto limit) (\<lambda>hits. ret (result\<lparr>sr_products := Some hits\<rparr>))
               else ret result) (\<lambda>result.
      if fq_type dto = Some SEARCH_ALL \<or> fq_type dto = Some SEARCH_VARIANT
      then andThen (searchVariants E tenantId dto limit) (\<lambda>hits. ret (result\<lparr>sr_variants := Some hits\<rparr>))
      else ret result))"

section \<open>Ranking\<close>

locale ranking =
  fixes rank :: "('row \<Rightarrow> rat) \<Rightarrow> 'row list \<Rightarrow> 'row list"
  assumes rank_rows: "mset (rank f xs) = mset xs"
    and rank_sorted: "sorted_wrt (\<lambda>x y. f y \<le> f x) (rank f xs)"
begin

text \<open>The first \<open>n\<close> of a ranking are the \<open>n\<close> best: nothing left out beats anything kept.\<close>

lemma rank_set: "set (rank f xs) = set xs"
  using rank_rows by (metis set_mset_mset)

lemma take_best:
  assumes "x \<in> set (take n (rank f xs))" and "y \<in> set (drop n (rank f xs))"
  shows "f y \<le> f x"
proof -
  have "sorted_wrt (\<lambda>x y. f y \<le> f x) (take n (rank f xs) @ drop n (rank f xs))"
    using rank_sorted by simp
  with assms show ?thesis by (simp only: sorted_wrt_append)
qed

end

lemma sort_ranking: "ranking (\<lambda>f :: 'a \<Rightarrow> rat. sort_key (\<lambda>x. - f x))"
proof
  fix f :: "'a \<Rightarrow> rat" and xs
  have "sorted (map (\<lambda>x. - f x) (sort_key (\<lambda>x. - f x) xs))" by simp
  then show "sorted_wrt (\<lambda>x y. f y \<le> f x) (sort_key (\<lambda>x. - f x) xs)"
    by (simp add: sorted_wrt_map)
qed simp_all

interpretation product_rank: ranking "rank_products mem_env"
  using sort_ranking by (simp add: mem_env_def)

interpretation variant_rank: ranking "rank_variants mem_env"
  using sort_ranking by (simp add: mem_env_def)

section \<open>What a search returns\<close>

lemma score_by_id_own:
  assumes "distinct (map i xs)" and "x \<in> set xs"
  shows "score_by_id (map (\<lambda>x. (i x, f x)) xs) (i x) = Some (f x)"
proof -
  have "distinct (map fst (rev (map (\<lambda>x. (i x, f x)) xs)))"
    using assms(1) by (simp add: comp_def flip: rev_map)
  moreover have "(i x, f x) \<in> set (rev (map (\<lambda>x. (i x, f x)) xs))" using assms(2) by auto
  ultimately show ?thesis unfolding score_by_id_def by (rule map_of_is_SomeI)
qed

text \<open>
  The query both searches run, over any table: the live rows that satisfy a condition, best
  score first, at most \<open>n\<close>.
\<close>

definition ranked :: "'row orm \<Rightarrow> (('row \<Rightarrow> rat) \<Rightarrow> 'row list \<Rightarrow> 'row list) \<Rightarrow> ('row \<Rightarrow> rat) \<Rightarrow>
    ('row \<Rightarrow> bool) \<Rightarrow> nat \<Rightarrow> 'row list \<Rightarrow> 'row list" where
  "ranked db rank score P n t = o_page db (limit_rows n) (rank score (o_select db P t))"

lemma ranked_take:
  assumes "repository M db"
  shows "ranked db rank score P n t = take n (rank score (o_select db P t))"
  using repository.page_take [OF assms] by (simp add: ranked_def limit_rows_def)

text \<open>
  The abstract promise: \<open>hits\<close> are the best of the rows that qualify, in order, each with its own
  score; fewer than the limit only when no other row qualifies.
\<close>

definition best_hits ::
  "('row \<Rightarrow> bool) \<Rightarrow> ('row \<Rightarrow> rat) \<Rightarrow> nat \<Rightarrow> 'row list \<Rightarrow> (rat \<times> 'row) list \<Rightarrow> bool" where
  "best_hits Q score n t hits \<longleftrightarrow>
     mset (map snd hits) \<subseteq># mset (filter Q t) \<and>
     (\<forall>h \<in> set hits. fst h = score (snd h)) \<and>
     sorted_wrt (\<lambda>a b. fst b \<le> fst a) hits \<and>
     length hits = min n (length (filter Q t)) \<and>
     (\<forall>x \<in># mset (filter Q t) - mset (map snd hits). \<forall>h \<in> set hits. score x \<le> fst h)"

lemma ranked_best:
  assumes db: "repository M db" and rk: "ranking rank" and ids: "ids_ok M t"
    and xs_def: "xs = ranked db rank score P n t"
  shows "best_hits (\<lambda>x. e_alive M x \<and> P x) score n t
    (map (\<lambda>x. (or_default (score_by_id (map (\<lambda>x. (e_id M x, score x)) xs) (e_id M x)) 0, x)) xs)"
proof -
  let ?Q = "\<lambda>x. e_alive M x \<and> P x"
  let ?R = "rank score (o_select db P t)"
  have xs: "xs = take n ?R" unfolding xs_def by (rule ranked_take [OF db])
  have R: "mset ?R = mset (filter ?Q t)"
    using ranking.rank_rows [OF rk, of score] repository.select_rows [OF db] by simp
  then have len: "length ?R = length (filter ?Q t)" by (metis size_mset)
  have sub: "mset xs \<subseteq># mset (filter ?Q t)"
    unfolding xs R [symmetric] using append_take_drop_id [of n ?R]
    by (metis mset_append mset_subset_eq_add_left)
  have rest: "mset (filter ?Q t) - mset xs = mset (drop n ?R)"
    unfolding xs R [symmetric] using append_take_drop_id [of n ?R] by (metis add_diff_cancel_left' mset_append)
  have "distinct (map (e_id M) ?R)"
    using ids R by (metis (no_types, lifting) distinct_map_filter ids_ok_def mset_eq_imp_distinct_iff mset_map)
  then have dist: "distinct (map (e_id M) xs)"
    unfolding xs by (metis distinct_take take_map)
  have hits: "map (\<lambda>x. (or_default (score_by_id (map (\<lambda>x. (e_id M x, score x)) xs) (e_id M x)) 0, x)) xs =
      map (\<lambda>x. (score x, x)) xs"
    using score_by_id_own [OF dist] by (simp add: or_default_def)
  have same: "map snd (map (\<lambda>x. (score x, x)) xs) = xs" by (simp add: comp_def)
  show ?thesis
    unfolding hits best_hits_def
  proof (intro conjI)
    show "sorted_wrt (\<lambda>a b. fst b \<le> fst a) (map (\<lambda>x. (score x, x)) xs)"
      using sorted_wrt_take [OF ranking.rank_sorted [OF rk, of score]] by (simp add: xs sorted_wrt_map)
    show "\<forall>x \<in># mset (filter ?Q t) - mset (map snd (map (\<lambda>x. (score x, x)) xs)).
        \<forall>h \<in> set (map (\<lambda>x. (score x, x)) xs). score x \<le> fst h"
      unfolding same rest using ranking.take_best [OF rk] by (auto simp: xs)
  qed (use sub len in \<open>auto simp: comp_def xs\<close>)
qed

lemma searched_products [simp]: "e_id product_decl = p_id" "e_alive product_decl x \<longleftrightarrow> p_deletedAt x = None"
  by (simp_all add: product_decl_def)

lemma searched_variants [simp]: "e_id variant_entity = v_id" "e_alive variant_entity x \<longleftrightarrow> v_deletedAt x = None"
  by (simp_all add: variant_entity_def)

definition product_qualifies :: "env \<Rightarrow> uuid \<Rightarrow> search_query \<Rightarrow> product \<Rightarrow> bool" where
  "product_qualifies E T dto p \<longleftrightarrow> p_deletedAt p = None \<and> p_tenantId p = T \<and>
     1 / 10 < similarity E (p_name p) (fq_q dto) \<and>
     (fq_categoryId dto \<in> {None, Some []} \<or> fq_categoryId dto = Some (p_categoryId p))"

definition variant_qualifies :: "env \<Rightarrow> uuid \<Rightarrow> search_query \<Rightarrow> variant \<Rightarrow> bool" where
  "variant_qualifies E T dto v \<longleftrightarrow> v_deletedAt v = None \<and> v_tenantId v = T \<and>
     1 / 10 < similarity E (v_sku v) (fq_q dto)"

lemma searchProducts_best:
  assumes db: "repository product_decl (productOrm E)" and rk: "ranking (rank_products E)"
    and ids: "ids_ok product_decl (w_products w)"
  shows "\<exists>hits. searchProducts E T dto n w = (Inr hits, w) \<and>
    best_hits (product_qualifies E T dto) (\<lambda>p. similarity E (p_name p) (fq_q dto)) n (w_products w)
      (map (\<lambda>h. (ph_score h, ph_product h)) hits)"
proof -
  let ?score = "\<lambda>p. similarity E (p_name p) (fq_q dto)"
  let ?P = "\<lambda>p. p_tenantId p = T \<and> p_deletedAt p = None \<and> ?score p > SIMILARITY_THRESHOLD \<and>
    (case truthy (fq_categoryId dto) of None \<Rightarrow> True | Some c \<Rightarrow> p_categoryId p = c)"
  have Q: "(\<lambda>p. e_alive product_decl p \<and> ?P p) = product_qualifies E T dto"
    by (auto simp: fun_eq_iff product_qualifies_def SIMILARITY_THRESHOLD_def truthy_def split: option.splits)
  show ?thesis
    using ranked_best [OF db rk ids refl, where score = ?score and P = ?P and n = n] unfolding Q
    by (simp add: searchProducts_def gets_def ranked_def Let_def comp_def)
qed

lemma searchVariants_best:
  assumes db: "repository variant_entity (variantOrm E)" and rk: "ranking (rank_variants E)"
    and ids: "ids_ok variant_entity (w_variants w)"
  shows "\<exists>hits. searchVariants E T dto n w = (Inr hits, w) \<and>
    best_hits (variant_qualifies E T dto) (\<lambda>v. similarity E (v_sku v) (fq_q dto)) n (w_variants w)
      (map (\<lambda>h. (vh_score h, vh_variant h)) hits)"
proof -
  let ?score = "\<lambda>v. similarity E (v_sku v) (fq_q dto)"
  let ?P = "\<lambda>v. v_tenantId v = T \<and> v_deletedAt v = None \<and> ?score v > SIMILARITY_THRESHOLD"
  have Q: "(\<lambda>v. e_alive variant_entity v \<and> ?P v) = variant_qualifies E T dto"
    by (auto simp: fun_eq_iff variant_qualifies_def SIMILARITY_THRESHOLD_def)
  show ?thesis
    using ranked_best [OF db rk ids refl, where score = ?score and P = ?P and n = n] unfolding Q
    by (simp add: searchVariants_def gets_def ranked_def Let_def comp_def)
qed

text \<open>
  C36: A search never fails and changes nothing. The product hits are the best live products of
  the tenant whose similarity exceeds 0.1 (within the category asked for), in descending order,
  each with its own score, up to the limit (10 if none is given); likewise the variant hits. A
  kind that was not asked for is absent, and so are both when the type is missing.
\<close>

theorem search_best:
  assumes dbs: "repository product_decl (productOrm E)" "repository variant_entity (variantOrm E)"
    and rks: "ranking (rank_products E)" "ranking (rank_variants E)"
    and ids: "ids_ok product_decl (w_products w)" "ids_ok variant_entity (w_variants w)"
  shows "\<exists>result. search E T dto w = (Inr result, w) \<and>
    (sr_products result \<noteq> None \<longleftrightarrow> fq_type dto \<in> {Some SEARCH_ALL, Some SEARCH_PRODUCT}) \<and>
    (sr_variants result \<noteq> None \<longleftrightarrow> fq_type dto \<in> {Some SEARCH_ALL, Some SEARCH_VARIANT}) \<and>
    (\<forall>hits \<in> set_option (sr_products result).
       best_hits (product_qualifies E T dto) (\<lambda>p. similarity E (p_name p) (fq_q dto))
         (or_default (fq_limit dto) 10) (w_products w) (map (\<lambda>h. (ph_score h, ph_product h)) hits)) \<and>
    (\<forall>hits \<in> set_option (sr_variants result).
       best_hits (variant_qualifies E T dto) (\<lambda>v. similarity E (v_sku v) (fq_q dto))
         (or_default (fq_limit dto) 10) (w_variants w) (map (\<lambda>h. (vh_score h, vh_variant h)) hits))"
proof -
  obtain ps where ps: "searchProducts E T dto (or_default (fq_limit dto) 10) w = (Inr ps, w)"
    "best_hits (product_qualifies E T dto) (\<lambda>p. similarity E (p_name p) (fq_q dto))
      (or_default (fq_limit dto) 10) (w_products w) (map (\<lambda>h. (ph_score h, ph_product h)) ps)"
    using searchProducts_best [OF dbs(1) rks(1) ids(1)] by blast
  obtain vs where vs: "searchVariants E T dto (or_default (fq_limit dto) 10) w = (Inr vs, w)"
    "best_hits (variant_qualifies E T dto) (\<lambda>v. similarity E (v_sku v) (fq_q dto))
      (or_default (fq_limit dto) 10) (w_variants w) (map (\<lambda>h. (vh_score h, vh_variant h)) vs)"
    using searchVariants_best [OF dbs(2) rks(2) ids(2)] by blast
  show ?thesis
  proof (cases "fq_type dto")
    case None
    then show ?thesis by (simp add: search_def andThen_def ret_def Let_def)
  next
    case (Some k)
    with ps vs show ?thesis by (cases k) (simp_all add: search_def andThen_def ret_def Let_def)
  qed
qed

definition shelf_product :: "uuid \<Rightarrow> uuid \<Rightarrow> jstring \<Rightarrow> product" where
  "shelf_product i T name = \<lparr>p_id = i, p_tenantId = T, p_categoryId = js ''c'', p_name = name, p_description = None,
     p_skuPrefix = i, p_isActive = True, p_createdAt = 0, p_updatedAt = 0, p_deletedAt = None\<rparr>"

definition shelf :: world where
  "shelf = empty_world\<lparr>w_products := [shelf_product (js ''p1'') (js ''A'') (js ''shirt''),
     shelf_product (js ''p2'') (js ''A'') (js ''shoe''), shelf_product (js ''p3'') (js ''B'') (js ''shirt'')]\<rparr>"

definition shirt_query :: search_query where
  "shirt_query = \<lparr>fq_q = js ''shirt'', fq_limit = Some 5, fq_type = Some SEARCH_PRODUCT, fq_categoryId = None\<rparr>"

lemma search_best_witness:
  "(case fst (search mem_env (js ''A'') shirt_query shelf) of Inl e \<Rightarrow> None
     | Inr result \<Rightarrow> map_option (map (\<lambda>h. (ph_score h, p_id (ph_product h)))) (sr_products result)) =
     Some [(1, js ''p1'')] \<and>
   snd (search mem_env (js ''A'') shirt_query shelf) = shelf"
proof
  show "(case fst (search mem_env (js ''A'') shirt_query shelf) of Inl e \<Rightarrow> None
     | Inr result \<Rightarrow> map_option (map (\<lambda>h. (ph_score h, p_id (ph_product h)))) (sr_products result)) =
     Some [(1, js ''p1'')]" by code_simp
  have "ids_ok product_decl (w_products shelf)" "ids_ok variant_entity (w_variants shelf)"
    by (simp_all add: ids_ok_def shelf_def shelf_product_def empty_world_def no_id_def js_def)
  from search_best [OF _ _ product_rank.ranking_axioms variant_rank.ranking_axioms this, of "js ''A''" shirt_query]
  show "snd (search mem_env (js ''A'') shirt_query shelf) = shelf" by auto
qed

end
