(* ===== verification/Validation.thy ===== *)
theory Validation
  imports Auth
begin

text \<open>
  What a request body or query must look like: the data transfer objects (\<open>src/**/dto\<close>) as
  lists of field rules, one per decorated property, and the \<open>ValidationPipe\<close> that
  \<open>src/main.ts\<close> configures with \<open>whitelist\<close> and \<open>forbidNonWhitelisted\<close>. The predicates behind
  the decorators are a parameter; the locale \<open>class_validator\<close> states their documented behaviour.
\<close>

section \<open>Field rules\<close>

text \<open>
  \<open>@Type(() => Number)\<close>, \<open>@Type(() => Boolean)\<close>, and the two \<open>@Transform\<close> functions of
  \<open>CreateProductDto.isActive\<close> and \<open>CreateVariantDto.attributes\<close>.
\<close>

datatype conversion = AsIs | ToNumber | ToBoolean | TrueFalseText | EmptyIfUndefined

record field_rule =
  fr_name :: jstring
  fr_optional :: bool
  fr_type :: conversion
  fr_default :: jval
  fr_constraints :: "(constraint \<times> jstring option) list"

type_synonym fields = "(jstring \<times> jval) list"

definition rule :: "string \<Rightarrow> constraint list \<Rightarrow> field_rule" where
  "rule name cs = \<lparr>fr_name = js name, fr_optional = False, fr_type = AsIs, fr_default = JUndefined,
     fr_constraints = map (\<lambda>c. (c, None)) cs\<rparr>"

definition optional :: "field_rule \<Rightarrow> field_rule" where
  "optional r = r\<lparr>fr_optional := True\<rparr>"

definition typed :: "conversion \<Rightarrow> field_rule \<Rightarrow> field_rule" where
  "typed c r = r\<lparr>fr_type := c\<rparr>"

definition initially :: "jval \<Rightarrow> field_rule \<Rightarrow> field_rule" where
  "initially v r = r\<lparr>fr_default := v\<rparr>"

text \<open>Decorators with a message of their own.\<close>

definition said :: "(constraint \<times> string) list \<Rightarrow> field_rule \<Rightarrow> field_rule" where
  "said ms r = r\<lparr>fr_constraints := fr_constraints r @ map (\<lambda>(c, m). (c, Some (js m))) ms\<rparr>"

text \<open>\<open>PartialType\<close> makes every property optional and keeps the initial values; \<open>OmitType\<close> drops some.\<close>

definition PartialType :: "field_rule list \<Rightarrow> field_rule list" where
  "PartialType = map optional"

definition OmitType :: "field_rule list \<Rightarrow> jstring list \<Rightarrow> field_rule list" where
  "OmitType rules names = filter (\<lambda>r. fr_name r \<notin> set names) rules"

section \<open>The validation pipe\<close>

fun to_number :: "env \<Rightarrow> jval \<Rightarrow> jval" where
  "to_number E JUndefined = JUndefined"
| "to_number E JNull = JNull"
| "to_number E JNaN = JNaN"
| "to_number E (JBool b) = JNum (if b then 1 else 0)"
| "to_number E (JNum x) = JNum x"
| "to_number E (JArr vs) = JArr (map (to_number E) vs)"
| "to_number E (JStr s) = (case parse_number E s of None \<Rightarrow> JNaN | Some x \<Rightarrow> JNum x)"
| "to_number E (JObj fs) = JNaN"

fun to_boolean :: "jval \<Rightarrow> jval" where
  "to_boolean JUndefined = JUndefined"
| "to_boolean JNull = JNull"
| "to_boolean JNaN = JBool False"
| "to_boolean (JBool b) = JBool b"
| "to_boolean (JNum x) = JBool (x \<noteq> 0)"
| "to_boolean (JArr vs) = JArr (map to_boolean vs)"
| "to_boolean (JStr s) = JBool (s \<noteq> [])"
| "to_boolean (JObj fs) = JBool True"

primrec convert :: "env \<Rightarrow> conversion \<Rightarrow> jval \<Rightarrow> jval" where
  "convert E AsIs = (\<lambda>v. v)"
| "convert E ToNumber = to_number E"
| "convert E ToBoolean = to_boolean"
| "convert E TrueFalseText = (\<lambda>value. if value = JStr (js ''true'') then JBool True
     else if value = JStr (js ''false'') then JBool False else value)"
| "convert E EmptyIfUndefined = (\<lambda>value. if value = JUndefined then JObj [] else value)"

definition field_value :: "fields \<Rightarrow> jstring \<Rightarrow> jval" where
  "field_value fs name = (case map_of fs name of None \<Rightarrow> JUndefined | Some v \<Rightarrow> v)"

text \<open>
  \<open>plainToClass\<close>: a new object has the initial values; the properties of the plain object are
  converted and assigned.
\<close>

definition instantiate :: "env \<Rightarrow> field_rule list \<Rightarrow> fields \<Rightarrow> fields" where
  "instantiate E rules plain = map (\<lambda>r. (fr_name r,
     case map_of plain (fr_name r) of None \<Rightarrow> fr_default r | Some v \<Rightarrow> convert E (fr_type r) v)) rules"

definition field_violations :: "env \<Rightarrow> field_rule \<Rightarrow> jval \<Rightarrow> jstring list" where
  "field_violations E r v =
     (if fr_optional r \<and> (v = JUndefined \<or> v = JNull) then []
      else concat (map (\<lambda>(c, message). if check E c v then []
        else [or_default message (check_message E (fr_name r) c)]) (fr_constraints r)))"

definition violations :: "env \<Rightarrow> field_rule list \<Rightarrow> fields \<Rightarrow> jstring list" where
  "violations E rules entity = concat (map (\<lambda>r. field_violations E r (field_value entity (fr_name r))) rules)"

definition unexpected :: "field_rule list \<Rightarrow> fields \<Rightarrow> jstring list" where
  "unexpected rules plain = map (\<lambda>(k, _). js ''property '' @ k @ js '' should not exist'')
     (filter (\<lambda>(k, _). k \<notin> set (map fr_name rules)) plain)"

abbreviation validation_failed :: "jstring list \<Rightarrow> exn" where
  "validation_failed messages \<equiv> HttpException 400 (BodyObject (MsgList messages) (Some (js ''Bad Request'')))"

definition validation_pipe :: "env \<Rightarrow> field_rule list \<Rightarrow> fields \<Rightarrow> exn + fields" where
  "validation_pipe E rules plain =
     (let entity = instantiate E rules plain;
          messages = unexpected rules plain @ violations E rules entity
      in if messages = [] then Inr entity else Inl (validation_failed messages))"

section \<open>The data transfer objects\<close>

definition page_rule :: field_rule where
  "page_rule = initially (JNum 1) (typed ToNumber (optional (rule ''page'' [IsInt, MinValue 1])))"

definition limit_rule :: "rat \<Rightarrow> rat \<Rightarrow> field_rule" where
  "limit_rule n m = initially (JNum n) (typed ToNumber (optional (rule ''limit'' [IsInt, MinValue 1, MaxValue m])))"

definition sort_rules :: "string list \<Rightarrow> field_rule list" where
  "sort_rules columns = [
     initially (JStr (js ''created_at'')) (optional (rule ''sortBy'' [IsIn (map js columns)])),
     initially (JStr (js ''DESC'')) (optional (rule ''sortOrder'' [IsIn [js ''ASC'', js ''DESC'']]))]"

subsection \<open>Catalog\<close>

definition CreateCategoryDto :: "field_rule list" where
  "CreateCategoryDto = [rule ''name'' [IsNotEmpty, IsString, MinLength 1, MaxLength 120],
     optional (rule ''slug'' [IsString, MaxLength 150]),
     optional (rule ''parentId'' [IsUUID])]"

definition UpdateCategoryDto :: "field_rule list" where
  "UpdateCategoryDto = PartialType CreateCategoryDto"

definition CategoryQueryDto :: "field_rule list" where
  "CategoryQueryDto = [page_rule, limit_rule 20 100, optional (rule ''search'' [IsString]),
     optional (rule ''parentId'' [IsString]), optional (rule ''includeChildren'' [IsBooleanString])] @
     sort_rules [''name'', ''created_at'', ''updated_at'']"

definition CreateProductDto :: "field_rule list" where
  "CreateProductDto = [rule ''name'' [IsNotEmpty, IsString, MinLength 1, MaxLength 255],
     optional (rule ''description'' [IsString, MaxLength 5000]),
     rule ''categoryId'' [IsNotEmpty, IsUUID],
     rule ''skuPrefix'' [IsNotEmpty, IsString, Matches ThreeUpperDigits],
     initially (JBool True) (typed TrueFalseText (optional (rule ''isActive'' [IsBoolean])))]"

definition UpdateProductDto :: "field_rule list" where
  "UpdateProductDto = PartialType (OmitType CreateProductDto [js ''description'']) @
     [optional (rule ''description'' [IsString, MaxLength 5000])]"

definition ProductQueryDto :: "field_rule list" where
  "ProductQueryDto = [page_rule, limit_rule 20 100, optional (rule ''search'' [IsString]),
     optional (rule ''categoryId'' [IsUUID]), optional (rule ''isActive'' [IsBooleanString])] @
     sort_rules [''name'', ''created_at'', ''updated_at'']"

definition CreateVariantDto :: "field_rule list" where
  "CreateVariantDto = [rule ''sku'' [IsNotEmpty, IsString, MinLength 3, MaxLength 100],
     typed ToNumber (rule ''price'' [IsNotEmpty, IsNumber 2, IsPositive]),
     initially (JObj []) (typed EmptyIfUndefined (optional (rule ''attributes'' [IsObject, IsNotEmpty])))]"

definition UpdateVariantDto :: "field_rule list" where
  "UpdateVariantDto = PartialType CreateVariantDto"

definition VariantQueryDto :: "field_rule list" where
  "VariantQueryDto = [page_rule, limit_rule 20 100, optional (rule ''search'' [IsString]),
     typed ToNumber (optional (rule ''minPrice'' [IsNumber 2, MinValue 0])),
     typed ToNumber (optional (rule ''maxPrice'' [IsNumber 2, MinValue 0]))] @
     sort_rules [''sku'', ''price'', ''created_at'', ''updated_at'']"

definition SearchQueryDto :: "field_rule list" where
  "SearchQueryDto = [rule ''q'' [IsString, MinLength 1, MaxLength 100], limit_rule 10 50,
     initially (JStr (js ''all'')) (optional (rule ''type'' [IsEnum [js ''product'', js ''variant'', js ''all'']])),
     optional (rule ''categoryId'' [IsUUID])]"

subsection \<open>Stock\<close>

definition stock_rules :: "field_rule list" where
  "stock_rules = [rule ''warehouseId'' [IsUUID], rule ''variantId'' [IsUUID],
     typed ToNumber (rule ''quantity'' [IsInt, MinValue 1])]"

definition DeductStockDto :: "field_rule list" where
  "DeductStockDto = stock_rules @ [optional (rule ''referenceId'' [IsUUID]),
     optional (rule ''reason'' [IsString, MinLength 1, MaxLength 255])]"

definition ReserveStockDto :: "field_rule list" where
  "ReserveStockDto = stock_rules @ [optional (rule ''referenceId'' [IsUUID]),
     optional (rule ''reason'' [IsString, MinLength 1, MaxLength 255])]"

definition ReleaseStockDto :: "field_rule list" where
  "ReleaseStockDto = stock_rules @ [optional (rule ''referenceId'' [IsUUID]),
     optional (rule ''reason'' [IsString, MinLength 1, MaxLength 255])]"

definition ReplenishStockDto :: "field_rule list" where
  "ReplenishStockDto = stock_rules"

definition StockQueryDto :: "field_rule list" where
  "StockQueryDto = [page_rule, limit_rule 20 100, optional (rule ''warehouseId'' [IsUUID]),
     optional (rule ''variantId'' [IsUUID]),
     initially (JStr (js ''created_at'')) (optional (rule ''sortBy'' [IsString])),
     initially (JStr (js ''DESC'')) (optional (rule ''sortOrder'' [IsString]))]"

definition CreateWarehouseDto :: "field_rule list" where
  "CreateWarehouseDto = [rule ''name'' [IsNotEmpty, IsString, MinLength 1, MaxLength 255],
     optional (rule ''location'' [IsString, MaxLength 500])]"

definition UpdateWarehouseDto :: "field_rule list" where
  "UpdateWarehouseDto = PartialType CreateWarehouseDto"

definition WarehouseQueryDto :: "field_rule list" where
  "WarehouseQueryDto = [page_rule, limit_rule 20 100, optional (rule ''search'' [IsString])] @
     sort_rules [''name'', ''created_at'', ''updated_at'']"

definition CreateSupplierDto :: "field_rule list" where
  "CreateSupplierDto = [rule ''companyName'' [IsNotEmpty, IsString, MinLength 1, MaxLength 255],
     optional (rule ''contactEmail'' [IsEmail, MaxLength 255]),
     optional (rule ''contactPhone'' [IsString, MaxLength 50]),
     optional (rule ''address'' [IsString, MaxLength 500]),
     optional (rule ''leadTimeDays'' [IsInt, MinValue 0])]"

definition UpdateSupplierDto :: "field_rule list" where
  "UpdateSupplierDto = PartialType CreateSupplierDto"

definition SupplierQueryDto :: "field_rule list" where
  "SupplierQueryDto = [page_rule, limit_rule 20 100, optional (rule ''search'' [IsString])] @
     sort_rules [''company_name'', ''lead_time_days'', ''created_at'', ''updated_at'']"

subsection \<open>Tenants, users, administration\<close>

definition tenant_statuses :: "jstring list" where
  "tenant_statuses = map status_text [PENDING, ACTIVE, SUSPENDED, ARCHIVED]"

definition user_roles :: "jstring list" where
  "user_roles = map role_text all_roles"

definition CreateTenantDto :: "field_rule list" where
  "CreateTenantDto = [rule ''domainName'' [IsNotEmpty, IsString, MaxLength 255],
     rule ''businessName'' [IsNotEmpty, IsString, MaxLength 255],
     initially (JStr (status_text ACTIVE)) (rule ''status'' [IsEnum tenant_statuses])]"

definition UpdateTenantDto :: "field_rule list" where
  "UpdateTenantDto = [optional (rule ''domainName'' [IsString, MaxLength 255]),
     optional (rule ''businessName'' [IsString, MaxLength 255]),
     optional (rule ''status'' [IsEnum tenant_statuses])]"

definition LoginDto :: "field_rule list" where
  "LoginDto = [said [(IsEmail, ''Please provide a valid email address''), (IsNotEmpty, ''Email is required'')] (rule ''email'' []),
     said [(IsString, ''Password must be a string''), (IsNotEmpty, ''Password is required'')] (rule ''password'' [])]"

definition RefreshTokenDto :: "field_rule list" where
  "RefreshTokenDto = [said [(IsString, ''Refresh token must be a string''), (IsNotEmpty, ''Refresh token is required''),
     (IsJWT, ''Invalid refresh token format'')] (rule ''refreshToken'' [])]"

definition RegisterDto :: "field_rule list" where
  "RegisterDto = [
     said [(IsEmail, ''Please provide a valid email address''), (MaxLength 255, ''Email must not exceed 255 characters'')]
       (rule ''email'' []),
     said [(IsString, ''Password must be a string''), (MinLength 8, ''Password must be at least 8 characters long''),
       (MaxLength 100, ''Password must not exceed 100 characters'')] (rule ''password'' []),
     said [(IsString, ''First name must be a string''), (IsNotEmpty, ''First name is required''),
       (MaxLength 100, ''First name must not exceed 100 characters'')] (rule ''firstName'' []),
     said [(IsString, ''Last name must be a string''), (IsNotEmpty, ''Last name is required''),
       (MaxLength 100, ''Last name must not exceed 100 characters'')] (rule ''lastName'' []),
     optional (said [(IsEnum user_roles, ''Invalid user role'')] (rule ''role'' []))]"

text \<open>\<open>CreateTenantDto\<close> of \<open>src/admin\<close>.\<close>

definition ProvisionTenantDto :: "field_rule list" where
  "ProvisionTenantDto = [
     said [(Matches LowerDigitsHyphens, ''domainName must contain only lowercase letters, numbers, and hyphens'')]
       (rule ''domainName'' [IsString, IsNotEmpty, MaxLength 255]),
     rule ''businessName'' [IsString, IsNotEmpty, MaxLength 255],
     rule ''adminEmail'' [IsEmail, IsNotEmpty, MaxLength 255],
     rule ''adminFirstName'' [IsString, IsNotEmpty, MinLength 2, MaxLength 255],
     rule ''adminLastName'' [IsString, IsNotEmpty, MinLength 2, MaxLength 255],
     rule ''adminPassword'' [IsString, IsNotEmpty, MinLength 8, MaxLength 50]]"

definition InviteUserDto :: "field_rule list" where
  "InviteUserDto = [rule ''email'' [IsEmail, IsNotEmpty, MaxLength 255],
     rule ''firstName'' [IsString, IsNotEmpty, MaxLength 255],
     rule ''lastName'' [IsString, IsNotEmpty, MaxLength 255],
     rule ''role'' [IsEnum user_roles, IsNotEmpty],
     rule ''password'' [IsString, IsNotEmpty, MinLength 8, MaxLength 50]]"

definition UpdateUserRoleDto :: "field_rule list" where
  "UpdateUserRoleDto = [rule ''role'' [IsEnum user_roles, IsNotEmpty]]"

definition UpdateTenantStatusDto :: "field_rule list" where
  "UpdateTenantStatusDto = [rule ''status'' [IsEnum tenant_statuses, IsNotEmpty]]"

definition UpdateSettingsDto :: "field_rule list" where
  "UpdateSettingsDto = [optional (rule ''config'' [IsObject])]"

subsection \<open>Audit log and notifications\<close>

fun action_text :: "audit_action \<Rightarrow> jstring" where
  "action_text CREATE = js ''CREATE''"
| "action_text UPDATE = js ''UPDATE''"
| "action_text DELETE = js ''DELETE''"
| "action_text LOGIN = js ''LOGIN''"
| "action_text LOGOUT = js ''LOGOUT''"
| "action_text UPDATE_INVENTORY = js ''UPDATE_INVENTORY''"
| "action_text DELETE_PRODUCT = js ''DELETE_PRODUCT''"
| "action_text UPDATE_ORDER = js ''UPDATE_ORDER''"
| "action_text VIEW_REPORT = js ''VIEW_REPORT''"

fun entity_text :: "audited_entity \<Rightarrow> jstring" where
  "entity_text ET_PRODUCT = js ''product''"
| "entity_text ET_PRODUCT_VARIANT = js ''product_variant''"
| "entity_text ET_CATEGORY = js ''category''"
| "entity_text ET_STOCK_LEVEL = js ''stock_level''"
| "entity_text ET_WAREHOUSE = js ''warehouse''"
| "entity_text ET_SUPPLIER = js ''supplier''"
| "entity_text ET_TENANT = js ''tenant''"
| "entity_text ET_TENANT_SETTING = js ''tenant_setting''"
| "entity_text ET_USER = js ''user''"

fun notification_text :: "notification_type \<Rightarrow> jstring" where
  "notification_text LOW_STOCK = js ''low_stock''"

definition AuditQueryDto :: "field_rule list" where
  "AuditQueryDto = [page_rule, limit_rule 20 100, optional (rule ''actorId'' [IsUUID]),
     optional (rule ''action'' [IsEnum (map action_text [CREATE, UPDATE, DELETE, LOGIN, LOGOUT, UPDATE_INVENTORY,
       DELETE_PRODUCT, UPDATE_ORDER, VIEW_REPORT])]),
     optional (rule ''entityType'' [IsIn (map entity_text [ET_PRODUCT, ET_PRODUCT_VARIANT, ET_CATEGORY, ET_STOCK_LEVEL,
       ET_WAREHOUSE, ET_SUPPLIER, ET_TENANT, ET_TENANT_SETTING, ET_USER])]),
     optional (rule ''startDate'' [IsISO8601]), optional (rule ''endDate'' [IsISO8601])]"

definition NotificationQueryDto :: "field_rule list" where
  "NotificationQueryDto = [page_rule, limit_rule 20 100,
     typed ToBoolean (optional (rule ''unreadOnly'' [IsBoolean])),
     optional (rule ''type'' [IsIn [notification_text LOW_STOCK]]),
     optional (rule ''startDate'' [IsISO8601]), optional (rule ''endDate'' [IsISO8601])]"

lemmas field_rule_defs = rule_def optional_def typed_def initially_def said_def page_rule_def limit_rule_def
  sort_rules_def PartialType_def OmitType_def

lemmas dto_defs = CreateCategoryDto_def UpdateCategoryDto_def CategoryQueryDto_def CreateProductDto_def
  UpdateProductDto_def ProductQueryDto_def CreateVariantDto_def UpdateVariantDto_def VariantQueryDto_def
  SearchQueryDto_def stock_rules_def DeductStockDto_def ReserveStockDto_def ReleaseStockDto_def ReplenishStockDto_def
  StockQueryDto_def CreateWarehouseDto_def UpdateWarehouseDto_def WarehouseQueryDto_def CreateSupplierDto_def
  UpdateSupplierDto_def SupplierQueryDto_def CreateTenantDto_def UpdateTenantDto_def LoginDto_def RefreshTokenDto_def
  RegisterDto_def ProvisionTenantDto_def InviteUserDto_def UpdateUserRoleDto_def UpdateTenantStatusDto_def
  UpdateSettingsDto_def AuditQueryDto_def NotificationQueryDto_def

section \<open>The predicates\<close>

text \<open>
  What the decorators are documented to accept. Lengths are only bounded from below: the library
  counts a surrogate pair as one character.
\<close>

locale class_validator =
  fixes E :: env
  assumes not_empty: "check E IsNotEmpty v \<longleftrightarrow> v \<noteq> JUndefined \<and> v \<noteq> JNull \<and> v \<noteq> JStr []"
    and string: "check E IsString v \<longleftrightarrow> (\<exists>s. v = JStr s)"
    and int: "check E IsInt v \<longleftrightarrow> (\<exists>n. v = JNum (of_int n))"
    and number: "check E (IsNumber k) v \<Longrightarrow> \<exists>x. v = JNum x"
    and positive: "check E IsPositive v \<longleftrightarrow> (\<exists>x. v = JNum x \<and> 0 < x)"
    and boolean: "check E IsBoolean v \<longleftrightarrow> (\<exists>b. v = JBool b)"
    and boolean_string: "check E IsBooleanString v \<longleftrightarrow>
      v \<in> {JStr (js ''true''), JStr (js ''false''), JStr (js ''1''), JStr (js ''0'')}"
    and uuid: "check E IsUUID v \<longleftrightarrow> (\<exists>s. v = JStr s \<and> is_uuid E s)"
    and uuid_plain: "is_uuid E i \<Longrightarrow> plain_tenant i"
    and email: "check E IsEmail v \<Longrightarrow> \<exists>s. v = JStr s"
    and jwt: "check E IsJWT v \<Longrightarrow> \<exists>s. v = JStr s"
    and iso8601: "check E IsISO8601 v \<Longrightarrow> \<exists>s. v = JStr s"
    and object: "check E IsObject v \<longleftrightarrow> (\<exists>fs. v = JObj fs)"
    and is_in: "check E (IsIn vs) v \<longleftrightarrow> (\<exists>s \<in> set vs. v = JStr s)"
    and enum: "check E (IsEnum vs) v \<longleftrightarrow> (\<exists>s \<in> set vs. v = JStr s)"
    and min_value: "check E (MinValue m) v \<longleftrightarrow> (\<exists>x. v = JNum x \<and> m \<le> x)"
    and max_value: "check E (MaxValue m) v \<longleftrightarrow> (\<exists>x. v = JNum x \<and> x \<le> m)"
    and min_length: "check E (MinLength n) v \<Longrightarrow> \<exists>s. v = JStr s \<and> n \<le> length s"
    and max_length: "check E (MaxLength n) v \<Longrightarrow> \<exists>s. v = JStr s"
    and regex: "check E (Matches p) v \<longleftrightarrow> (\<exists>s. v = JStr s \<and> pattern_test p s)"
begin

lemmas scalar = string int number positive boolean uuid email jwt iso8601 object is_in enum min_value max_value

text \<open>A page number or size that passes is an integer in range.\<close>

lemma int_range:
  assumes "check E IsInt v" and "check E (MinValue 1) v"
  shows "\<exists>n \<ge> 1. v = JNum (of_nat n)"
proof -
  from assms obtain i where v: "v = JNum (of_int i)" and "(1 :: rat) \<le> of_int i"
    by (auto simp: int min_value)
  then have "1 \<le> i" by simp
  with v show ?thesis by (intro exI [of _ "nat i"]) simp
qed

end

lemma quotient_int: "snd (quotient_of x) = 1 \<longleftrightarrow> (\<exists>n. x = of_int n)"
proof
  assume one: "snd (quotient_of x) = 1"
  obtain a b where ab: "quotient_of x = (a, b)" by (rule prod.exhaust)
  with one quotient_of_div [OF ab] show "\<exists>n. x = of_int n" by auto
next
  assume "\<exists>n. x = of_int n"
  then show "snd (quotient_of x) = 1" by (auto simp: quotient_of_int)
qed

interpretation mem_validator: class_validator mem_env
  by unfold_locales (auto simp: mem_env_def plain_tenant_def on_string_iff on_number_iff quotient_int split: jval.splits)

section \<open>Accepted objects\<close>

lemma field_violations_Nil:
  "field_violations E r v = [] \<longleftrightarrow>
     fr_optional r \<and> v \<in> {JUndefined, JNull} \<or> (\<forall>(c, m) \<in> set (fr_constraints r). check E c v)"
  by (auto simp: field_violations_def)

lemma violations_Nil:
  "violations E rules entity = [] \<longleftrightarrow>
     (\<forall>r \<in> set rules. field_violations E r (field_value entity (fr_name r)) = [])"
  by (simp add: violations_def)

lemma violations_simps [simp]:
  "violations E [] entity = []"
  "violations E (r # rules) entity = field_violations E r (field_value entity (fr_name r)) @ violations E rules entity"
  "violations E (rules @ rules') entity = violations E rules entity @ violations E rules' entity"
  by (simp_all add: violations_def)

lemma field_value_simps [simp]:
  "field_value [] k = JUndefined"
  "field_value ((k', v) # fs) k = (if k' = k then v else field_value fs k)"
  by (simp_all add: field_value_def)

lemma map_of_rules:
  assumes "distinct (map fr_name rules)" and "r \<in> set rules"
  shows "map_of (map (\<lambda>r. (fr_name r, f r)) rules) (fr_name r) = Some (f r)"
  using assms by (intro map_of_is_SomeI) (auto simp: comp_def)

lemma instantiate_value:
  assumes "distinct (map fr_name rules)" and "r \<in> set rules"
  shows "field_value (instantiate E rules plain) (fr_name r) =
    (case map_of plain (fr_name r) of None \<Rightarrow> fr_default r | Some v \<Rightarrow> convert E (fr_type r) v)"
  unfolding field_value_def instantiate_def map_of_rules [OF assms] by simp

lemma validation_pipe_Inr:
  "validation_pipe E rules plain = Inr entity \<longleftrightarrow>
     entity = instantiate E rules plain \<and> fst ` set plain \<subseteq> fr_name ` set rules \<and> violations E rules entity = []"
  by (auto simp: validation_pipe_def unexpected_def Let_def filter_empty_conv)

text \<open>Every class of the program has one rule per property.\<close>

definition all_dtos :: "field_rule list list" where
  "all_dtos = [CreateCategoryDto, UpdateCategoryDto, CategoryQueryDto, CreateProductDto, UpdateProductDto,
     ProductQueryDto, CreateVariantDto, UpdateVariantDto, VariantQueryDto, SearchQueryDto, DeductStockDto,
     ReserveStockDto, ReleaseStockDto, ReplenishStockDto, StockQueryDto, CreateWarehouseDto, UpdateWarehouseDto,
     WarehouseQueryDto, CreateSupplierDto, UpdateSupplierDto, SupplierQueryDto, CreateTenantDto, UpdateTenantDto,
     LoginDto, RefreshTokenDto, RegisterDto, ProvisionTenantDto, InviteUserDto, UpdateUserRoleDto,
     UpdateTenantStatusDto, UpdateSettingsDto, AuditQueryDto, NotificationQueryDto]"

lemma dtos_distinct: "list_all (\<lambda>rules. distinct (map fr_name rules)) all_dtos"
  by code_simp



section \<open>Paging\<close>

definition listing_dtos :: "(field_rule list \<times> nat) list" where
  "listing_dtos = [(CategoryQueryDto, 100), (ProductQueryDto, 100), (VariantQueryDto, 100), (StockQueryDto, 100),
     (WarehouseQueryDto, 100), (SupplierQueryDto, 100), (AuditQueryDto, 100), (NotificationQueryDto, 100),
     (SearchQueryDto, 50)]"

definition asked_limit :: "fields \<Rightarrow> nat option" where
  "asked_limit entity = (case field_value entity (js ''limit'') of JNum x \<Rightarrow> Some (nat \<lfloor>x\<rfloor>) | _ \<Rightarrow> None)"

definition asked_page :: "fields \<Rightarrow> nat option" where
  "asked_page entity = (case field_value entity (js ''page'') of JNum x \<Rightarrow> Some (nat \<lfloor>x\<rfloor>) | _ \<Rightarrow> None)"

lemma listing_rules:
  "list_all (\<lambda>(rules, m). list_ex (\<lambda>n. limit_rule n (of_nat m) \<in> set rules) [10, 20] \<and>
     distinct (map fr_name rules) \<and> (m \<noteq> 50 \<longrightarrow> page_rule \<in> set rules)) listing_dtos"
  by code_simp

text \<open>
  C40: A listing request that passes validation asks for a whole number of rows between 1 and the
  cap (100, or 50 for the search), and for a page from 1 on; without a limit or a page it gets
  20 (the search 10) and 1, unless the query spells out \<open>null\<close>.
\<close>

theorem listing_bounds:
  assumes V: "class_validator E" and dto: "(rules, cap) \<in> set listing_dtos"
    and ok: "validation_pipe E rules plain = Inr entity"
  shows "(case asked_limit entity of
       None \<Rightarrow> field_value entity (js ''limit'') \<in> {JUndefined, JNull}
     | Some n \<Rightarrow> 1 \<le> n \<and> n \<le> cap \<and> field_value entity (js ''limit'') = JNum (of_nat n)) \<and>
    (map_of plain (js ''limit'') = None \<longrightarrow> asked_limit entity \<in> {Some 10, Some 20}) \<and>
    (cap = 100 \<longrightarrow> (case asked_page entity of
       None \<Rightarrow> field_value entity (js ''page'') \<in> {JUndefined, JNull}
     | Some n \<Rightarrow> 1 \<le> n \<and> field_value entity (js ''page'') = JNum (of_nat n)) \<and>
       (map_of plain (js ''page'') = None \<longrightarrow> asked_page entity = Some 1))"
proof -
  from listing_rules dto obtain n where L: "limit_rule n (of_nat cap) \<in> set rules" "n \<in> {10, 20}"
    and d: "distinct (map fr_name rules)" and P: "cap \<noteq> 50 \<Longrightarrow> page_rule \<in> set rules"
    by (force simp: list_all_iff)
  from ok have e: "entity = instantiate E rules plain"
    and v: "\<And>r. r \<in> set rules \<Longrightarrow> fr_optional r \<and> field_value entity (fr_name r) \<in> {JUndefined, JNull} \<or>
      (\<forall>(c, m) \<in> set (fr_constraints r). check E c (field_value entity (fr_name r)))"
    unfolding validation_pipe_Inr violations_Nil field_violations_Nil by blast+
  note vals = instantiate_value [OF d, of _ E plain, folded e]
  have limit: "field_value entity (js ''limit'') \<in> {JUndefined, JNull} \<or>
      (\<exists>k \<ge> 1. k \<le> cap \<and> field_value entity (js ''limit'') = JNum (of_nat k))"
    using v [OF L(1)] class_validator.int_range [OF V, of "field_value entity (js ''limit'')"]
    by (force simp: field_rule_defs class_validator.max_value [OF V])
  have page: "field_value entity (js ''page'') \<in> {JUndefined, JNull} \<or>
      (\<exists>k \<ge> 1. field_value entity (js ''page'') = JNum (of_nat k))" if "cap = 100"
    using v [OF P] that class_validator.int_range [OF V, of "field_value entity (js ''page'')"]
    by (auto simp: field_rule_defs)
  have no_limit: "field_value entity (js ''limit'') = JNum n" if "map_of plain (js ''limit'') = None"
    using vals [OF L(1)] that by (simp add: field_rule_defs)
  have no_page: "field_value entity (js ''page'') = JNum 1" if "cap = 100" "map_of plain (js ''page'') = None"
    using vals [OF P] that by (simp add: field_rule_defs)
  have "asked_limit entity \<in> {Some 10, Some 20}" if "map_of plain (js ''limit'') = None"
    using no_limit [OF that] L(2) by (auto simp: asked_limit_def)
  moreover have "asked_page entity = Some 1" if "cap = 100" "map_of plain (js ''page'') = None"
    using no_page [OF that] by (simp add: asked_page_def)
  ultimately show ?thesis
    using limit page by (auto simp: asked_limit_def asked_page_def)
qed

lemma listing_bounds_witness:
  "(\<exists>entity. validation_pipe mem_env ProductQueryDto [(js ''limit'', JStr (js ''100''))] = Inr entity \<and>
     asked_limit entity = Some 100 \<and> asked_page entity = Some 1) \<and>
   (\<exists>e. validation_pipe mem_env ProductQueryDto [(js ''limit'', JStr (js ''101''))] = Inl e)"
proof
  obtain entity where ok: "validation_pipe mem_env ProductQueryDto [(js ''limit'', JStr (js ''100''))] = Inr entity"
    and l: "asked_limit entity = Some 100"
  proof -
    have "(case validation_pipe mem_env ProductQueryDto [(js ''limit'', JStr (js ''100''))] of
        Inl e \<Rightarrow> False | Inr entity \<Rightarrow> asked_limit entity = Some 100)" by code_simp
    then show thesis using that by (auto split: sum.splits)
  qed
  have "(ProductQueryDto, 100) \<in> set listing_dtos" by (simp add: listing_dtos_def)
  from listing_bounds [OF mem_validator.class_validator_axioms this ok] ok l
  show "\<exists>entity. validation_pipe mem_env ProductQueryDto [(js ''limit'', JStr (js ''100''))] = Inr entity \<and>
     asked_limit entity = Some 100 \<and> asked_page entity = Some 1" by auto
  show "\<exists>e. validation_pipe mem_env ProductQueryDto [(js ''limit'', JStr (js ''101''))] = Inl e"
  proof (cases "validation_pipe mem_env ProductQueryDto [(js ''limit'', JStr (js ''101''))]")
    case (Inr entity)
    have "(case validation_pipe mem_env ProductQueryDto [(js ''limit'', JStr (js ''101''))] of
        Inl e \<Rightarrow> True | Inr entity \<Rightarrow> False)" by code_simp
    with Inr show ?thesis by simp
  qed blast
qed

end
