(* ===== verification/Routing.thy ===== *)
theory Routing
  imports Validation Product Inventory Supplier Notification Admin Media Search
begin

text \<open>
  The HTTP interface: what the decorators of a controller class and of its handlers declare, what
  a handler is given, and what it answers with. The theories \<open>CatalogApi\<close>, \<open>StockApi\<close> and
  \<open>AccountApi\<close> hold the controllers.
\<close>

section \<open>Routes\<close>

datatype http_method = HttpGet | HttpPost | HttpPatch | HttpDelete

datatype guard = JwtAuthGuard | RoleGuard

text \<open>
  \<open>@Controller\<close>, \<open>@Public\<close>, \<open>@UseGuards\<close> and \<open>@Roles\<close> of a class; the same of a handler, with
  its method, path and \<open>@HttpCode\<close>. \<open>None\<close> is an absent \<open>@Public\<close> or \<open>@Roles\<close>.
\<close>

record class_meta =
  cm_path :: string
  cm_public :: "bool option"
  cm_guards :: "guard list"
  cm_roles :: "user_role list option"

record handler_meta =
  hm_method :: http_method
  hm_path :: string
  hm_status :: nat
  hm_public :: "bool option"
  hm_guards :: "guard list"
  hm_roles :: "user_role list option"

record route =
  rt_method :: http_method
  rt_path :: jstring
  rt_status :: nat
  rt_public :: bool
  rt_guards :: "guard list"
  rt_roles :: "user_role list option"

definition controller :: "string \<Rightarrow> class_meta" where
  "controller path = \<lparr>cm_path = path, cm_public = None, cm_guards = [], cm_roles = None\<rparr>"

text \<open>A handler without decorators but its method: \<open>POST\<close> answers 201, the others 200.\<close>

definition on :: "http_method \<Rightarrow> string \<Rightarrow> handler_meta" where
  "on m path = \<lparr>hm_method = m, hm_path = path, hm_status = (if m = HttpPost then 201 else 200),
     hm_public = None, hm_guards = [], hm_roles = None\<rparr>"

definition segment :: "string \<Rightarrow> string" where
  "segment p = (if p = [] then [] else CHR ''/'' # p)"

text \<open>\<open>Reflector.getAllAndOverride\<close> with the handler first, then the class.\<close>

definition getAllAndOverride :: "'a option \<Rightarrow> 'a option \<Rightarrow> 'a option" where
  "getAllAndOverride handler klass = (case handler of Some x \<Rightarrow> Some x | None \<Rightarrow> klass)"

text \<open>The version prefix of every route; the global prefix \<open>api\<close> is left out.\<close>

definition route_of :: "class_meta \<Rightarrow> handler_meta \<Rightarrow> route" where
  "route_of klass handler = \<lparr>rt_method = hm_method handler,
     rt_path = js (''v1'' @ segment (cm_path klass) @ segment (hm_path handler)), rt_status = hm_status handler,
     rt_public = (getAllAndOverride (hm_public handler) (cm_public klass) = Some True),
     rt_guards = cm_guards klass @ hm_guards handler,
     rt_roles = getAllAndOverride (hm_roles handler) (cm_roles klass)\<rparr>"

section \<open>What a handler works with\<close>

text \<open>
  What middleware and guards left on the request, and the storage of the audit interceptor. A
  handler's tenant is \<open>req.tenantId\<close>; that it is set wherever a handler reads it is a theorem.
\<close>

record handler_context =
  hc_tenantId :: "uuid option"
  hc_user :: "authenticated_user option"
  hc_audit :: audit_context

text \<open>What a request meets outside the program: clocks, fresh identifiers, the database's commits.\<close>

record ambience =
  am_seconds :: nat
  am_millis :: nat
  am_uuid :: uuid
  am_stock :: surroundings
  am_commit :: "world \<Rightarrow> exn option"
  am_metrics :: "jstring \<times> jstring"

definition tenant_id :: "handler_context \<Rightarrow> uuid" where
  "tenant_id C = or_default (hc_tenantId C) no_id"

text \<open>\<open>@CurrentUser('id')\<close>\<close>

definition current_user_id :: "handler_context \<Rightarrow> uuid" where
  "current_user_id C = (case hc_user C of None \<Rightarrow> no_id | Some u \<Rightarrow> au_id u)"

abbreviation audit_store :: "handler_context \<Rightarrow> audit_context option" where
  "audit_store C \<equiv> Some (hc_audit C)"

text \<open>What a handler answers with.\<close>

datatype reply =
    Nothing
  | Text jstring
  | Message jstring "(string \<times> jval) list"
  | Count string nat
  | OneTenant tenant | Tenants "tenant list"
  | RegisteredUser user_response | OneUser user | AccessToken jstring | Tokens refreshed
  | Settings tenant_setting
  | OneCategory category_entity | CategoryPage "category_entity paginated" | Forest "category_node list"
  | OneProduct product_entity | ProductPage "product_entity paginated"
  | OneVariant variant | VariantPage "variant paginated"
  | OneWarehouse warehouse | WarehousePage "warehouse paginated"
  | OneSupplier supplier | SupplierPage "supplier paginated"
  | OneStockLevel stock_level | StockPage "stock_level paginated"
  | AuditPage "(audit \<times> actor_summary option) paginated"
  | NotificationPage "notification paginated"
  | Asset media_asset | Link jstring | PresignedLink jstring jstring
  | SearchHits search_result

definition answers :: "('a \<Rightarrow> reply) \<Rightarrow> (world, 'a) act \<Rightarrow> (world, reply) act" where
  "answers f m = andThen m (\<lambda>x. ret (f x))"

section \<open>Parameters\<close>

text \<open>
  \<open>ParseUUIDPipe\<close>, and the validation of a body or a query. A call carries the object the pipe
  made of what was sent (\<open>Validation.instantiate\<close>); its properties are checked here.
\<close>

definition with_uuid :: "env \<Rightarrow> uuid \<Rightarrow> (world, 'a) act \<Rightarrow> (world, 'a) act" where
  "with_uuid E i handler =
     (if is_uuid E i then handler else throw (BadRequestException (js ''Validation failed (uuid is expected)'')))"

definition with_valid :: "env \<Rightarrow> field_rule list \<Rightarrow> fields \<Rightarrow> (world, 'a) act \<Rightarrow> (world, 'a) act" where
  "with_valid E rules entity handler =
     (if violations E rules entity = [] then handler else throw (validation_failed (violations E rules entity)))"

text \<open>The properties of an object: absent ones are \<open>undefined\<close>, an explicit \<open>null\<close> is \<open>JNull\<close>.\<close>

abbreviation (input) jnat :: "nat \<Rightarrow> jval" where
  "jnat n \<equiv> JNum (of_nat n)"

definition patched :: "('a \<Rightarrow> jval) \<Rightarrow> 'a option option \<Rightarrow> jval" where
  "patched f x = (case x of None \<Rightarrow> JUndefined | Some y \<Rightarrow> jnullable f y)"

definition paging_fields :: "nat option \<Rightarrow> nat option \<Rightarrow> fields" where
  "paging_fields page limit = [(js ''page'', jopt jnat page), (js ''limit'', jopt jnat limit)]"

definition sorting_fields :: "jstring \<Rightarrow> jstring \<Rightarrow> fields" where
  "sorting_fields by order = [(js ''sortBy'', JStr by), (js ''sortOrder'', JStr order)]"

lemma with_valid_keeps:
  "with_valid E rules entity m w = (r, w') \<Longrightarrow> w' = w \<and> violations E rules entity \<noteq> [] \<or> violations E rules entity = [] \<and> m w = (r, w')"
  by (auto simp: with_valid_def throw_def split: if_splits)

lemma with_uuid_keeps:
  "with_uuid E i m w = (r, w') \<Longrightarrow> w' = w \<and> \<not> is_uuid E i \<or> is_uuid E i \<and> m w = (r, w')"
  by (auto simp: with_uuid_def throw_def split: if_splits)

lemma answers_run: "answers f m w = (r, w') \<Longrightarrow> \<exists>r'. m w = (r', w')"
  by (cases r) (auto simp: answers_def flow_simps)

end
