(* ===== verification/CatalogApi.thy ===== *)
theory CatalogApi
  imports Routing
begin

text \<open>
  The controllers of the catalog: categories, products, variants and search.
\<close>

section \<open>Categories\<close>

definition create_category_fields :: "create_category_dto \<Rightarrow> fields" where
  "create_category_fields dto = [(js ''name'', JStr (cc_name dto)), (js ''slug'', jopt JStr (cc_slug dto)),
     (js ''parentId'', jopt JStr (cc_parentId dto))]"

definition update_category_fields :: "update_category_dto \<Rightarrow> fields" where
  "update_category_fields dto = [(js ''name'', jopt JStr (uc_name dto)), (js ''slug'', jopt JStr (uc_slug dto)),
     (js ''parentId'', patched JStr (uc_parentId dto))]"

definition category_query_fields :: "category_query \<Rightarrow> fields" where
  "category_query_fields q = paging_fields (cq_page q) (cq_limit q) @ [(js ''search'', jopt JStr (cq_search q)),
     (js ''parentId'', jopt JStr (cq_parentId q)), (js ''includeChildren'', jopt JStr (cq_includeChildren q)),
     (js ''sortBy'', jopt JStr (cq_sortBy q)), (js ''sortOrder'', jopt JStr (cq_sortOrder q))]"

datatype category_call =
    CategoryFindAll category_query
  | CategoryFindTree
  | CategoryFindOne uuid
  | CategoryCreate create_category_dto
  | CategoryUpdate uuid update_category_dto
  | CategoryRemove uuid

definition CategoryController :: class_meta where
  "CategoryController = controller ''category''"

fun category_meta :: "category_call \<Rightarrow> handler_meta" where
  "category_meta (CategoryFindAll _) = on HttpGet ''''"
| "category_meta CategoryFindTree = on HttpGet ''tree''"
| "category_meta (CategoryFindOne _) = (on HttpGet '':id'')\<lparr>hm_guards := [JwtAuthGuard]\<rparr>"
| "category_meta (CategoryCreate _) = (on HttpPost '''')\<lparr>hm_status := 201, hm_guards := [JwtAuthGuard, RoleGuard],
     hm_roles := Some [TENANT_ADMIN, CATALOG_MANAGER]\<rparr>"
| "category_meta (CategoryUpdate _ _) = (on HttpPatch '':id'')\<lparr>hm_status := 200, hm_guards := [JwtAuthGuard, RoleGuard],
     hm_roles := Some [TENANT_ADMIN, CATALOG_MANAGER]\<rparr>"
| "category_meta (CategoryRemove _) = (on HttpDelete '':id'')\<lparr>hm_status := 204, hm_guards := [JwtAuthGuard, RoleGuard],
     hm_roles := Some [TENANT_ADMIN, CATALOG_MANAGER]\<rparr>"

fun category_handle :: "env \<Rightarrow> handler_context \<Rightarrow> category_call \<Rightarrow> (world, reply) act" where
  "category_handle E C (CategoryFindAll query) = with_valid E CategoryQueryDto (category_query_fields query)
     (answers CategoryPage (category_findAll E (tenant_id C) query))"
| "category_handle E C CategoryFindTree = answers Forest (findTree E (tenant_id C))"
| "category_handle E C (CategoryFindOne i) =
     with_uuid E i (answers OneCategory (category_findOne E (tenant_id C) i))"
| "category_handle E C (CategoryCreate dto) = with_valid E CreateCategoryDto (create_category_fields dto)
     (answers OneCategory (category_create E (audit_store C) (tenant_id C) dto))"
| "category_handle E C (CategoryUpdate i dto) = with_valid E UpdateCategoryDto (update_category_fields dto)
     (answers OneCategory (category_update E (audit_store C) (tenant_id C) i dto))"
| "category_handle E C (CategoryRemove i) =
     answers (\<lambda>_. Nothing) (category_remove E (audit_store C) (tenant_id C) i)"

section \<open>Products\<close>

definition create_product_fields :: "create_product_dto \<Rightarrow> fields" where
  "create_product_fields dto = [(js ''name'', JStr (cp_name dto)), (js ''description'', jopt JStr (cp_description dto)),
     (js ''categoryId'', JStr (cp_categoryId dto)), (js ''skuPrefix'', JStr (cp_skuPrefix dto)),
     (js ''isActive'', jopt JBool (cp_isActive dto))]"

definition update_product_fields :: "update_product_dto \<Rightarrow> fields" where
  "update_product_fields dto = [(js ''name'', jopt JStr (up_name dto)), (js ''categoryId'', jopt JStr (up_categoryId dto)),
     (js ''skuPrefix'', jopt JStr (up_skuPrefix dto)), (js ''isActive'', jopt JBool (up_isActive dto)),
     (js ''description'', patched JStr (up_description dto))]"

definition product_query_fields :: "product_query \<Rightarrow> fields" where
  "product_query_fields q = paging_fields (pq_page q) (pq_limit q) @ [(js ''search'', jopt JStr (pq_search q)),
     (js ''categoryId'', jopt JStr (pq_categoryId q)), (js ''isActive'', jopt JStr (pq_isActive q))] @
     sorting_fields (pq_sortBy q) (pq_sortOrder q)"

datatype product_call =
    ProductFindAll product_query
  | ProductFindOne uuid
  | ProductCreate create_product_dto
  | ProductUpdate uuid update_product_dto
  | ProductDelete uuid

definition ProductController :: class_meta where
  "ProductController = (controller ''products'')\<lparr>cm_guards := [JwtAuthGuard, RoleGuard],
     cm_roles := Some [TENANT_ADMIN, CATALOG_MANAGER]\<rparr>"

fun product_meta :: "product_call \<Rightarrow> handler_meta" where
  "product_meta (ProductFindAll _) = on HttpGet ''''"
| "product_meta (ProductFindOne _) = on HttpGet '':id''"
| "product_meta (ProductCreate _) = (on HttpPost '''')\<lparr>hm_status := 201\<rparr>"
| "product_meta (ProductUpdate _ _) = on HttpPatch '':id''"
| "product_meta (ProductDelete _) = (on HttpDelete '':id'')\<lparr>hm_status := 204\<rparr>"

fun product_handle :: "env \<Rightarrow> handler_context \<Rightarrow> product_call \<Rightarrow> (world, reply) act" where
  "product_handle E C (ProductFindAll query) = with_valid E ProductQueryDto (product_query_fields query)
     (answers ProductPage (product_findAll E (tenant_id C) query))"
| "product_handle E C (ProductFindOne i) =
     with_uuid E i (answers OneProduct (product_findOne E (tenant_id C) i))"
| "product_handle E C (ProductCreate dto) = with_valid E CreateProductDto (create_product_fields dto)
     (answers OneProduct (product_create E (audit_store C) (tenant_id C) dto))"
| "product_handle E C (ProductUpdate i dto) = with_uuid E i (with_valid E UpdateProductDto (update_product_fields dto)
     (answers OneProduct (product_update E (audit_store C) (tenant_id C) i dto)))"
| "product_handle E C (ProductDelete i) =
     with_uuid E i (answers (\<lambda>_. Nothing) (product_remove E (audit_store C) (tenant_id C) i))"

section \<open>Variants\<close>

definition attributes_json :: "(jstring \<times> jstring) list \<Rightarrow> jval" where
  "attributes_json attributes = JObj (map (\<lambda>(k, v). (map char_of k, JStr v)) attributes)"

definition create_variant_fields :: "create_variant_dto \<Rightarrow> fields" where
  "create_variant_fields dto = [(js ''sku'', JStr (cv_sku dto)), (js ''price'', JNum (cv_price dto)),
     (js ''attributes'', jopt attributes_json (cv_attributes dto))]"

definition update_variant_fields :: "update_variant_dto \<Rightarrow> fields" where
  "update_variant_fields dto = [(js ''sku'', jopt JStr (uv_sku dto)), (js ''price'', jopt JNum (uv_price dto)),
     (js ''attributes'', jopt attributes_json (uv_attributes dto))]"

definition variant_query_fields :: "variant_query \<Rightarrow> fields" where
  "variant_query_fields q = paging_fields (vq_page q) (vq_limit q) @ [(js ''search'', jopt JStr (vq_search q)),
     (js ''minPrice'', jopt JNum (vq_minPrice q)), (js ''maxPrice'', jopt JNum (vq_maxPrice q))] @
     sorting_fields (vq_sortBy q) (vq_sortOrder q)"

datatype variant_call =
    VariantFindAll uuid variant_query
  | VariantFindOne uuid uuid
  | VariantCreate uuid create_variant_dto
  | VariantUpdate uuid uuid update_variant_dto
  | VariantRemove uuid uuid

definition VariantController :: class_meta where
  "VariantController = (controller ''products/:productId/variants'')\<lparr>cm_guards := [JwtAuthGuard, RoleGuard],
     cm_roles := Some [TENANT_ADMIN, CATALOG_MANAGER]\<rparr>"

fun variant_meta :: "variant_call \<Rightarrow> handler_meta" where
  "variant_meta (VariantFindAll _ _) = (on HttpGet '''')\<lparr>hm_guards := [JwtAuthGuard, RoleGuard]\<rparr>"
| "variant_meta (VariantFindOne _ _) = (on HttpGet '':variantId'')\<lparr>hm_guards := [JwtAuthGuard, RoleGuard]\<rparr>"
| "variant_meta (VariantCreate _ _) = (on HttpPost '''')\<lparr>hm_status := 201\<rparr>"
| "variant_meta (VariantUpdate _ _ _) = on HttpPatch '':variantId''"
| "variant_meta (VariantRemove _ _) = (on HttpDelete '':variantId'')\<lparr>hm_status := 204\<rparr>"

fun variant_handle :: "env \<Rightarrow> handler_context \<Rightarrow> variant_call \<Rightarrow> (world, reply) act" where
  "variant_handle E C (VariantFindAll productId query) = with_uuid E productId
     (with_valid E VariantQueryDto (variant_query_fields query)
       (answers VariantPage (variant_findAll E (tenant_id C) productId query)))"
| "variant_handle E C (VariantFindOne productId variantId) = with_uuid E productId (with_uuid E variantId
     (answers OneVariant (variant_findOne E (tenant_id C) productId variantId)))"
| "variant_handle E C (VariantCreate productId dto) = with_uuid E productId
     (with_valid E CreateVariantDto (create_variant_fields dto)
       (answers OneVariant (variant_create E (audit_store C) (tenant_id C) productId dto)))"
| "variant_handle E C (VariantUpdate productId variantId dto) = with_uuid E productId (with_uuid E variantId
     (with_valid E UpdateVariantDto (update_variant_fields dto)
       (answers OneVariant (variant_update E (audit_store C) (tenant_id C) productId variantId dto))))"
| "variant_handle E C (VariantRemove productId variantId) = with_uuid E productId (with_uuid E variantId
     (answers (\<lambda>_. Nothing) (variant_remove E (audit_store C) (tenant_id C) productId variantId)))"

section \<open>Search\<close>

fun search_type_text :: "search_type \<Rightarrow> jstring" where
  "search_type_text SEARCH_PRODUCT = js ''product''"
| "search_type_text SEARCH_VARIANT = js ''variant''"
| "search_type_text SEARCH_ALL = js ''all''"

definition search_query_fields :: "search_query \<Rightarrow> fields" where
  "search_query_fields q = [(js ''q'', JStr (fq_q q)), (js ''limit'', jopt jnat (fq_limit q)),
     (js ''type'', jopt (\<lambda>t. JStr (search_type_text t)) (fq_type q)), (js ''categoryId'', jopt JStr (fq_categoryId q))]"

definition SearchController :: class_meta where
  "SearchController = (controller ''search'')\<lparr>cm_guards := [JwtAuthGuard, RoleGuard],
     cm_roles := Some [TENANT_ADMIN, CATALOG_MANAGER, WAREHOUSE_MANAGER]\<rparr>"

definition search_handle :: "env \<Rightarrow> handler_context \<Rightarrow> search_query \<Rightarrow> (world, reply) act" where
  "search_handle E C query = with_valid E SearchQueryDto (search_query_fields query)
     (answers SearchHits (search E (tenant_id C) query))"

end
