(* ===== verification/StockApi.thy ===== *)
theory StockApi
  imports Routing
begin

text \<open>
  The controllers of stock: inventory, warehouses and suppliers.
\<close>

section \<open>Inventory\<close>

definition stock_fields :: "stock_dto \<Rightarrow> fields" where
  "stock_fields dto = [(js ''warehouseId'', JStr (sd_warehouseId dto)), (js ''variantId'', JStr (sd_variantId dto)),
     (js ''quantity'', JNum (of_int (sd_quantity dto))), (js ''referenceId'', jopt JStr (sd_referenceId dto)),
     (js ''reason'', jopt JStr (sd_reason dto))]"

definition replenish_fields :: "replenish_stock_dto \<Rightarrow> fields" where
  "replenish_fields dto = [(js ''warehouseId'', JStr (rs_warehouseId dto)), (js ''variantId'', JStr (rs_variantId dto)),
     (js ''quantity'', JNum (of_int (rs_quantity dto)))]"

definition stock_query_fields :: "stock_query \<Rightarrow> fields" where
  "stock_query_fields q = paging_fields (kq_page q) (kq_limit q) @ [
     (js ''warehouseId'', jopt JStr (kq_warehouseId q)), (js ''variantId'', jopt JStr (kq_variantId q))] @
     sorting_fields (kq_sortBy q) (kq_sortOrder q)"

datatype inventory_call =
    InventoryFindAll stock_query
  | InventoryReplenish replenish_stock_dto
  | InventoryDeduct stock_dto
  | InventoryReserve stock_dto
  | InventoryRelease stock_dto

definition InventoryController :: class_meta where
  "InventoryController = controller ''inventory''"

fun inventory_meta :: "inventory_call \<Rightarrow> handler_meta" where
  "inventory_meta (InventoryFindAll _) = on HttpGet ''''"
| "inventory_meta (InventoryReplenish _) = (on HttpPost ''replenish'')\<lparr>hm_status := 200\<rparr>"
| "inventory_meta (InventoryDeduct _) = (on HttpPost ''deduct'')\<lparr>hm_status := 200\<rparr>"
| "inventory_meta (InventoryReserve _) = (on HttpPost ''reserve'')\<lparr>hm_status := 200\<rparr>"
| "inventory_meta (InventoryRelease _) = (on HttpPost ''release'')\<lparr>hm_status := 200\<rparr>"

fun inventory_handle :: "env \<Rightarrow> ambience \<Rightarrow> handler_context \<Rightarrow> inventory_call \<Rightarrow> (world, reply) act" where
  "inventory_handle E A C (InventoryFindAll query) = with_valid E StockQueryDto (stock_query_fields query)
     (answers StockPage (inventory_findAll E (tenant_id C) query))"
| "inventory_handle E A C (InventoryReplenish dto) = with_valid E ReplenishStockDto (replenish_fields dto)
     (answers OneStockLevel (replenish E (am_stock A) (audit_store C) (tenant_id C) dto))"
| "inventory_handle E A C (InventoryDeduct dto) = with_valid E DeductStockDto (stock_fields dto)
     (answers (\<lambda>_. Nothing) (deductStock E (am_stock A) (audit_store C) (tenant_id C) dto))"
| "inventory_handle E A C (InventoryReserve dto) = with_valid E ReserveStockDto (stock_fields dto)
     (answers (\<lambda>_. Nothing) (reserveStock E (am_stock A) (audit_store C) (tenant_id C) dto))"
| "inventory_handle E A C (InventoryRelease dto) = with_valid E ReleaseStockDto (stock_fields dto)
     (answers (\<lambda>_. Nothing) (releaseStock E (am_stock A) (audit_store C) (tenant_id C) dto))"

section \<open>Warehouses\<close>

definition create_warehouse_fields :: "create_warehouse_dto \<Rightarrow> fields" where
  "create_warehouse_fields dto = [(js ''name'', JStr (cw_name dto)), (js ''location'', jopt JStr (cw_location dto))]"

definition update_warehouse_fields :: "update_warehouse_dto \<Rightarrow> fields" where
  "update_warehouse_fields dto = [(js ''name'', jopt JStr (uw_name dto)), (js ''location'', patched JStr (uw_location dto))]"

definition warehouse_query_fields :: "warehouse_query \<Rightarrow> fields" where
  "warehouse_query_fields q = paging_fields (wq_page q) (wq_limit q) @ [(js ''search'', jopt JStr (wq_search q))] @
     sorting_fields (wq_sortBy q) (wq_sortOrder q)"

datatype warehouse_call =
    WarehouseFindAll warehouse_query
  | WarehouseFindOne uuid
  | WarehouseCreate create_warehouse_dto
  | WarehouseUpdate uuid update_warehouse_dto
  | WarehouseRemove uuid

definition WarehouseController :: class_meta where
  "WarehouseController = (controller ''warehouse'')\<lparr>cm_guards := [JwtAuthGuard, RoleGuard],
     cm_roles := Some [TENANT_ADMIN, WAREHOUSE_MANAGER]\<rparr>"

fun warehouse_meta :: "warehouse_call \<Rightarrow> handler_meta" where
  "warehouse_meta (WarehouseFindAll _) = on HttpGet ''''"
| "warehouse_meta (WarehouseFindOne _) = on HttpGet '':id''"
| "warehouse_meta (WarehouseCreate _) = (on HttpPost '''')\<lparr>hm_status := 201\<rparr>"
| "warehouse_meta (WarehouseUpdate _ _) = on HttpPatch '':id''"
| "warehouse_meta (WarehouseRemove _) = (on HttpDelete '':id'')\<lparr>hm_status := 204\<rparr>"

fun warehouse_handle :: "env \<Rightarrow> handler_context \<Rightarrow> warehouse_call \<Rightarrow> (world, reply) act" where
  "warehouse_handle E C (WarehouseFindAll query) = with_valid E WarehouseQueryDto (warehouse_query_fields query)
     (answers WarehousePage (warehouse_findAll E (tenant_id C) query))"
| "warehouse_handle E C (WarehouseFindOne i) =
     with_uuid E i (answers OneWarehouse (warehouse_findOne E (tenant_id C) i))"
| "warehouse_handle E C (WarehouseCreate dto) = with_valid E CreateWarehouseDto (create_warehouse_fields dto)
     (answers OneWarehouse (warehouse_create E (audit_store C) (tenant_id C) dto))"
| "warehouse_handle E C (WarehouseUpdate i dto) = with_uuid E i (with_valid E UpdateWarehouseDto (update_warehouse_fields dto)
     (answers OneWarehouse (warehouse_update E (audit_store C) (tenant_id C) i dto)))"
| "warehouse_handle E C (WarehouseRemove i) =
     with_uuid E i (answers (\<lambda>_. Nothing) (warehouse_remove E (audit_store C) (tenant_id C) i))"

section \<open>Suppliers\<close>

definition create_supplier_fields :: "create_supplier_dto \<Rightarrow> fields" where
  "create_supplier_fields dto = [(js ''companyName'', JStr (cs_companyName dto)),
     (js ''contactEmail'', jopt JStr (cs_contactEmail dto)), (js ''contactPhone'', jopt JStr (cs_contactPhone dto)),
     (js ''address'', jopt JStr (cs_address dto)), (js ''leadTimeDays'', jopt (\<lambda>n. JNum (of_int n)) (cs_leadTimeDays dto))]"

definition update_supplier_fields :: "update_supplier_dto \<Rightarrow> fields" where
  "update_supplier_fields dto = [(js ''companyName'', jopt JStr (us_companyName dto)),
     (js ''contactEmail'', patched JStr (us_contactEmail dto)), (js ''contactPhone'', patched JStr (us_contactPhone dto)),
     (js ''address'', patched JStr (us_address dto)),
     (js ''leadTimeDays'', patched (\<lambda>n. JNum (of_int n)) (us_leadTimeDays dto))]"

definition supplier_query_fields :: "supplier_query \<Rightarrow> fields" where
  "supplier_query_fields q = paging_fields (sq_page q) (sq_limit q) @ [(js ''search'', jopt JStr (sq_search q))] @
     sorting_fields (sq_sortBy q) (sq_sortOrder q)"

datatype supplier_call =
    SupplierFindAll supplier_query
  | SupplierFindOne uuid
  | SupplierCreate create_supplier_dto
  | SupplierUpdate uuid update_supplier_dto
  | SupplierRemove uuid

definition SupplierController :: class_meta where
  "SupplierController = controller ''suppliers''"

fun supplier_meta :: "supplier_call \<Rightarrow> handler_meta" where
  "supplier_meta (SupplierFindAll _) = on HttpGet ''''"
| "supplier_meta (SupplierFindOne _) = on HttpGet '':id''"
| "supplier_meta (SupplierCreate _) = (on HttpPost '''')\<lparr>hm_status := 201\<rparr>"
| "supplier_meta (SupplierUpdate _ _) = on HttpPatch '':id''"
| "supplier_meta (SupplierRemove _) = (on HttpDelete '':id'')\<lparr>hm_status := 204\<rparr>"

fun supplier_handle :: "env \<Rightarrow> handler_context \<Rightarrow> supplier_call \<Rightarrow> (world, reply) act" where
  "supplier_handle E C (SupplierFindAll query) = with_valid E SupplierQueryDto (supplier_query_fields query)
     (answers SupplierPage (supplier_findAll E (tenant_id C) query))"
| "supplier_handle E C (SupplierFindOne i) =
     with_uuid E i (answers OneSupplier (supplier_findOne E (tenant_id C) i))"
| "supplier_handle E C (SupplierCreate dto) = with_valid E CreateSupplierDto (create_supplier_fields dto)
     (answers OneSupplier (supplier_create E (audit_store C) (tenant_id C) dto))"
| "supplier_handle E C (SupplierUpdate i dto) = with_uuid E i (with_valid E UpdateSupplierDto (update_supplier_fields dto)
     (answers OneSupplier (supplier_update E (audit_store C) (tenant_id C) i dto)))"
| "supplier_handle E C (SupplierRemove i) =
     with_uuid E i (answers (\<lambda>_. Nothing) (supplier_remove E (audit_store C) (tenant_id C) i))"

text \<open>
  Validation of a stock request: the quantity a service receives is at least 1.
\<close>

lemma stock_quantity:
  assumes V: "class_validator E" and "violations E (stock_rules @ rules) (stock_fields dto) = []"
  shows "1 \<le> sd_quantity dto"
  using assms(2) by (auto simp: stock_rules_def field_rule_defs stock_fields_def field_violations_Nil
      class_validator.min_value [OF V])

lemma replenish_quantity:
  assumes V: "class_validator E" and "violations E ReplenishStockDto (replenish_fields dto) = []"
  shows "1 \<le> rs_quantity dto"
  using assms(2) by (auto simp: ReplenishStockDto_def stock_rules_def field_rule_defs replenish_fields_def
      field_violations_Nil class_validator.min_value [OF V])

end
