(* ===== verification/AccountApi.thy ===== *)
theory AccountApi
  imports Routing
begin

text \<open>
  The controllers of tenants, users, administration, the audit log, notifications and media,
  with the two handlers outside any module: the greeting and the metrics.
\<close>

section \<open>Tenants\<close>

definition create_tenant_fields :: "create_tenant_dto \<Rightarrow> fields" where
  "create_tenant_fields dto = [(js ''domainName'', JStr (ct_domainName dto)), (js ''businessName'', JStr (ct_businessName dto)),
     (js ''status'', JStr (status_text (ct_status dto)))]"

definition update_tenant_fields :: "update_tenant_dto \<Rightarrow> fields" where
  "update_tenant_fields dto = [(js ''domainName'', jopt JStr (ut_domainName dto)),
     (js ''businessName'', jopt JStr (ut_businessName dto)),
     (js ''status'', jopt (\<lambda>s. JStr (status_text s)) (ut_status dto))]"

datatype tenant_call =
    TenantFindAll
  | TenantFindOne uuid
  | TenantCreate create_tenant_dto
  | TenantUpdate uuid update_tenant_dto
  | TenantRemove uuid

definition TenantController :: class_meta where
  "TenantController = (controller ''tenants'')\<lparr>cm_public := Some True\<rparr>"

fun tenant_meta :: "tenant_call \<Rightarrow> handler_meta" where
  "tenant_meta TenantFindAll = on HttpGet ''''"
| "tenant_meta (TenantFindOne _) = on HttpGet '':id''"
| "tenant_meta (TenantCreate _) = (on HttpPost '''')\<lparr>hm_status := 201\<rparr>"
| "tenant_meta (TenantUpdate _ _) = on HttpPatch '':id''"
| "tenant_meta (TenantRemove _) = (on HttpDelete '':id'')\<lparr>hm_status := 204\<rparr>"

fun tenant_handle :: "env \<Rightarrow> tenant_call \<Rightarrow> (world, reply) act" where
  "tenant_handle E TenantFindAll = answers Tenants (tenant_findAll E)"
| "tenant_handle E (TenantFindOne i) = with_uuid E i (answers OneTenant (tenant_findOne E i))"
| "tenant_handle E (TenantCreate dto) = with_valid E CreateTenantDto (create_tenant_fields dto)
     (answers OneTenant (tenant_create E dto))"
| "tenant_handle E (TenantUpdate i dto) = with_uuid E i (with_valid E UpdateTenantDto (update_tenant_fields dto)
     (answers OneTenant (tenant_update E i dto)))"
| "tenant_handle E (TenantRemove i) = with_uuid E i (answers (\<lambda>_. Nothing) (tenant_remove E i))"

section \<open>Authentication\<close>

definition register_fields :: "register_dto \<Rightarrow> fields" where
  "register_fields dto = [(js ''email'', JStr (rg_email dto)), (js ''password'', JStr (rg_password dto)),
     (js ''firstName'', JStr (rg_firstName dto)), (js ''lastName'', JStr (rg_lastName dto)),
     (js ''role'', jopt (\<lambda>r. JStr (role_text r)) (rg_role dto))]"

definition login_fields :: "login_dto \<Rightarrow> fields" where
  "login_fields dto = [(js ''email'', JStr (lg_email dto)), (js ''password'', JStr (lg_password dto))]"

definition refresh_fields :: "jstring \<Rightarrow> fields" where
  "refresh_fields token = [(js ''refreshToken'', JStr token)]"

datatype auth_call =
    AuthMe
  | AuthRegister register_dto
  | AuthLogin login_dto
  | AuthRefresh jstring

definition AuthController :: class_meta where
  "AuthController = controller ''auth''"

fun auth_meta :: "auth_call \<Rightarrow> handler_meta" where
  "auth_meta AuthMe = (on HttpGet '''')\<lparr>hm_guards := [JwtAuthGuard, RoleGuard]\<rparr>"
| "auth_meta (AuthRegister _) = (on HttpPost ''register'')\<lparr>hm_public := Some True\<rparr>"
| "auth_meta (AuthLogin _) = (on HttpPost ''login'')\<lparr>hm_public := Some True\<rparr>"
| "auth_meta (AuthRefresh _) = (on HttpPost ''refresh'')\<lparr>hm_public := Some True\<rparr>"

text \<open>\<open>request.user.id\<close> without a user is a \<open>TypeError\<close>.\<close>

fun auth_handle :: "env \<Rightarrow> ambience \<Rightarrow> handler_context \<Rightarrow> auth_call \<Rightarrow> (world, reply) act" where
  "auth_handle E A C AuthMe = (case hc_user C of
       None \<Rightarrow> throw (OtherError (js ''TypeError''))
     | Some user \<Rightarrow> answers OneUser (showUserInfo E (tenant_id C) (au_id user)))"
| "auth_handle E A C (AuthRegister dto) = with_valid E RegisterDto (register_fields dto)
     (answers RegisteredUser (register_user E (audit_store C) (tenant_id C) dto))"
| "auth_handle E A C (AuthLogin dto) = with_valid E LoginDto (login_fields dto)
     (answers AccessToken (login_user E (am_seconds A) (audit_store C) (tenant_id C) dto))"
| "auth_handle E A C (AuthRefresh token) = with_valid E RefreshTokenDto (refresh_fields token)
     (answers Tokens (refreshToken E (am_seconds A) (tenant_id C) token))"

section \<open>Administration\<close>

definition provision_fields :: "provision_dto \<Rightarrow> fields" where
  "provision_fields dto = [(js ''domainName'', JStr (pv_domainName dto)), (js ''businessName'', JStr (pv_businessName dto)),
     (js ''adminEmail'', JStr (pv_adminEmail dto)), (js ''adminFirstName'', JStr (pv_adminFirstName dto)),
     (js ''adminLastName'', JStr (pv_adminLastName dto)), (js ''adminPassword'', JStr (pv_adminPassword dto))]"

definition invite_fields :: "invite_dto \<Rightarrow> fields" where
  "invite_fields dto = [(js ''email'', JStr (iv_email dto)), (js ''firstName'', JStr (iv_firstName dto)),
     (js ''lastName'', JStr (iv_lastName dto)), (js ''role'', JStr (role_text (iv_role dto))),
     (js ''password'', JStr (iv_password dto))]"

definition settings_fields :: "settings option \<Rightarrow> fields" where
  "settings_fields config = [(js ''config'', jopt (\<lambda>c. JObj (map (\<lambda>(k, v). (map char_of k, v)) c)) config)]"

datatype system_admin_call =
    AdminCreateTenant provision_dto
  | AdminUpdateTenantStatus uuid tenant_status

datatype tenant_admin_call =
    AdminGetSettings
  | AdminUpdateSettings "settings option"
  | AdminInviteUser invite_dto
  | AdminUpdateUserRole uuid user_role

definition SystemAdminController :: class_meta where
  "SystemAdminController = (controller ''admin'')\<lparr>cm_guards := [JwtAuthGuard, RoleGuard],
     cm_roles := Some [SUPER_ADMIN]\<rparr>"

definition TenantAdminController :: class_meta where
  "TenantAdminController = (controller ''admin'')\<lparr>cm_guards := [JwtAuthGuard, RoleGuard],
     cm_roles := Some [TENANT_ADMIN]\<rparr>"

fun system_admin_meta :: "system_admin_call \<Rightarrow> handler_meta" where
  "system_admin_meta (AdminCreateTenant _) = on HttpPost ''tenants''"
| "system_admin_meta (AdminUpdateTenantStatus _ _) = on HttpPatch ''tenants/:id/status''"

fun system_admin_handle :: "env \<Rightarrow> ambience \<Rightarrow> system_admin_call \<Rightarrow> (world, reply) act" where
  "system_admin_handle E A (AdminCreateTenant dto) = with_valid E ProvisionTenantDto (provision_fields dto)
     (answers (\<lambda>tenant. Message (js ''Tenant provisioned successfully'') [(''tenantId'', JStr (t_id tenant))])
       (createTenant E (am_commit A) dto))"
| "system_admin_handle E A (AdminUpdateTenantStatus i status) =
     with_valid E UpdateTenantStatusDto [(js ''status'', JStr (status_text status))]
       (answers (\<lambda>_. Message (js ''Tenant status updated successfully'') []) (updateTenantStatus E i status))"

fun tenant_admin_meta :: "tenant_admin_call \<Rightarrow> handler_meta" where
  "tenant_admin_meta AdminGetSettings = on HttpGet ''settings''"
| "tenant_admin_meta (AdminUpdateSettings _) = on HttpPatch ''settings''"
| "tenant_admin_meta (AdminInviteUser _) = on HttpPost ''users/invite''"
| "tenant_admin_meta (AdminUpdateUserRole _ _) = on HttpPatch ''users/:userId/role''"

fun tenant_admin_handle :: "env \<Rightarrow> handler_context \<Rightarrow> tenant_admin_call \<Rightarrow> (world, reply) act" where
  "tenant_admin_handle E C AdminGetSettings = answers Settings (getSettings E (tenant_id C))"
| "tenant_admin_handle E C (AdminUpdateSettings config) = with_valid E UpdateSettingsDto (settings_fields config)
     (answers Settings (updateSettings E (audit_store C) (tenant_id C) config))"
| "tenant_admin_handle E C (AdminInviteUser dto) = with_valid E InviteUserDto (invite_fields dto)
     (answers (\<lambda>user. Message (js ''User invited successfully'') [(''userId'', JStr (u_id user))])
       (inviteUser E (audit_store C) (tenant_id C) dto))"
| "tenant_admin_handle E C (AdminUpdateUserRole i role) =
     with_valid E UpdateUserRoleDto [(js ''role'', JStr (role_text role))]
       (answers (\<lambda>user. Message (js ''User role updated successfully'')
            [(''userId'', JStr (u_id user)), (''role'', JStr (role_text (u_role user)))])
         (updateUserRole E (audit_store C) (tenant_id C) i role))"

section \<open>Audit log\<close>

definition audit_query_fields :: "audit_query \<Rightarrow> fields" where
  "audit_query_fields q = paging_fields (aq_page q) (aq_limit q) @ [(js ''actorId'', jopt JStr (aq_actorId q)),
     (js ''action'', jopt (\<lambda>a. JStr (action_text a)) (aq_action q)),
     (js ''entityType'', jopt (\<lambda>e. JStr (entity_text e)) (aq_entityType q)),
     (js ''startDate'', jopt JStr (aq_startDate q)), (js ''endDate'', jopt JStr (aq_endDate q))]"

datatype audit_call = AuditFindLogs audit_query | AuditFindEntityLogs uuid audit_query

definition AuditController :: class_meta where
  "AuditController = (controller ''audit'')\<lparr>cm_guards := [JwtAuthGuard, RoleGuard],
     cm_roles := Some [TENANT_ADMIN, AUDITOR]\<rparr>"

fun audit_meta :: "audit_call \<Rightarrow> handler_meta" where
  "audit_meta (AuditFindLogs _) = on HttpGet ''logs''"
| "audit_meta (AuditFindEntityLogs _ _) = on HttpGet ''logs/:entityId''"

fun audit_handle :: "env \<Rightarrow> handler_context \<Rightarrow> audit_call \<Rightarrow> (world, reply) act" where
  "audit_handle E C (AuditFindLogs query) = with_valid E AuditQueryDto (audit_query_fields query)
     (answers AuditPage (findLogs E (tenant_id C) query))"
| "audit_handle E C (AuditFindEntityLogs entityId query) = with_uuid E entityId
     (with_valid E AuditQueryDto (audit_query_fields query)
       (answers AuditPage (findEntityLogs E (tenant_id C) entityId query)))"

section \<open>Notifications\<close>

definition notification_query_fields :: "notification_query \<Rightarrow> fields" where
  "notification_query_fields q = paging_fields (nq_page q) (nq_limit q) @ [
     (js ''unreadOnly'', jopt JBool (nq_unreadOnly q)), (js ''type'', jopt (\<lambda>t. JStr (notification_text t)) (nq_type q)),
     (js ''startDate'', jopt JStr (nq_startDate q)), (js ''endDate'', jopt JStr (nq_endDate q))]"

datatype notification_call =
    NotificationFindFeed notification_query
  | NotificationUnreadCount
  | NotificationMarkAllRead
  | NotificationMarkRead uuid
  | NotificationRemove uuid

definition NotificationController :: class_meta where
  "NotificationController = (controller ''notifications'')\<lparr>cm_guards := [JwtAuthGuard]\<rparr>"

fun notification_meta :: "notification_call \<Rightarrow> handler_meta" where
  "notification_meta (NotificationFindFeed _) = on HttpGet ''''"
| "notification_meta NotificationUnreadCount = on HttpGet ''unread-count''"
| "notification_meta NotificationMarkAllRead = on HttpPatch ''read-all''"
| "notification_meta (NotificationMarkRead _) = (on HttpPatch '':id/read'')\<lparr>hm_status := 200\<rparr>"
| "notification_meta (NotificationRemove _) = (on HttpDelete '':id'')\<lparr>hm_status := 204\<rparr>"

fun notification_handle :: "env \<Rightarrow> ambience \<Rightarrow> handler_context \<Rightarrow> notification_call \<Rightarrow> (world, reply) act" where
  "notification_handle E A C (NotificationFindFeed query) =
     with_valid E NotificationQueryDto (notification_query_fields query)
       (answers NotificationPage (findFeed E (tenant_id C) (current_user_id C) query))"
| "notification_handle E A C NotificationUnreadCount =
     answers (Count ''unreadCount'') (getUnreadCount E (tenant_id C) (current_user_id C))"
| "notification_handle E A C NotificationMarkAllRead =
     answers (Count ''updated'') (markAllRead E (am_millis A) (tenant_id C) (current_user_id C))"
| "notification_handle E A C (NotificationMarkRead i) = with_uuid E i
     (answers (\<lambda>_. Message (js ''Notification marked as read'') [])
       (markRead E (am_millis A) (tenant_id C) (current_user_id C) i))"
| "notification_handle E A C (NotificationRemove i) = with_uuid E i
     (answers (\<lambda>_. Nothing) (notification_remove E (tenant_id C) (current_user_id C) i))"

section \<open>Media\<close>

text \<open>
  \<open>ParseFilePipe\<close> with a \<open>MaxFileSizeValidator\<close> of 10 MB: a file is required and must be smaller;
  its messages are the library's.
\<close>

datatype media_call =
    MediaGetAsset jstring
  | MediaUpload "uploaded_file option"
  | MediaPresignedUrl jstring jstring

definition maxSize :: nat where
  "maxSize = 10 * 1024 * 1024"

definition MediaController :: class_meta where
  "MediaController = controller ''media''"

fun media_meta :: "media_call \<Rightarrow> handler_meta" where
  "media_meta (MediaGetAsset _) = on HttpGet '':key''"
| "media_meta (MediaUpload _) = on HttpPost ''upload''"
| "media_meta (MediaPresignedUrl _ _) = on HttpPost ''presigned-url''"

fun media_handle :: "env \<Rightarrow> ambience \<Rightarrow> handler_context \<Rightarrow> media_call \<Rightarrow> (world, reply) act" where
  "media_handle E A C (MediaGetAsset key) = answers Link (getSignedURL E (tenant_id C) key)"
| "media_handle E A C (MediaUpload upload) = (case upload of
       None \<Rightarrow> throw (BadRequestException (check_message E (js ''file'') IsNotEmpty))
     | Some f \<Rightarrow>
         if uf_size f < maxSize then answers Asset (uploadFile E (am_uuid A) (tenant_id C) f)
         else throw (BadRequestException (check_message E (js ''file'') (MaxValue (of_nat maxSize)))))"
| "media_handle E A C (MediaPresignedUrl fileName contentType) =
     answers (\<lambda>(url, key). PresignedLink url key) (generatePresignedURL E (am_uuid A) (tenant_id C) fileName contentType)"

section \<open>The greeting and the metrics\<close>

definition AppController :: class_meta where
  "AppController = controller ''''"

definition getHello :: "(world, reply) act" where
  "getHello = ret (Text (js ''Hello World! this is my first project in nest.js :D''))"

definition PrometheusController :: class_meta where
  "PrometheusController = (controller ''prometheus'')\<lparr>cm_public := Some True\<rparr>"

definition getMetrics :: "ambience \<Rightarrow> (world, reply) act" where
  "getMetrics A = ret (Text (snd (am_metrics A)))"

end
