(* ===== verification/Api.thy ===== *)
theory Api
  imports CatalogApi StockApi AccountApi
begin

text \<open>
  A request from the first middleware to the response: \<open>AppModule.configure\<close> (which middleware
  runs for which path), the global guard, the guards of the route, the interceptors' storage,
  the handler, and the exception filter that \<open>main.ts\<close> installs. The router itself belongs to
  the framework: a call is a request whose route has been found and whose body has been parsed.
\<close>

section \<open>Calls\<close>

datatype api_call =
    AppHello
  | Metrics
  | TenantCall tenant_call
  | AuthCall auth_call
  | SystemAdminCall system_admin_call
  | TenantAdminCall tenant_admin_call
  | CategoryCall category_call
  | ProductCall product_call
  | VariantCall variant_call
  | SearchCall search_query
  | InventoryCall inventory_call
  | WarehouseCall warehouse_call
  | SupplierCall supplier_call
  | AuditCall audit_call
  | NotificationCall notification_call
  | MediaCall media_call

fun api_route :: "api_call \<Rightarrow> route" where
  "api_route AppHello = route_of AppController (on HttpGet '''')"
| "api_route Metrics = route_of PrometheusController (on HttpGet '''')"
| "api_route (TenantCall c) = route_of TenantController (tenant_meta c)"
| "api_route (AuthCall c) = route_of AuthController (auth_meta c)"
| "api_route (SystemAdminCall c) = route_of SystemAdminController (system_admin_meta c)"
| "api_route (TenantAdminCall c) = route_of TenantAdminController (tenant_admin_meta c)"
| "api_route (CategoryCall c) = route_of CategoryController (category_meta c)"
| "api_route (ProductCall c) = route_of ProductController (product_meta c)"
| "api_route (VariantCall c) = route_of VariantController (variant_meta c)"
| "api_route (SearchCall _) = route_of SearchController (on HttpGet '''')"
| "api_route (InventoryCall c) = route_of InventoryController (inventory_meta c)"
| "api_route (WarehouseCall c) = route_of WarehouseController (warehouse_meta c)"
| "api_route (SupplierCall c) = route_of SupplierController (supplier_meta c)"
| "api_route (AuditCall c) = route_of AuditController (audit_meta c)"
| "api_route (NotificationCall c) = route_of NotificationController (notification_meta c)"
| "api_route (MediaCall c) = route_of MediaController (media_meta c)"

fun api_handle :: "env \<Rightarrow> ambience \<Rightarrow> handler_context \<Rightarrow> api_call \<Rightarrow> (world, reply) act" where
  "api_handle E A C AppHello = getHello"
| "api_handle E A C Metrics = getMetrics A"
| "api_handle E A C (TenantCall c) = tenant_handle E c"
| "api_handle E A C (AuthCall c) = auth_handle E A C c"
| "api_handle E A C (SystemAdminCall c) = system_admin_handle E A c"
| "api_handle E A C (TenantAdminCall c) = tenant_admin_handle E C c"
| "api_handle E A C (CategoryCall c) = category_handle E C c"
| "api_handle E A C (ProductCall c) = product_handle E C c"
| "api_handle E A C (VariantCall c) = variant_handle E C c"
| "api_handle E A C (SearchCall q) = search_handle E C q"
| "api_handle E A C (InventoryCall c) = inventory_handle E A C c"
| "api_handle E A C (WarehouseCall c) = warehouse_handle E C c"
| "api_handle E A C (SupplierCall c) = supplier_handle E C c"
| "api_handle E A C (AuditCall c) = audit_handle E C c"
| "api_handle E A C (NotificationCall c) = notification_handle E A C c"
| "api_handle E A C (MediaCall c) = media_handle E A C c"

section \<open>The pipeline\<close>

text \<open>The paths \<open>AppModule.configure\<close> excludes from \<open>TenantMiddleware\<close>.\<close>

definition skips_tenant :: "jstring \<Rightarrow> bool" where
  "skips_tenant path \<longleftrightarrow> path = js ''v1/tenants'' \<or> startsWith path (js ''v1/tenants/'') \<or> path = js ''v1/prometheus''"

primrec run_guards :: "env \<Rightarrow> nat \<Rightarrow> route \<Rightarrow> uuid option \<Rightarrow> jstring option \<Rightarrow> guard list \<Rightarrow>
    authenticated_user option \<Rightarrow> (world, authenticated_user option) act" where
  "run_guards E now route tenantId bearer [] user = ret user"
| "run_guards E now route tenantId bearer (g # gs) user = (case g of
     JwtAuthGuard \<Rightarrow> andThen (jwt_auth_guard E now (rt_public route) tenantId bearer) (\<lambda>validated.
       run_guards E now route tenantId bearer gs (if validated = None then user else validated))
   | RoleGuard \<Rightarrow> andThen (role_guard (rt_roles route) user) (\<lambda>_.
       run_guards E now route tenantId bearer gs user))"

text \<open>
  Everything before the handler: \<open>RequestIdMiddleware\<close>, \<open>TenantMiddleware\<close>, the global
  \<open>TenantGuard\<close>, the guards of the route, \<open>AuditContextInterceptor\<close>.
\<close>

definition admit :: "env \<Rightarrow> ambience \<Rightarrow> http_request \<Rightarrow> route \<Rightarrow> (world, handler_context) act" where
  "admit E A req route =
     (let requestId = request_id (am_uuid A) req in
      andThen (if skips_tenant (rt_path route) then ret None
               else andThen (tenant_middleware E (rq_tenantHeader req)) (\<lambda>(tenantId, _). ret (Some tenantId))) (\<lambda>tenantId.
      andThen (tenant_guard E (rt_public route) tenantId) (\<lambda>_.
      andThen (run_guards E (am_seconds A) route tenantId (rq_bearer req) (rt_guards route) None) (\<lambda>user.
      ret \<lparr>hc_tenantId = tenantId, hc_user = user,
           hc_audit = audit_context_of tenantId (map_option au_id user) requestId req\<rparr>))))"

definition serve :: "env \<Rightarrow> ambience \<Rightarrow> http_request \<Rightarrow> api_call \<Rightarrow> (world, reply) act" where
  "serve E A req call = andThen (admit E A req (api_route call)) (\<lambda>C. api_handle E A C call)"

datatype response = Reply nat reply | Failure error_response

definition respond :: "env \<Rightarrow> runtime \<Rightarrow> ambience \<Rightarrow> http_request \<Rightarrow> api_call \<Rightarrow> world \<Rightarrow> response \<times> world" where
  "respond E R A req call w = (case serve E A req call w of
     (Inr reply, w') \<Rightarrow> (Reply (rt_status (api_route call)) reply, w')
   | (Inl exception, w') \<Rightarrow> (Failure (filter_catch R req exception), w'))"

section \<open>The access policy\<close>

text \<open>
  What the routes require, handler by handler: a tenant (all but the tenant registry and the
  metrics), and on top of it nothing, a user of that tenant, or a user with one of some roles.
\<close>

datatype access = Anyone | AnyUser | Only "user_role list"

fun policy :: "api_call \<Rightarrow> access" where
  "policy (CategoryCall (CategoryFindAll _)) = Anyone"
| "policy (CategoryCall CategoryFindTree) = Anyone"
| "policy (CategoryCall (CategoryFindOne _)) = AnyUser"
| "policy (CategoryCall _) = Only [TENANT_ADMIN, CATALOG_MANAGER]"
| "policy (ProductCall _) = Only [TENANT_ADMIN, CATALOG_MANAGER]"
| "policy (VariantCall _) = Only [TENANT_ADMIN, CATALOG_MANAGER]"
| "policy (SearchCall _) = Only [TENANT_ADMIN, CATALOG_MANAGER, WAREHOUSE_MANAGER]"
| "policy (WarehouseCall _) = Only [TENANT_ADMIN, WAREHOUSE_MANAGER]"
| "policy (AuditCall _) = Only [TENANT_ADMIN, AUDITOR]"
| "policy (NotificationCall _) = AnyUser"
| "policy (SystemAdminCall _) = Only [SUPER_ADMIN]"
| "policy (TenantAdminCall _) = Only [TENANT_ADMIN]"
| "policy (AuthCall AuthMe) = AnyUser"
| "policy _ = Anyone"

fun needs_tenant :: "api_call \<Rightarrow> bool" where
  "needs_tenant (TenantCall _) = False"
| "needs_tenant Metrics = False"
| "needs_tenant _ = True"

text \<open>The user a bearer token stands for: its claims name a live, active user of the tenant.\<close>

definition bearer_user :: "env \<Rightarrow> nat \<Rightarrow> uuid \<Rightarrow> jstring option \<Rightarrow> world \<Rightarrow> user \<Rightarrow> bool" where
  "bearer_user E now T bearer w v \<longleftrightarrow> (\<exists>token p. bearer = Some token \<and>
     jwt_verify E now token (config_get E (js ''JWT_ACCESS_SECRET'')) = Inr p \<and> jp_tenantId p = T \<and>
     jp_sub p = u_id v \<and> u_tenantId v = T \<and> v \<in> set (w_users w) \<and> u_deletedAt v = None \<and> u_isActive v)"

fun admits :: "env \<Rightarrow> nat \<Rightarrow> uuid \<Rightarrow> jstring option \<Rightarrow> world \<Rightarrow> access \<Rightarrow> authenticated_user option \<Rightarrow> bool" where
  "admits E now T bearer w Anyone user \<longleftrightarrow> user = None"
| "admits E now T bearer w AnyUser user \<longleftrightarrow> (\<exists>v. bearer_user E now T bearer w v \<and> user = Some (identity_of v))"
| "admits E now T bearer w (Only roles) user \<longleftrightarrow>
     (\<exists>v. bearer_user E now T bearer w v \<and> u_role v \<in> set roles \<and> user = Some (identity_of v))"

text \<open>The guards of each route, computed.\<close>

lemmas controllers = AppController_def PrometheusController_def TenantController_def AuthController_def
  SystemAdminController_def TenantAdminController_def CategoryController_def ProductController_def
  VariantController_def SearchController_def InventoryController_def WarehouseController_def SupplierController_def
  AuditController_def NotificationController_def MediaController_def controller_def

lemma route_fields [simp]:
  "rt_path (route_of k h) = js (''v1'' @ segment (cm_path k) @ segment (hm_path h))"
  "rt_public (route_of k h) \<longleftrightarrow> getAllAndOverride (hm_public h) (cm_public k) = Some True"
  "rt_guards (route_of k h) = cm_guards k @ hm_guards h"
  "rt_roles (route_of k h) = getAllAndOverride (hm_roles h) (cm_roles k)"
  by (simp_all add: route_of_def)

lemma on_fields [simp]:
  "hm_public (on m p) = None" "hm_guards (on m p) = []" "hm_roles (on m p) = None" "hm_path (on m p) = p"
  by (simp_all add: on_def)

lemma route_skips: "skips_tenant (rt_path (api_route c)) \<longleftrightarrow> \<not> needs_tenant c"
proof (cases c)
  case (TenantCall x)
  then show ?thesis
    by (cases x) (simp_all add: controllers skips_tenant_def segment_def startsWith_def js_def)
qed (simp_all add: controllers skips_tenant_def segment_def startsWith_def js_def)

text \<open>How a policy shows in the guards of a route.\<close>

fun guards_for :: "access \<Rightarrow> route \<Rightarrow> bool" where
  "guards_for Anyone r \<longleftrightarrow> rt_guards r = []"
| "guards_for AnyUser r \<longleftrightarrow> \<not> rt_public r \<and> rt_roles r = None \<and>
     (rt_guards r = [JwtAuthGuard] \<or> rt_guards r = [JwtAuthGuard, RoleGuard])"
| "guards_for (Only roles) r \<longleftrightarrow> \<not> rt_public r \<and> rt_roles r = Some roles \<and>
     (rt_guards r = [JwtAuthGuard, RoleGuard] \<or> rt_guards r = [JwtAuthGuard, RoleGuard, JwtAuthGuard, RoleGuard])"

lemma route_guards: "guards_for (policy c) (api_route c)"
proof (cases c)
  case (TenantCall x) then show ?thesis by (cases x) (simp_all add: controllers)
next
  case (AuthCall x) then show ?thesis by (cases x) (simp_all add: controllers getAllAndOverride_def)
next
  case (SystemAdminCall x) then show ?thesis by (cases x) (simp_all add: controllers getAllAndOverride_def)
next
  case (TenantAdminCall x) then show ?thesis by (cases x) (simp_all add: controllers getAllAndOverride_def)
next
  case (CategoryCall x) then show ?thesis by (cases x) (simp_all add: controllers getAllAndOverride_def)
next
  case (ProductCall x) then show ?thesis by (cases x) (simp_all add: controllers getAllAndOverride_def)
next
  case (VariantCall x) then show ?thesis by (cases x) (simp_all add: controllers getAllAndOverride_def)
next
  case (InventoryCall x) then show ?thesis by (cases x) (simp_all add: controllers)
next
  case (WarehouseCall x) then show ?thesis by (cases x) (simp_all add: controllers getAllAndOverride_def)
next
  case (SupplierCall x) then show ?thesis by (cases x) (simp_all add: controllers)
next
  case (AuditCall x) then show ?thesis by (cases x) (simp_all add: controllers getAllAndOverride_def)
next
  case (NotificationCall x) then show ?thesis by (cases x) (simp_all add: controllers getAllAndOverride_def)
next
  case (MediaCall x) then show ?thesis by (cases x) (simp_all add: controllers)
qed (simp_all add: controllers getAllAndOverride_def)

lemma public_route: "rt_public (api_route c) \<Longrightarrow> policy c = Anyone"
  using route_guards [of c] by (cases "policy c") simp_all

lemma route_public: "\<not> needs_tenant c \<Longrightarrow> rt_public (api_route c)"
proof (cases c)
  case (TenantCall x)
  then show ?thesis by (cases x) (simp_all add: controllers getAllAndOverride_def)
qed (simp_all add: controllers getAllAndOverride_def)

section \<open>Access control\<close>

lemma run_guards_state: "run_guards E now r T bearer gs user w = (res, w') \<Longrightarrow> w' = w"
proof (induction gs arbitrary: user)
  case Nil
  then show ?case by (simp add: ret_eq)
next
  case (Cons g gs)
  show ?case
  proof (cases g)
    case JwtAuthGuard
    with Cons show ?thesis by (auto elim!: andThenE dest: jwt_auth_guard_state)
  next
    case RoleGuard
    have "role_guard (rt_roles r) user w = (x, w1) \<Longrightarrow> w1 = w" for x w1
      by (auto simp: role_guard_def andThen_ensure ret_def throw_def split: option.splits if_splits)
    with RoleGuard Cons show ?thesis by (auto elim!: andThenE)
  qed
qed

lemma role_guard_identity:
  "role_guard (Some roles) (Some (identity_of v)) w =
     (if u_role v \<in> set roles then Inr () else Inl (ForbiddenException (js ''Insufficient role permissions'')), w)"
  by (auto simp: role_guard_def andThen_ensure identity_of_def ret_def list_ex_iff)

lemma role_guard_none: "role_guard None user w = (Inr (), w)"
  by (simp add: role_guard_def ret_def)

text \<open>One pass of \<open>JwtAuthGuard\<close> on a route that is not public.\<close>

lemma jwt_guard_bearer:
  assumes db: "repository user_entity (userOrm E)" and T: "T \<noteq> []"
    and run: "jwt_auth_guard E now False (Some T) bearer w = (Inr user, w')"
  shows "\<exists>v. bearer_user E now T bearer w v \<and> user = Some (identity_of v)"
proof -
  from jwt_auth_guard_Inr [OF db run] T obtain token p v where
    "bearer = Some token" "jwt_verify E now token (access_secret E) = Inr p" "jp_tenantId p = T" "v \<in> set (w_users w)"
    "u_deletedAt v = None" "u_id v = jp_sub p" "u_tenantId v = jp_tenantId p" "u_isActive v" "user = Some (identity_of v)"
    by (auto simp: truthy_def)
  then show ?thesis by (intro exI [of _ v]) (auto simp: bearer_user_def)
qed

lemma bearer_jwt_guard:
  assumes db: "repository user_entity (userOrm E)" and T: "T \<noteq> []" and ok: "users_ok w"
    and v: "bearer_user E now T bearer w v"
  shows "jwt_auth_guard E now False (Some T) bearer w = (Inr (Some (identity_of v)), w)"
proof -
  from v obtain token p where t: "bearer = Some token" "jwt_verify E now token (access_secret E) = Inr p"
    "jp_tenantId p = T" "jp_sub p = u_id v" "u_tenantId v = T" "v \<in> set (w_users w)" "u_deletedAt v = None" "u_isActive v"
    by (auto simp: bearer_user_def)
  with validate_found [OF db ok, of v p] show ?thesis
    by (simp add: jwt_auth_guard_valid [OF t(2) T])
qed

lemma guards_admit:
  assumes db: "repository user_entity (userOrm E)" and T: "T \<noteq> []" and g: "guards_for acc r"
    and run: "run_guards E now r (Some T) bearer (rt_guards r) None w = (Inr user, w')"
  shows "admits E now T bearer w acc user"
proof (cases acc)
  case Anyone
  with g run show ?thesis by (simp add: ret_eq)
next
  case AnyUser
  with g run show ?thesis
    by (auto simp: andThen_Inr ret_eq role_guard_none dest!: jwt_guard_bearer [OF db T])
next
  case (Only roles)
  with g have p: "\<not> rt_public r" "rt_roles r = Some roles" by simp_all
  from Only g run p obtain u1 w1 where first: "jwt_auth_guard E now False (Some T) bearer w = (Inr u1, w1)"
    by (auto simp: andThen_Inr)
  from jwt_guard_bearer [OF db T first] obtain v where v: "bearer_user E now T bearer w v" "u1 = Some (identity_of v)"
    by blast
  have w1: "w1 = w" using jwt_auth_guard_state [OF first] .
  note first = first [unfolded w1 v(2)]
  from Only g run p show ?thesis
    by (auto simp: andThen_def first role_guard_identity ret_def v(1) split: if_splits intro!: exI [of _ v])
qed

lemma admits_guards:
  assumes db: "repository user_entity (userOrm E)" and T: "T \<noteq> []" and ok: "users_ok w" and g: "guards_for acc r"
    and a: "admits E now T bearer w acc user"
  shows "run_guards E now r (Some T) bearer (rt_guards r) None w = (Inr user, w)"
proof (cases acc)
  case Anyone
  with g a show ?thesis by (simp add: ret_def)
next
  case AnyUser
  with a obtain v where v: "bearer_user E now T bearer w v" "user = Some (identity_of v)" by auto
  from AnyUser g v(2) show ?thesis
    by (auto simp: andThen_def bearer_jwt_guard [OF db T ok v(1)] role_guard_none ret_def)
next
  case (Only roles)
  with a obtain v where v: "bearer_user E now T bearer w v" "user = Some (identity_of v)" "u_role v \<in> set roles" by auto
  from Only g v(2,3) show ?thesis
    by (auto simp: andThen_def bearer_jwt_guard [OF db T ok v(1)] role_guard_identity ret_def)
qed

text \<open>The middleware lets exactly the live, active tenants through.\<close>

lemma middleware_active:
  assumes db: "repository tenant_entity (tenantOrm E)" and ids: "ids_ok tenant_entity (w_tenants w)"
    and T: "is_uuid E T" "active_tenant T w"
  shows "\<exists>t. tenant_middleware E (HeaderOne T) w = (Inr (T, t), w)"
proof -
  from T(2) obtain t where t: "T \<noteq> []" "t \<in> set (w_tenants w)" "t_id t = T" "t_status t = ACTIVE" "t_deletedAt t = None"
    by (auto simp: active_tenant_def)
  obtain f where f: "find_one (tenantRepo E) (\<lambda>t. t_id t = T) w = (Inr f, w)" by (simp add: find_one_eq)
  have "f = Some t"
  proof (cases f)
    case None
    with repository.find_one_None [OF db f [unfolded None]] t show ?thesis by auto
  next
    case (Some x)
    with repository.find_one_Some [OF db f [unfolded Some]] have "x \<in> set (w_tenants w)" "t_id x = T" by auto
    with repository.same_id [OF db ids, of x t] t Some show ?thesis by simp
  qed
  with f t T(1) show ?thesis
    by (simp add: tenant_middleware_def findByIdAndValidate_def tenant_findById_def andThen_def ensure_def ret_def)
qed

lemma tenant_guard_pass:
  assumes db: "repository tenant_entity (tenantOrm E)" and T: "active_tenant T w"
  shows "tenant_guard E pub (Some T) w = (Inr (), w)"
proof -
  obtain r w' where run: "tenant_guard E pub (Some T) w = (r, w')" by (rule prod.exhaust)
  from guard_run [OF db run] T run show ?thesis by (auto simp: active_tenant_def truthy_def)
qed

text \<open>Who is admitted to a call, and with what its handler runs.\<close>

definition admitted :: "env \<Rightarrow> ambience \<Rightarrow> http_request \<Rightarrow> api_call \<Rightarrow> world \<Rightarrow> handler_context \<Rightarrow> bool" where
  "admitted E A req c w C \<longleftrightarrow>
     (if needs_tenant c
      then \<exists>T. rq_tenantHeader req = HeaderOne T \<and> is_uuid E T \<and> active_tenant T w \<and> hc_tenantId C = Some T \<and>
        admits E (am_seconds A) T (rq_bearer req) w (policy c) (hc_user C)
      else hc_tenantId C = None \<and> hc_user C = None) \<and>
     hc_audit C = audit_context_of (hc_tenantId C) (map_option au_id (hc_user C)) (request_id (am_uuid A) req) req"

lemma admit_state:
  assumes db: "repository tenant_entity (tenantOrm E)" and run: "admit E A req r w = (res, w')"
  shows "w' = w"
proof -
  have m: "tenant_middleware E h v = (x, v') \<Longrightarrow> v' = v" for h v x v' by (rule middleware_run [OF db])
  have g: "tenant_guard E p st v = (x, v') \<Longrightarrow> v' = v" for p st v x v' by (rule guard_run [OF db])
  show ?thesis
    using run unfolding admit_def Let_def
    by (auto simp: ret_eq elim!: andThenE dest!: run_guards_state m g split: if_splits prod.splits)
qed

lemma admit_Inr:
  assumes dbs: "repository tenant_entity (tenantOrm E)" "repository user_entity (userOrm E)"
    and run: "admit E A req (api_route c) w = (Inr C, w')"
  shows "admitted E A req c w C"
proof (cases "needs_tenant c")
  case True
  with run obtain T t w1 w2 w3 user where
    m: "tenant_middleware E (rq_tenantHeader req) w = (Inr (T, t), w1)"
    and g: "tenant_guard E (rt_public (api_route c)) (Some T) w1 = (Inr (), w2)"
    and u: "run_guards E (am_seconds A) (api_route c) (Some T) (rq_bearer req) (rt_guards (api_route c)) None w2 = (Inr user, w3)"
    and C: "C = \<lparr>hc_tenantId = Some T, hc_user = user,
      hc_audit = audit_context_of (Some T) (map_option au_id user) (request_id (am_uuid A) req) req\<rparr>"
    by (auto simp: admit_def route_skips andThen_Inr ret_eq Let_def split: prod.splits)
  from middleware_run [OF dbs(1) m] have T: "w1 = w" "rq_tenantHeader req = HeaderOne T" "is_uuid E T" "active_tenant T w"
    by blast+
  have w2: "w2 = w" using guard_run(1) [OF dbs(1) g] T by simp
  have "T \<noteq> []" using T(4) by (simp add: active_tenant_def)
  from guards_admit [OF dbs(2) this route_guards u [unfolded w2]] T True show ?thesis
    by (simp add: admitted_def C)
next
  case False
  with route_guards [of c] public_route [OF route_public] have "rt_guards (api_route c) = []" by simp
  with False run show ?thesis
    by (auto simp: admit_def route_skips andThen_Inr ret_eq Let_def admitted_def)
qed

lemma admitted_admit:
  assumes dbs: "repository tenant_entity (tenantOrm E)" "repository user_entity (userOrm E)"
    and ids: "ids_ok tenant_entity (w_tenants w)" and ok: "users_ok w" and a: "admitted E A req c w C"
  shows "admit E A req (api_route c) w = (Inr C, w)"
proof (cases "needs_tenant c")
  case True
  with a obtain T where T: "rq_tenantHeader req = HeaderOne T" "is_uuid E T" "active_tenant T w" "hc_tenantId C = Some T"
    and u: "admits E (am_seconds A) T (rq_bearer req) w (policy c) (hc_user C)"
    and C: "hc_audit C = audit_context_of (hc_tenantId C) (map_option au_id (hc_user C)) (request_id (am_uuid A) req) req"
    by (auto simp: admitted_def)
  from T(3) have "T \<noteq> []" by (simp add: active_tenant_def)
  from middleware_active [OF dbs(1) ids T(2,3)] tenant_guard_pass [OF dbs(1) T(3)]
    admits_guards [OF dbs(2) this ok route_guards u] True T(1,4) C show ?thesis
    by (cases C) (auto simp: admit_def route_skips andThen_def ret_def Let_def)
next
  case False
  with route_guards [of c] public_route [OF route_public] have "rt_guards (api_route c) = []" by simp
  with False a route_public [OF False] show ?thesis
    by (cases C) (auto simp: admit_def route_skips andThen_def ret_def Let_def admitted_def tenant_guard_def)
qed

text \<open>
  C38: The pipeline implements the access policy. A request whose tenant header names a live,
  active tenant and whose bearer token stands for a live, active user of that tenant with a role
  the policy allows (or that needs no token) reaches exactly its handler, with that tenant, that
  user and an audit context that names both; any other request is refused before any effect.
\<close>

theorem access_control:
  assumes dbs: "repository tenant_entity (tenantOrm E)" "repository user_entity (userOrm E)"
    and ids: "ids_ok tenant_entity (w_tenants w)" and ok: "users_ok w"
  shows "(\<forall>C. admitted E A req c w C \<longrightarrow> serve E A req c w = api_handle E A C c w) \<and>
    ((\<nexists>C. admitted E A req c w C) \<longrightarrow> (\<exists>e. serve E A req c w = (Inl e, w)))"
proof (intro conjI allI impI)
  fix C assume "admitted E A req c w C"
  from admitted_admit [OF assms this] show "serve E A req c w = api_handle E A C c w"
    by (simp add: serve_def andThen_def)
next
  assume no: "\<nexists>C. admitted E A req c w C"
  obtain res w' where run: "admit E A req (api_route c) w = (res, w')" by (rule prod.exhaust)
  with no admit_Inr [OF dbs, of A req c w _ w'] obtain e where "res = Inl e" by (cases res) auto
  with run admit_state [OF dbs(1) run] show "\<exists>e. serve E A req c w = (Inl e, w)"
    by (simp add: serve_def andThen_def)
qed

definition noon :: ambience where
  "noon = \<lparr>am_seconds = 0, am_millis = 0, am_uuid = js ''u1'', am_stock = calm, am_commit = (\<lambda>_. None),
     am_metrics = ([], [])\<rparr>"

definition knock :: "jstring \<Rightarrow> jstring option \<Rightarrow> http_request" where
  "knock tenant bearer = plain_request\<lparr>rq_tenantHeader := HeaderOne tenant, rq_bearer := bearer\<rparr>"

definition shop_admin :: user where
  "shop_admin = hd (w_users provisioned)"

definition shop_token :: jstring where
  "shop_token = mem_sign 0 (token_payload shop_admin) (js ''JWT_ACCESS_SECRET'') (js ''15m'')"

definition shop_context :: handler_context where
  "shop_context = \<lparr>hc_tenantId = Some (js ''0''), hc_user = Some (identity_of shop_admin),
     hc_audit = audit_context_of (Some (js ''0'')) (Some (u_id shop_admin)) (js ''u1'') (knock (js ''0'') (Some shop_token))\<rparr>"

abbreviation new_depot :: api_call where
  "new_depot \<equiv> WarehouseCall (WarehouseCreate \<lparr>cw_name = js ''North'', cw_location = None\<rparr>)"

lemma provisioned_ok: "ids_ok tenant_entity (w_tenants provisioned)" "users_ok provisioned"
proof -
  have "list_all (\<lambda>t. t_id t \<noteq> no_id) (w_tenants provisioned) \<and> distinct (map t_id (w_tenants provisioned)) \<and>
    length (w_users provisioned) = 1 \<and> list_all (\<lambda>u. u_id u \<noteq> no_id) (w_users provisioned)" by code_simp
  then show "ids_ok tenant_entity (w_tenants provisioned)" "users_ok provisioned"
    by (auto simp: ids_ok_def list_all_iff users_ok_def table_inv_def live_key_unique_def length_Suc_conv)
qed

lemma au_id_identity: "au_id (identity_of v) = u_id v"
  by (simp add: identity_of_def)

lemma shop_admitted: "admitted mem_env noon (knock (js ''0'') (Some shop_token)) new_depot provisioned shop_context"
proof -
  have "list_ex (\<lambda>t. t_id t = js ''0'' \<and> t_status t = ACTIVE \<and> t_deletedAt t = None) (w_tenants provisioned) \<and>
    w_users provisioned \<noteq> [] \<and> u_tenantId shop_admin = js ''0'' \<and> u_deletedAt shop_admin = None \<and> u_isActive shop_admin \<and>
    u_role shop_admin = TENANT_ADMIN" by code_simp
  then show ?thesis
    by (auto simp: admitted_def knock_def shop_context_def shop_token_def bearer_user_def mem_env_def mem_verify_sign
        active_tenant_def list_ex_iff noon_def token_payload_def js_def shop_admin_def request_id_def truthy_def
        plain_request_def au_id_identity intro!: exI [of _ "hd (w_users provisioned)"])
qed

lemma access_control_witness:
  "(\<exists>e. serve mem_env noon (knock (js ''0'') None) new_depot provisioned = (Inl e, provisioned)) \<and>
   map wh_name (w_warehouses (snd (serve mem_env noon (knock (js ''0'') (Some shop_token)) new_depot provisioned))) = [js ''North'']"
proof
  note access = access_control [OF _ _ provisioned_ok, of mem_env noon]
  have "\<not> admitted mem_env noon (knock (js ''0'') None) new_depot provisioned C" for C
    by (auto simp: admitted_def knock_def bearer_user_def)
  with access show "\<exists>e. serve mem_env noon (knock (js ''0'') None) new_depot provisioned = (Inl e, provisioned)" by auto
  have "map wh_name (w_warehouses (snd (warehouse_handle mem_env shop_context
      (WarehouseCreate \<lparr>cw_name = js ''North'', cw_location = None\<rparr>) provisioned))) = [js ''North'']" by code_simp
  with access shop_admitted
  show "map wh_name (w_warehouses (snd (serve mem_env noon (knock (js ''0'') (Some shop_token)) new_depot provisioned))) = [js ''North'']"
    by simp
qed

end
