(* ===== verification/Footprint.thy ===== *)
theory Footprint
  imports Product Inventory Supplier Notification Admin Media Search
begin

text \<open>
  Which parts of the shared state each service writes. A service's own theory says what its calls
  do to its tables; this one says that they leave every other table alone, so that the
  invariants of the services hold together.
\<close>

section \<open>Parts of the state\<close>

datatype part = Registry | Accounts | Configs | CategoryTable | ProductTable | VariantTable | WarehouseTable
  | SupplierTable | StockTable | AuditTable | NotificationTable | AssetTable | RedisStore | ObjectStore

fun same_part :: "part \<Rightarrow> world \<Rightarrow> world \<Rightarrow> bool" where
  "same_part Registry w w' \<longleftrightarrow> w_tenants w' = w_tenants w"
| "same_part Accounts w w' \<longleftrightarrow> w_users w' = w_users w"
| "same_part Configs w w' \<longleftrightarrow> w_settings w' = w_settings w"
| "same_part CategoryTable w w' \<longleftrightarrow> w_categories w' = w_categories w"
| "same_part ProductTable w w' \<longleftrightarrow> w_products w' = w_products w"
| "same_part VariantTable w w' \<longleftrightarrow> w_variants w' = w_variants w"
| "same_part WarehouseTable w w' \<longleftrightarrow> w_warehouses w' = w_warehouses w"
| "same_part SupplierTable w w' \<longleftrightarrow> w_suppliers w' = w_suppliers w"
| "same_part StockTable w w' \<longleftrightarrow> w_stock w' = w_stock w"
| "same_part AuditTable w w' \<longleftrightarrow> w_audits w' = w_audits w"
| "same_part NotificationTable w w' \<longleftrightarrow> w_notifications w' = w_notifications w"
| "same_part AssetTable w w' \<longleftrightarrow> w_media w' = w_media w"
| "same_part RedisStore w w' \<longleftrightarrow> w_redis w' = w_redis w"
| "same_part ObjectStore w w' \<longleftrightarrow> w_objects w' = w_objects w"

definition writes_only :: "part set \<Rightarrow> world \<Rightarrow> world \<Rightarrow> bool" where
  "writes_only K w w' \<longleftrightarrow> (\<forall>p. p \<notin> K \<longrightarrow> same_part p w w')"

abbreviation writing :: "part set \<Rightarrow> (world, 'a) act \<Rightarrow> bool" where
  "writing K \<equiv> keeps (writes_only K)"

lemma same_part_refl: "same_part p w w"
  by (cases p) simp_all

lemma same_part_trans: "same_part p u v \<Longrightarrow> same_part p v w \<Longrightarrow> same_part p u w"
  by (cases p) simp_all

lemma writes_only_refl [simp, intro]: "writes_only K w w"
  by (simp add: writes_only_def same_part_refl)

lemma writes_only_mono: "writes_only K w w' \<Longrightarrow> K \<subseteq> L \<Longrightarrow> writes_only L w w'"
  unfolding writes_only_def by blast

lemma writes_onlyD: "writes_only K w w' \<Longrightarrow> p \<notin> K \<Longrightarrow> same_part p w w'"
  unfolding writes_only_def by blast

interpretation footprint: frame "writes_only K" for K
  unfolding writes_only_def by unfold_locales (blast intro: same_part_refl same_part_trans)+

text \<open>A change of one part.\<close>

lemma writes_onlyI: "p \<in> K \<Longrightarrow> (\<And>q. q \<noteq> p \<Longrightarrow> same_part q w w') \<Longrightarrow> writes_only K w w'"
  unfolding writes_only_def by metis

section \<open>The operations on a repository\<close>

definition repo_of :: "(world, 'row) repo \<Rightarrow> part \<Rightarrow> bool" where
  "repo_of R p \<longleftrightarrow> (\<forall>t w. writes_only {p} w (r_set R t w))"

lemma repos_of [simp, intro]:
  "repo_of (tenantRepo E) Registry" "repo_of (userRepo E) Accounts" "repo_of (settingRepo E) Configs"
  "repo_of (categoryRepo E) CategoryTable" "repo_of (productRepo E) ProductTable" "repo_of (variantRepo E) VariantTable"
  "repo_of (warehouseRepo E) WarehouseTable" "repo_of (supplierRepo E) SupplierTable" "repo_of (stockRepo E) StockTable"
  "repo_of (auditRepo E) AuditTable" "repo_of (notificationRepo E) NotificationTable" "repo_of (mediaRepo E) AssetTable"
  unfolding repo_of_def by (intro allI writes_onlyI, simp, case_tac q, simp_all add: repos)+

lemma repo_set: "repo_of R p \<Longrightarrow> p \<in> K \<Longrightarrow> writes_only K w (r_set R t w)"
  unfolding repo_of_def by (blast intro: writes_only_mono)

lemma writing_reads:
  "writing K (find_one R P)" "writing K (find_many R P ord)" "writing K (count_rows R P)"
  "writing K (get_exists R P)" "writing K (get_many_and_count R P ord pg)"
  "writing K (find_or_throw R P e)" "writing K (throw_if_exists R P e)"
  by (rule footprint.keeps_pure, auto simp: inv_simps dest: find_or_throw_state throw_if_exists_state)+

lemma writing_rows:
  assumes "repo_of R p" and "p \<in> K"
  shows "writing K (save R row)" "writing K (soft_remove R P)" "writing K (update_where R f P)"
    "writing K (save_many R rows)"
  using repo_set [OF assms]
  by (auto simp: save_def soft_remove_def update_where_def save_many_def intro!: keepsI split: sum.splits prod.splits)

lemma bus_part: "same_part p w (w\<lparr>w_bus := es\<rparr>)"
  by (cases p) simp_all

lemma redis_part: "p \<noteq> RedisStore \<Longrightarrow> same_part p w (w\<lparr>w_redis := st, w_bus := es\<rparr>)"
  by (cases p) simp_all

lemma writing_bus: "writing K (emit e)" "writing K (audit_record ctx input)"
proof -
  show e: "writing K (emit e)" for e
    unfolding emit_def by (rule footprint.keeps_modify) (simp add: writes_only_def bus_part)
  show "writing K (audit_record ctx input)"
    unfolding audit_record_def by (intro footprint.keeps_rules e)
qed

lemma writing_recorded:
  assumes "repo_of R p" and "p \<in> K"
  shows "writing K (save_and_record R ctx input' row)" "writing K (remove_and_record R ctx input P)"
  unfolding save_and_record_def remove_and_record_def
  by (intro footprint.keeps_rules writing_rows [OF assms] writing_bus)+

lemma writing_cache:
  assumes R: "redis_server R glob rank" and K: "RedisStore \<in> K"
  shows "writing K (cache_set R k v ttl)" "writing K (cache_get R k)" "writing K (cache_del R k)"
    "writing K (cache_delByPattern R k)"
proof -
  have redis: "writes_only K w (w\<lparr>w_redis := st, w_bus := es\<rparr>)" for w st es
    using K by (intro writes_onlyI redis_part)
  have only: "writes_only K w w'" if "cache_only w w'" for w w'
    using that redis by (auto simp: cache_only_def)
  show "writing K (cache_set R k v ttl)"
  proof (rule keepsI)
    fix w r w' assume "cache_set R k v ttl w = (r, w')"
    from cache_set_stores [OF R this, of UNIV] obtain st where "w' = w\<lparr>w_redis := st\<rparr>" by blast
    with redis [where w = w and st = st and es = "w_bus w"] show "writes_only K w w'" by simp
  qed
  show "writing K (cache_get R k)" by (rule footprint.keeps_pure) (erule cache_get_state)
  show "writing K (cache_del R k)" "writing K (cache_delByPattern R k)"
    using only cache_only_del [OF R, of k] cache_only_delByPattern [OF R, of k] by (auto simp: keeps_def)
qed

lemma writing_transaction: "writing K m \<Longrightarrow> writing K (transaction commit m)"
  by (rule keepsI) (auto simp: transaction_def dest: keepsD split: prod.splits sum.splits option.splits)

section \<open>The services\<close>

lemma keeps_sum:
  "(\<And>x. keeps R (f x)) \<Longrightarrow> (\<And>y. keeps R (g y)) \<Longrightarrow> keeps R (case v of Inl x \<Rightarrow> f x | Inr y \<Rightarrow> g y)"
  by (cases v) simp_all

lemmas footprint_rules = footprint.keeps_rules keeps_cached keeps_sum writing_reads writing_bus writing_rows
  writing_recorded writing_transaction repos_of

lemma warehouse_footprint:
  assumes "warehouse_step E T w w'" shows "writes_only {WarehouseTable} w w'"
proof -
  let ?K = "{WarehouseTable}"
  have free: "writing ?K (warehouse_assertNameUnique E T name excl)" for name excl
    unfolding warehouse_assertNameUnique_def by (intro footprint_rules)
  have one: "writing ?K (warehouse_findOne E T i)" for i
    unfolding warehouse_findOne_def by (intro footprint_rules)
  have create: "writing ?K (warehouse_create E ctx T dto)" for ctx dto
    unfolding warehouse_create_def Let_def by (intro footprint_rules free) simp_all
  have all: "writing ?K (warehouse_findAll E T query)" for query
    unfolding warehouse_findAll_def Let_def by (intro footprint_rules)
  have upd: "writing ?K (warehouse_update E ctx T i dto)" for ctx i dto
    unfolding warehouse_update_def Let_def by (intro footprint_rules one free) simp_all
  have rem: "writing ?K (warehouse_remove E ctx T i)" for ctx i
    unfolding warehouse_remove_def Let_def by (intro footprint_rules one) simp_all
  from assms show ?thesis
    by cases (auto dest: keepsD [OF create] keepsD [OF all] keepsD [OF one] keepsD [OF upd] keepsD [OF rem])
qed

lemma supplier_footprint:
  assumes "supplier_step E T w w'" shows "writes_only {SupplierTable} w w'"
proof -
  let ?K = "{SupplierTable}"
  have one: "writing ?K (supplier_findOne E T i)" for i
    unfolding supplier_findOne_def by (intro footprint_rules)
  have create: "writing ?K (supplier_create E ctx T dto)" for ctx dto
    unfolding supplier_create_def assertCompanyNameUnique_def Let_def by (intro footprint_rules) simp_all
  have all: "writing ?K (supplier_findAll E T query)" for query
    unfolding supplier_findAll_def Let_def by (intro footprint_rules)
  have upd: "writing ?K (supplier_update E ctx T i dto)" for ctx i dto
    unfolding supplier_update_def supplier_rename_def assertCompanyNameUnique_def Let_def
    by (intro footprint_rules one) simp_all
  have rem: "writing ?K (supplier_remove E ctx T i)" for ctx i
    unfolding supplier_remove_def Let_def by (intro footprint_rules one) simp_all
  from assms show ?thesis
    by cases (auto dest: keepsD [OF create] keepsD [OF all] keepsD [OF one] keepsD [OF upd] keepsD [OF rem])
qed

lemma variant_footprint:
  assumes "variant_step E T w w'" shows "writes_only {VariantTable} w w'"
proof -
  let ?K = "{VariantTable}"
  have one: "writing ?K (variant_findOne E T p i)" "writing ?K (variant_findOneById E T i)" for p i
    unfolding variant_findOne_def variant_findOneById_def by (intro footprint_rules)+
  have create: "writing ?K (variant_create E ctx T p dto)" for ctx p dto
    unfolding variant_create_def find_product_of_def variant_assertSkuUniqueness_def Let_def
    by (intro footprint_rules) simp_all
  have all: "writing ?K (variant_findAll E T p query)" for p query
    unfolding variant_findAll_def find_product_of_def Let_def by (intro footprint_rules)
  have upd: "writing ?K (variant_update E ctx T p i dto)" for ctx p i dto
    unfolding variant_update_def variant_resku_def variant_assertSkuUniqueness_def Let_def
    by (intro footprint_rules one) simp_all
  have rem: "writing ?K (variant_remove E ctx T p i)" for ctx p i
    unfolding variant_remove_def Let_def by (intro footprint_rules one) simp_all
  from assms show ?thesis
    by cases (auto dest: keepsD [OF create] keepsD [OF all] keepsD [OF one(1)] keepsD [OF one(2)]
      keepsD [OF upd] keepsD [OF rem])
qed

lemma media_footprint:
  assumes "media_step E T w w'" shows "writes_only {AssetTable, ObjectStore} w w'"
proof -
  let ?K = "{AssetTable, ObjectStore}"
  have put: "writing ?K (send_put E key upload)" for key upload
  proof (rule keepsI)
    fix w r w' assume "send_put E key upload w = (r, w')"
    then consider "w' = w" | st where "w' = w\<lparr>w_objects := st\<rparr>" by (auto simp: send_put_def split: sum.splits)
    then show "writes_only ?K w w'"
    proof cases
      case 2
      show ?thesis unfolding 2 by (rule writes_onlyI [of ObjectStore], simp, case_tac q, simp_all)
    qed simp
  qed
  have upload: "writing ?K (uploadFile E fresh T upload)" for fresh upload
    unfolding uploadFile_def Let_def by (intro footprint.keeps_rules put writing_rows [OF repos_of(12)]) simp
  have link: "writing ?K (getSignedURL E T key)" "writing ?K (generatePresignedURL E fresh T name ctype)"
    for key fresh name ctype
    unfolding getSignedURL_def generatePresignedURL_def Let_def by (intro footprint_rules)+
  from assms show ?thesis
    by cases (auto dest: keepsD [OF upload] keepsD [OF link(1)] keepsD [OF link(2)])
qed

lemma notification_footprint:
  assumes "notification_step E T w w'" shows "writes_only {NotificationTable} w w'"
proof -
  let ?K = "{NotificationTable}"
  have dispatch: "writing ?K (handleDispatch E payload)" for payload
    unfolding handleDispatch_def dispatch_targets_def resolveRecipients_def filterDeduplicated_def Let_def
    by (intro footprint_rules) simp_all
  have feed: "writing ?K (findFeed E T R query)" "writing ?K (getUnreadCount E T R)" for R query
    unfolding findFeed_def notification_assertDateRange_def getUnreadCount_def by (intro footprint_rules)+
  have read: "writing ?K (markRead E now T R i)" "writing ?K (markAllRead E now T R)" for now R i
    unfolding markRead_def markAllRead_def by (intro footprint_rules; simp)+
  have rem: "writing ?K (notification_remove E T R i)" for R i
    unfolding notification_remove_def by (intro footprint_rules) simp_all
  from assms show ?thesis
    by cases (auto dest: keepsD [OF dispatch] keepsD [OF feed(1)] keepsD [OF feed(2)] keepsD [OF read(1)]
      keepsD [OF read(2)] keepsD [OF rem])
qed

lemma emitted_part: "same_part p w (emitted es w)"
  unfolding emitted_def by (rule bus_part)

lemma inventory_footprint:
  assumes "repository stock_level_entity (stockOrm E)" "repository variant_entity (variantOrm E)"
    "repository warehouse_entity (warehouseOrm E)"
    and "stock_ok (w_stock w)" and "inventory_step E T w w'"
  shows "writes_only {StockTable} w w'"
  using inventory_step_moves [OF assms]
proof
  assume "moved_safely T w w'"
  then obtain u es where u: "w' = emitted es u" "u = w\<lparr>w_stock := w_stock u\<rparr>"
    unfolding moved_safely_def moves_def by blast
  have "writes_only {StockTable} w (w\<lparr>w_stock := t\<rparr>)" for t
    by (rule writes_onlyI [of StockTable], simp, case_tac q, simp_all)
  from this [of "w_stock u", folded u(2)] show ?thesis
    using emitted_part by (auto simp: u(1) writes_only_def intro: same_part_trans)
qed simp

lemma category_footprint:
  assumes R: "redis_server (redis E) glob rank" and "category_step E T w w'"
  shows "writes_only {CategoryTable, RedisStore} w w'"
proof -
  let ?K = "{CategoryTable, RedisStore}"
  note cache = writing_cache [OF R, of ?K, simplified]
  have store: "writing ?K (save_category E e)" for e
  proof (rule keepsI)
    fix w r w' assume "save_category E e w = (r, w')"
    then consider "w' = w" | t where "w' = w\<lparr>w_categories := t\<rparr>"
      by (auto simp: save_category_def split: sum.splits prod.splits rel.splits)
    then show "writes_only ?K w w'"
      by cases (auto intro!: repo_set [OF repos_of(4), unfolded categoryRepo_def, simplified])
  qed
  note rules = footprint.keeps_rules keeps_cached writing_reads writing_bus cache store
    writing_rows(2) [OF repos_of(4)] insertI1
  have one: "writing ?K (category_findOne E T i)" for i
    unfolding category_findOne_def Let_def by (intro rules)
  have create: "writing ?K (category_create E ctx T dto)" for ctx dto
    unfolding category_create_def assertSlugUnique_def assertParentExists_def invalidateCollections_def Let_def
    by (intro rules)
  have all: "writing ?K (category_findAll E T query)" for query
    unfolding category_findAll_def Let_def by (intro rules)
  have tree: "writing ?K (findTree E T)"
    unfolding findTree_def Let_def by (intro rules)
  have upd: "writing ?K (category_update E ctx T i dto)" for ctx i dto
    unfolding category_update_def move_category_def assertSlugUnique_def assertParentExists_def
      invalidateCollections_def Let_def by (intro rules one)
  have rem: "writing ?K (category_remove E ctx T i)" for ctx i
    unfolding category_remove_def invalidateCollections_def Let_def by (intro rules one)
  from assms(2) show ?thesis
    by cases (auto dest: keepsD [OF create] keepsD [OF all] keepsD [OF tree] keepsD [OF one] keepsD [OF upd]
      keepsD [OF rem])
qed

lemma product_footprint:
  assumes R: "redis_server (redis E) glob rank" and "product_step E T w w'"
  shows "writes_only {ProductTable, VariantTable, RedisStore} w w'"
proof -
  let ?K = "{ProductTable, VariantTable, RedisStore}"
  note cache = writing_cache [OF R, of ?K, simplified]
  have store: "writing ?K (save_product E e)" for e
  proof (rule keepsI)
    fix w r w' assume "save_product E e w = (r, w')"
    then consider "w' = w" | t where "w' = w\<lparr>w_products := t\<rparr>" | t vs where "w' = w\<lparr>w_products := t, w_variants := vs\<rparr>"
      by (auto simp: save_product_def split: sum.splits prod.splits rel.splits option.splits)
    moreover have "writes_only ?K w (w\<lparr>w_products := t\<rparr>)" "writes_only ?K w (w\<lparr>w_products := t, w_variants := vs\<rparr>)"
      for t vs by (auto simp: writes_only_def, (case_tac p, simp_all)+)
    ultimately show "writes_only ?K w w'" by cases auto
  qed
  note rules = footprint.keeps_rules keeps_cached writing_reads writing_bus cache store
    writing_rows(2) [OF repos_of(5)] insertI1
  have cat: "writing ?K (category_findOne E T i)" for i
    unfolding category_findOne_def Let_def by (intro rules)
  have one: "writing ?K (product_findOne E T i)" for i
    unfolding product_findOne_def Let_def by (intro rules)
  have create: "writing ?K (product_create E ctx T dto)" for ctx dto
    unfolding product_create_def assertSkuUniqueness_def by (intro rules cat)
  have all: "writing ?K (product_findAll E T query)" for query
    unfolding product_findAll_def Let_def by (intro rules)
  have upd: "writing ?K (product_update E ctx T i dto)" for ctx i dto
    unfolding product_update_def move_product_def Let_def by (intro rules one cat)
  have rem: "writing ?K (product_remove E ctx T i)" for ctx i
    unfolding product_remove_def by (intro rules one)
  from assms(2) show ?thesis
    by cases (auto dest: keepsD [OF create] keepsD [OF all] keepsD [OF one] keepsD [OF upd] keepsD [OF rem])
qed

text \<open>Of Redis, a user call only stores values under the keys of users.\<close>

definition user_keys :: "uuid \<Rightarrow> jstring set" where
  "user_keys T = {user_key T i | i. True}"

definition user_effect :: "uuid \<Rightarrow> world \<Rightarrow> world \<Rightarrow> bool" where
  "user_effect T w w' \<longleftrightarrow> writes_only {Accounts, RedisStore} w w' \<and> stores_only (user_keys T) (w_redis w) (w_redis w')"

interpretation user_frame: frame "user_effect T" for T
proof
  show "user_effect T w w" for w by (simp add: user_effect_def stores_only_def)
  show "user_effect T u w" if "user_effect T u v" "user_effect T v w" for u v w
    using that footprint.trans unfolding user_effect_def stores_only_def by blast
qed

lemma user_footprint:
  assumes R: "redis_server (redis E) glob rank" and "user_step E T w w'"
  shows "user_effect T w w'"
proof -
  let ?R = "user_effect T"
  have tables: "keeps ?R m" if "writing {Accounts} m" for m :: "(world, 'a) act"
  proof (rule keepsI)
    fix w r w' assume "m w = (r, w')"
    from keepsD [OF that this] have "writes_only {Accounts} w w'" .
    with writes_onlyD [OF this, of RedisStore] show "?R w w'"
      by (auto simp: user_effect_def stores_only_def intro: writes_only_mono)
  qed
  have set: "keeps ?R (cache_set (redis E) (user_key T i) v ttl)" for i v ttl
  proof (rule keepsI)
    fix w r w' assume run: "cache_set (redis E) (user_key T i) v ttl w = (r, w')"
    have "user_key T i \<in> user_keys T" by (auto simp: user_keys_def)
    from cache_set_stores [OF R run this] keepsD [OF writing_cache(1) [OF R] run, of "{Accounts, RedisStore}"]
    show "?R w w'" by (auto simp: user_effect_def)
  qed
  have del: "keeps ?R (cache_del (redis E) k)" for k
  proof (rule keepsI)
    fix w r w' assume run: "cache_del (redis E) k w = (r, w')"
    from cache_only_stores [OF keepsD [OF cache_only_del [OF R] run]]
      keepsD [OF writing_cache(3) [OF R] run, of "{Accounts, RedisStore}"]
    show "?R w w'" by (simp add: user_effect_def)
  qed
  note rules = user_frame.keeps_rules keeps_cached keeps_sum set del tables [OF writing_reads(1)]
    tables [OF writing_reads(6)] tables [OF writing_bus(2)]
    tables [OF writing_recorded(1) [OF repos_of(2) insertI1]]
    user_frame.keeps_pure [of "cache_get (redis E) k" for k, OF cache_get_state]
  have reg: "keeps ?R (register_user E ctx T dto)" for ctx dto
    unfolding register_user_def findOneByEmail_def by (intro rules)
  have login: "keeps ?R (login_user E now ctx T dto)" for now ctx dto
    unfolding login_user_def findOneByEmail_def Let_def by (intro rules)
  have refresh: "keeps ?R (refreshToken E now T token)" for now token
    unfolding refreshToken_def Let_def by (intro rules)
  have show_info: "keeps ?R (showUserInfo E T i)" for i
    unfolding showUserInfo_def Let_def by (intro rules)
  have invite: "keeps ?R (inviteUser E ctx T dto)" for ctx dto
    unfolding inviteUser_def by (intro rules)
  have role: "keeps ?R (updateUserRole E ctx T i role)" for ctx i role
    unfolding updateUserRole_def Let_def by (intro rules)
  from assms(2) show ?thesis
    by (cases rule: user_step.cases; (elim admin_step.cases)?)
      (auto dest: keepsD [OF reg] keepsD [OF login] keepsD [OF refresh] keepsD [OF show_info] keepsD [OF invite]
        keepsD [OF role])
qed

text \<open>The listeners, the settings, and what only reads.\<close>

lemma listener_footprint:
  "addAudit E payload w = (r, w') \<Longrightarrow> writes_only {AuditTable} w w'"
  "handleStockMovement movement w = (r', w') \<Longrightarrow> writes_only {} w w'"
proof -
  have audit: "writing {AuditTable} (addAudit E payload)"
    unfolding addAudit_def by (intro footprint_rules) simp_all
  then show "addAudit E payload w = (r, w') \<Longrightarrow> writes_only {AuditTable} w w'" by (rule keepsD)
  have "writing {} (handleStockMovement movement)"
    unfolding handleStockMovement_def dispatch_def by (intro footprint_rules)
  then show "handleStockMovement movement w = (r', w') \<Longrightarrow> writes_only {} w w'" by (rule keepsD)
qed

lemma settings_footprint: "updateSettings E ctx T config w = (r, w') \<Longrightarrow> writes_only {Configs} w w'"
proof -
  have "writing {Configs} (updateSettings E ctx T config)"
    unfolding updateSettings_def getSettings_def Let_def by (intro footprint_rules) simp_all
  then show "updateSettings E ctx T config w = (r, w') \<Longrightarrow> writes_only {Configs} w w'" by (rule keepsD)
qed

lemma registry_footprint:
  assumes "registry_step E T w w'" shows "writes_only {Registry} w w'"
proof -
  let ?K = "{Registry}"
  have one: "writing ?K (tenant_findOne E i)" for i
    unfolding tenant_findOne_def by (intro footprint_rules)
  have create: "writing ?K (tenant_create E dto)" for dto
    unfolding tenant_create_def Let_def by (intro footprint_rules) simp_all
  have all: "writing ?K (tenant_findAll E)"
    unfolding tenant_findAll_def by (intro footprint_rules)
  have upd: "writing ?K (tenant_update E i dto)" for i dto
    unfolding tenant_update_def Let_def by (intro footprint_rules one) simp_all
  have rem: "writing ?K (tenant_remove E i)" for i
    unfolding tenant_remove_def Let_def by (intro footprint_rules one) simp_all
  from assms show ?thesis
    by cases (auto dest: keepsD [OF create] keepsD [OF all] keepsD [OF one] keepsD [OF upd] keepsD [OF rem])
qed

end
