(* ===== verification/Isolation.thy ===== *)
theory Isolation
  imports Api Footprint
begin

text \<open>
  The whole program as one tenant service: any request to the API, and any event a listener
  handles, keeps the invariants of all services at once and leaves every row of every other
  tenant alone.
\<close>

section \<open>The state as one table with tenants\<close>

datatype system_row = InCatalog catalog_row | InUsers user | InSettings tenant_setting | InWarehouses warehouse
  | InSuppliers supplier | InStock stock_level | InAudits audit | InNotifications notification | InMedia media_asset

fun owner :: "system_row \<Rightarrow> uuid" where
  "owner (InCatalog x) = row_tenant x"
| "owner (InUsers x) = u_tenantId x"
| "owner (InSettings x) = ts_tenantId x"
| "owner (InWarehouses x) = wh_tenantId x"
| "owner (InSuppliers x) = sup_tenantId x"
| "owner (InStock x) = sl_tenantId x"
| "owner (InAudits x) = a_tenantId x"
| "owner (InNotifications x) = n_tenantId x"
| "owner (InMedia x) = m_tenantId x"

definition system_rows :: "world \<Rightarrow> system_row list" where
  "system_rows w = map InCatalog (catalog_rows w) @ map InUsers (w_users w) @ map InSettings (w_settings w) @
     map InWarehouses (w_warehouses w) @ map InSuppliers (w_suppliers w) @ map InStock (w_stock w) @
     map InAudits (w_audits w) @ map InNotifications (w_notifications w) @ map InMedia (w_media w)"

definition system_inv :: "env \<Rightarrow> world \<Rightarrow> bool" where
  "system_inv E w \<longleftrightarrow> registry_inv w \<and> users_ok w \<and> ids_ok tenant_setting_entity (w_settings w) \<and> catalog_inv E w \<and>
     warehouse_inv w \<and> supplier_inv w \<and> inventory_inv w \<and> notification_inv w \<and> media_inv E w"

text \<open>What the program relies on outside the repository.\<close>

definition system_env :: "env \<Rightarrow> bool" where
  "system_env E \<longleftrightarrow> catalog_env E \<and> class_validator E \<and> object_store (s3_put E) \<and>
     repository tenant_entity (tenantOrm E) \<and> repository user_entity (userOrm E) \<and>
     repository tenant_setting_entity (settingOrm E) \<and> repository warehouse_entity (warehouseOrm E) \<and>
     repository supplier_entity (supplierOrm E) \<and> repository stock_level_entity (stockOrm E) \<and>
     repository audit_entity (auditOrm E) \<and> repository notification_entity (notificationOrm E) \<and>
     repository media_asset_entity (mediaOrm E)"

section \<open>Steps\<close>

text \<open>
  The tenant a request acts for: the one its header names; for the creation of a tenant the
  tenant created. The registry's own calls and the metrics act for none, which is to say for any
  tenant one likes.
\<close>

fun acts_for :: "http_request \<Rightarrow> api_call \<Rightarrow> exn + reply \<Rightarrow> uuid \<Rightarrow> bool" where
  "acts_for req (SystemAdminCall (AdminCreateTenant dto)) r T \<longleftrightarrow>
     (\<forall>text i. r = Inr (Message text [(''tenantId'', JStr i)]) \<longrightarrow> i = T)"
| "acts_for req c r T \<longleftrightarrow> (\<forall>i. needs_tenant c \<and> rq_tenantHeader req = HeaderOne i \<longrightarrow> i = T)"

text \<open>
  A request (with calls running one after another, as for \<open>inventory_step\<close>), or the delivery of
  an event to its listener, however the event came onto the bus.
\<close>

inductive system_step :: "env \<Rightarrow> uuid \<Rightarrow> world \<Rightarrow> world \<Rightarrow> bool" for E :: env where
  by_request: "serve E A req c w = (r, w') \<Longrightarrow> sequential (am_stock A) \<Longrightarrow> acts_for req c r T \<Longrightarrow> system_step E T w w'"
| by_audit: "addAudit E event w = (ru, w') \<Longrightarrow> ae_tenantId event = T \<Longrightarrow> system_step E T w w'"
| by_movement: "handleStockMovement movement w = (ru, w') \<Longrightarrow> sm_tenantId movement = T \<Longrightarrow> system_step E T w w'"
| by_dispatch: "handleDispatch E payload w = (ru, w') \<Longrightarrow> ne_tenantId payload = T \<Longrightarrow> system_step E T w w'"

section \<open>One service at a time\<close>

definition others :: "uuid \<Rightarrow> ('row \<Rightarrow> uuid) \<Rightarrow> 'row list \<Rightarrow> 'row multiset" where
  "others T tenant_of t = {#x \<in># mset t. tenant_of x \<noteq> T#}"

lemma others_system:
  "others T owner (system_rows w) = image_mset InCatalog (other_rows T w) + image_mset InUsers (others T u_tenantId (w_users w)) +
     image_mset InSettings (others T ts_tenantId (w_settings w)) + image_mset InWarehouses (others T wh_tenantId (w_warehouses w)) +
     image_mset InSuppliers (others T sup_tenantId (w_suppliers w)) + image_mset InStock (others T sl_tenantId (w_stock w)) +
     image_mset InAudits (others T a_tenantId (w_audits w)) + image_mset InNotifications (others T n_tenantId (w_notifications w)) +
     image_mset InMedia (others T m_tenantId (w_media w))"
  by (simp add: others_def system_rows_def other_rows_def filter_mset_image_mset)

text \<open>A step on the whole: the invariant holds again and the others' rows are what they were.\<close>

definition isolated :: "env \<Rightarrow> uuid \<Rightarrow> world \<Rightarrow> world \<Rightarrow> bool" where
  "isolated E T w w' \<longleftrightarrow> system_inv E w' \<and> others T owner (system_rows w') = others T owner (system_rows w)"

lemma isolated_refl: "system_inv E w \<Longrightarrow> isolated E T w w"
  by (simp add: isolated_def)

lemma footprint_eqs:
  assumes "writes_only K w w'"
  shows "Registry \<notin> K \<Longrightarrow> w_tenants w' = w_tenants w" "Accounts \<notin> K \<Longrightarrow> w_users w' = w_users w"
    "Configs \<notin> K \<Longrightarrow> w_settings w' = w_settings w" "CategoryTable \<notin> K \<Longrightarrow> w_categories w' = w_categories w"
    "ProductTable \<notin> K \<Longrightarrow> w_products w' = w_products w" "VariantTable \<notin> K \<Longrightarrow> w_variants w' = w_variants w"
    "WarehouseTable \<notin> K \<Longrightarrow> w_warehouses w' = w_warehouses w" "SupplierTable \<notin> K \<Longrightarrow> w_suppliers w' = w_suppliers w"
    "StockTable \<notin> K \<Longrightarrow> w_stock w' = w_stock w" "AuditTable \<notin> K \<Longrightarrow> w_audits w' = w_audits w"
    "NotificationTable \<notin> K \<Longrightarrow> w_notifications w' = w_notifications w" "AssetTable \<notin> K \<Longrightarrow> w_media w' = w_media w"
    "RedisStore \<notin> K \<Longrightarrow> w_redis w' = w_redis w" "ObjectStore \<notin> K \<Longrightarrow> w_objects w' = w_objects w"
  using writes_onlyD [OF assms] same_part.simps by metis+

text \<open>Every invariant looks at its own parts only.\<close>

lemma invs_frame:
  "w_tenants w' = w_tenants w \<Longrightarrow> registry_inv w' = registry_inv w"
  "w_users w' = w_users w \<Longrightarrow> users_ok w' = users_ok w"
  "w_categories w' = w_categories w \<Longrightarrow> w_products w' = w_products w \<Longrightarrow> w_variants w' = w_variants w \<Longrightarrow>
     w_redis w' = w_redis w \<Longrightarrow> catalog_inv E w' = catalog_inv E w"
  "w_warehouses w' = w_warehouses w \<Longrightarrow> warehouse_inv w' = warehouse_inv w"
  "w_suppliers w' = w_suppliers w \<Longrightarrow> supplier_inv w' = supplier_inv w"
  "w_stock w' = w_stock w \<Longrightarrow> inventory_inv w' = inventory_inv w"
  "w_notifications w' = w_notifications w \<Longrightarrow> notification_inv w' = notification_inv w"
  "w_media w' = w_media w \<Longrightarrow> w_objects w' = w_objects w \<Longrightarrow> media_inv E w' = media_inv E w"
  "w_categories w' = w_categories w \<Longrightarrow> w_products w' = w_products w \<Longrightarrow> w_variants w' = w_variants w \<Longrightarrow>
     other_rows T w' = other_rows T w"
  by (simp_all add: registry_inv_def users_ok_def catalog_inv_def category_inv_def warehouse_inv_def supplier_inv_def
      inventory_inv_def notification_inv_def media_inv_def other_rows_def catalog_rows_def)

lemmas isolation_defs = isolated_def system_inv_def others_system

lemma service_isolated:
  assumes "tenant_service step rows tenant_of P" and "step T w w'" and "P w"
  shows "P w' \<and> others T tenant_of (rows w') = others T tenant_of (rows w)"
  using tenant_service.step_inv [OF assms(1)] tenant_service.step_others [OF assms(1)] assms(2,3)
  unfolding others_def by blast

lemma table_isolated:
  assumes env: "system_env E" and inv: "system_inv E w"
  shows "warehouse_step E T w w' \<Longrightarrow> isolated E T w w'" and "supplier_step E T w w' \<Longrightarrow> isolated E T w w'"
    and "inventory_step E T w w' \<Longrightarrow> isolated E T w w'" and "notification_step E T w w' \<Longrightarrow> isolated E T w w'"
    and "media_step E T w w' \<Longrightarrow> isolated E T w w'"
proof -
  assume s: "warehouse_step E T w w'"
  from service_isolated [OF warehouse_service s] env inv
  show "isolated E T w w'"
    by (simp add: system_env_def isolation_defs invs_frame [where w = w and w' = w'] footprint_eqs [OF warehouse_footprint [OF s]])
next
  assume s: "supplier_step E T w w'"
  from service_isolated [OF supplier_service s] env inv
  show "isolated E T w w'"
    by (simp add: system_env_def isolation_defs invs_frame [where w = w and w' = w'] footprint_eqs [OF supplier_footprint [OF s]])
next
  assume s: "inventory_step E T w w'"
  from inv have "stock_ok (w_stock w)" by (simp add: system_inv_def inventory_inv_def)
  with env s have f: "writes_only {StockTable} w w'"
    by (intro inventory_footprint) (simp_all add: system_env_def catalog_env_def)
  from service_isolated [OF inventory_service s] env inv
  show "isolated E T w w'"
    by (simp add: system_env_def catalog_env_def isolation_defs invs_frame [where w = w and w' = w'] footprint_eqs [OF f])
next
  assume s: "notification_step E T w w'"
  from service_isolated [OF notification_service s] env inv
  show "isolated E T w w'"
    by (simp add: system_env_def isolation_defs invs_frame [where w = w and w' = w'] footprint_eqs [OF notification_footprint [OF s]])
next
  assume s: "media_step E T w w'"
  from service_isolated [OF media_service s] env inv
  show "isolated E T w w'"
    by (simp add: system_env_def isolation_defs invs_frame [where w = w and w' = w'] footprint_eqs [OF media_footprint [OF s]])
qed

lemma catalog_isolated:
  assumes env: "system_env E" and inv: "system_inv E w" and s: "catalog_step E T w w'"
  shows "isolated E T w w'"
proof -
  from env have cenv: "catalog_env E" by (simp add: system_env_def)
  then obtain glob rank where R: "redis_server (redis E) glob rank" unfolding catalog_env_def by blast
  have f: "writes_only {CategoryTable, ProductTable, VariantTable, RedisStore} w w'"
    using s
  proof cases
    case of_category
    from writes_only_mono [OF category_footprint [OF R this(2)]] show ?thesis by simp
  next
    case of_product
    from writes_only_mono [OF product_footprint [OF R this(2)]] show ?thesis by simp
  next
    case of_variant
    from writes_only_mono [OF variant_footprint [OF this(2)]] show ?thesis by simp
  qed
  have rows: "other_rows T v = others T row_tenant (catalog_rows v)" for v
    by (simp add: other_rows_def others_def)
  from service_isolated [OF catalog_service [OF cenv] s] inv show ?thesis
    by (simp add: isolation_defs rows invs_frame [where w = w and w' = w'] footprint_eqs [OF f])
qed

text \<open>A value stored under a user's key says nothing about the catalog.\<close>

lemma user_key_entries:
  assumes T: "plain_tenant T" and k: "k \<in> user_keys T"
  shows "category_entry E C k v" and "product_entry E C' P V k v"
proof -
  from k obtain i where i: "k = user_key T i" by (auto simp: user_keys_def)
  have "k \<noteq> category_key T' j" "k \<noteq> categoriesList_key E T' q" "k \<noteq> categoriesTree_key T'"
    "k \<noteq> product_key T' j" "k \<noteq> productsList_key E T' q" if "plain_tenant T'" for T' j q
    using T that by (auto simp: i keys_as_tenant_keys suffix_kinds suffix_kinds [symmetric]
        dest!: tenant_key_inject [rotated 2])
  then show "category_entry E C k v" "product_entry E C' P V k v"
    unfolding category_entry_def product_entry_def by metis+
qed

lemma user_isolated:
  assumes env: "system_env E" and inv: "system_inv E w" and T: "plain_tenant T" and s: "user_step E T w w'"
  shows "isolated E T w w'"
proof -
  from env obtain glob rank where R: "redis_server (redis E) glob rank" unfolding system_env_def catalog_env_def by blast
  from user_footprint [OF R s] have f: "writes_only {Accounts, RedisStore} w w'"
    and st: "stores_only (user_keys T) (w_redis w) (w_redis w')" by (simp_all add: user_effect_def)
  have "entries_ok \<Phi> (w_redis w')" if "entries_ok \<Phi> (w_redis w)" "\<And>k v. k \<in> user_keys T \<Longrightarrow> \<Phi> k v" for \<Phi>
    using that st unfolding entries_ok_iff stores_only_def by blast
  then have "catalog_inv E w'"
    using inv user_key_entries [OF T]
    by (simp add: system_inv_def catalog_inv_def category_inv_def footprint_eqs [OF f])
  with service_isolated [OF user_service s] env inv show ?thesis
    by (simp add: system_env_def isolation_defs invs_frame(1,2,4-) [where w = w and w' = w'] footprint_eqs [OF f])
qed

lemma settings_isolated:
  assumes env: "system_env E" and inv: "system_inv E w" and s: "updateSettings E ctx T config w = (r, w')"
  shows "isolated E T w w'"
proof -
  from env have db: "repository tenant_setting_entity (settingOrm E)" by (simp add: system_env_def)
  from inv have ids: "ids_ok tenant_setting_entity (w_settings w)" by (simp add: system_inv_def)
  have "ids_ok tenant_setting_entity (w_settings w') \<and> others T ts_tenantId (w_settings w') = others T ts_tenantId (w_settings w)"
    using s unfolding updateSettings_def Let_def
  proof (cases rule: andThenE)
    case (err e)
    then show ?thesis using ids by (auto simp: getSettings_def dest: find_or_throw_state)
  next
    case (ok old w1)
    from repository.find_or_throw_Inr [OF db ok(1) [unfolded getSettings_def]]
    have old: "w1 = w" "old \<in> set (w_settings w)" "ts_tenantId old = T" by auto
    let ?row = "case config of None \<Rightarrow> old | Some c \<Rightarrow> old\<lparr>ts_config := spread (ts_config old) c\<rparr>"
    have row: "ts_id ?row = ts_id old" "ts_tenantId ?row = T" using old by (simp_all split: option.splits)
    from save_and_record_state [OF ok(2)] old(1) consider "w' = w"
      | x t where "o_save (settingOrm E) ?row (w_settings w) = Inr (x, t)" "w_settings w' = t"
      by (auto simp: settingRepo_def emitted_def)
    then show ?thesis
    proof cases
      case (2 x t)
      have "ts_tenantId x = T" using setting_saved [OF db 2(1)] row by simp
      then have "{#s \<in># mset t. ts_tenantId s \<noteq> T#} = {#s \<in># mset (w_settings w). ts_tenantId s \<noteq> T#}"
        using old row by (intro repository.save_others [OF db 2(1) ids]) (auto simp: tenant_setting_entity_def)
      with repository.save_ids [OF db 2(1) ids] 2(2) show ?thesis by (simp add: others_def)
    qed (simp add: ids)
  qed
  with inv show ?thesis
    by (simp add: isolation_defs invs_frame [where w = w and w' = w'] footprint_eqs [OF settings_footprint [OF s]])
qed

lemma registry_isolated:
  assumes env: "system_env E" and inv: "system_inv E w" and f: "writes_only {Registry} w w'" and "registry_inv w'"
  shows "isolated E T w w'"
  using assms(4) inv by (simp add: isolation_defs invs_frame(2-) [where w = w and w' = w'] footprint_eqs [OF f])

lemma listener_isolated:
  assumes env: "system_env E" and inv: "system_inv E w"
  shows "addAudit E event w = (r, w') \<Longrightarrow> isolated E (ae_tenantId event) w w'"
    and "handleStockMovement movement w = (r, w') \<Longrightarrow> isolated E T w w'"
proof -
  assume s: "addAudit E event w = (r, w')"
  with addAudit_total [of E event w] have run: "addAudit E event w = (Inr (), w')" by auto
  from env have db: "repository audit_entity (auditOrm E)" by (simp add: system_env_def)
  have "others (ae_tenantId event) a_tenantId (w_audits w') = others (ae_tenantId event) a_tenantId (w_audits w)"
    using addAudit_rows [OF db run]
  proof (elim disjE exE conjE)
    fix x assume "mset (w_audits w') = add_mset x (mset (w_audits w))" "x\<lparr>a_createdAt := 0, a_id := no_id\<rparr> = audit_row event"
    moreover from arg_cong [where f = a_tenantId, OF this(2)] have "a_tenantId x = ae_tenantId event"
      by (simp add: audit_row_def)
    ultimately show ?thesis by (simp add: others_def)
  qed simp
  with inv show "isolated E (ae_tenantId event) w w'"
    by (simp add: isolation_defs invs_frame [where w = w and w' = w'] footprint_eqs [OF listener_footprint(1) [OF s]])
next
  assume s: "handleStockMovement movement w = (r, w')"
  from inv show "isolated E T w w'"
    by (simp add: isolation_defs invs_frame [where w = w and w' = w'] footprint_eqs [OF listener_footprint(2) [OF s]])
qed

section \<open>Provisioning\<close>

text \<open>The rows of a new tenant are rows of no other tenant.\<close>

lemma provisioning_isolated:
  assumes env: "system_env E" and inv: "system_inv E w" and s: "createTenant E commit dto w = (Inr t, w')"
  shows "isolated E (t_id t) w w'"
proof -
  from env have tdb: "repository tenant_entity (tenantOrm E)" and udb: "repository user_entity (userOrm E)"
    and sdb: "repository tenant_setting_entity (settingOrm E)" by (simp_all add: system_env_def)
  from inv have reg: "ids_ok tenant_entity (w_tenants w)" "unique_ok tenant_entity (w_tenants w)"
    and ids: "ids_ok tenant_setting_entity (w_settings w)"
    and users: "table_inv user_entity user_key_of (w_users w)"
    by (simp_all add: system_inv_def registry_inv_def users_ok_def)
  from createTenant_saves [OF tdb udb s] obtain t' u u' v s' where
    t': "o_save (tenantOrm E) (provisioned_tenant dto) (w_tenants w) = Inr (t, t')"
    and u': "o_save (userOrm E) (admin_user E (t_id t) dto) (w_users w) = Inr (u, u')"
    and s': "o_save (settingOrm E) (initial_setting (t_id t)) (w_settings w) = Inr (v, s')"
    and w': "w' = w\<lparr>w_tenants := t', w_users := u', w_settings := s'\<rparr>"
    and fresh: "\<not> (\<exists>x \<in> set (w_users w). u_deletedAt x = None \<and> u_email x = pv_adminEmail dto \<and> u_tenantId x = t_id t)"
    by blast
  have "tenant_write user_entity (userOrm E) user_key_of (t_id t) (w_users w) u'"
    using fresh by (intro write_new [OF u']) (auto simp: admin_user_def user_key_of_def key_free_def)
  from tenant_table.write_inv [OF user_table [OF udb] this users]
    tenant_table.write_others [OF user_table [OF udb] this users]
  have U: "table_inv user_entity user_key_of u'" "others (t_id t) u_tenantId u' = others (t_id t) u_tenantId (w_users w)"
    by (simp_all add: others_def user_key_of_def)
  have "ts_tenantId v = t_id t" using setting_saved [OF sdb s'] by (simp add: initial_setting_def)
  then have "{#x \<in># mset s'. ts_tenantId x \<noteq> t_id t#} = {#x \<in># mset (w_settings w). ts_tenantId x \<noteq> t_id t#}"
    by (intro repository.save_others [OF sdb s' ids]) (simp_all add: initial_setting_def tenant_setting_entity_def)
  then have S: "others (t_id t) ts_tenantId s' = others (t_id t) ts_tenantId (w_settings w)" by (simp add: others_def)
  have f: "writes_only {Registry, Accounts, Configs} w w'"
    unfolding writes_only_def w' by (intro allI impI, case_tac p) simp_all
  have "w_tenants w' = t'" "w_users w' = u'" "w_settings w' = s'" by (simp_all add: w')
  with U S repository.save_ids [OF tdb t' reg(1)] repository.save_unique [OF tdb t' reg(2)]
    repository.save_ids [OF sdb s' ids] inv show ?thesis
    by (simp add: isolation_defs registry_inv_def users_ok_def invs_frame(3-) [where w = w and w' = w'] footprint_eqs [OF f])
qed

lemma status_footprint:
  assumes env: "system_env E" and inv: "registry_inv w" and s: "updateTenantStatus E i status w = (r, w')"
  shows "writes_only {Registry} w w' \<and> registry_inv w'"
proof -
  from env have db: "repository tenant_entity (tenantOrm E)" by (simp add: system_env_def)
  have "writing {Registry} (updateTenantStatus E i status)"
    unfolding updateTenantStatus_def by (intro footprint_rules) simp_all
  from keepsD [OF this s] have f: "writes_only {Registry} w w'" .
  from s obtain row x where "w' = w \<or> save (tenantRepo E) row w = (Inr x, w')"
    unfolding updateTenantStatus_def
    by (cases r) (auto simp: andThen_Inr andThen_Inl catch_Inr catch_Inl throw_eq save_Inl dest: find_or_throw_state)
  then have "registry_inv w'"
    using inv repository.save_ids [OF db] repository.save_unique [OF db]
    by (auto simp: save_Inr registry_inv_def tenantRepo_def)
  with f show ?thesis by simp
qed

section \<open>One request\<close>

text \<open>As a frame relation: from a state that keeps the invariant, an isolated step.\<close>

definition isolating :: "env \<Rightarrow> uuid \<Rightarrow> world \<Rightarrow> world \<Rightarrow> bool" where
  "isolating E T w w' \<longleftrightarrow> (system_inv E w \<longrightarrow> isolated E T w w')"

interpretation isolation: frame "isolating E T" for E T
  by unfold_locales (auto simp: isolating_def isolated_def)

lemma handler_rules:
  "keeps (isolating E T) m \<Longrightarrow> keeps (isolating E T) (answers f m)"
  "(is_uuid E i \<Longrightarrow> keeps (isolating E T) n) \<Longrightarrow> keeps (isolating E T) (with_uuid E i n)"
  "(violations E rules entity = [] \<Longrightarrow> keeps (isolating E T) n) \<Longrightarrow> keeps (isolating E T) (with_valid E rules entity n)"
  by (simp_all add: answers_def with_uuid_def with_valid_def isolation.keeps_andThen isolation.keeps_ret isolation.keeps_throw)

lemma of_step:
  assumes "\<And>w r w'. m w = (r, w') \<Longrightarrow> step w w'" and "\<And>w w'. system_inv E w \<Longrightarrow> step w w' \<Longrightarrow> isolated E T w w'"
  shows "keeps (isolating E T) m"
  using assms by (auto simp: isolating_def intro!: keepsI)

lemma of_reading:
  assumes "writing {} m" shows "keeps (isolating E T) m"
proof (rule of_step)
  show "m w = (r, w') \<Longrightarrow> writes_only {} w w'" for w r w' by (rule keepsD [OF assms])
  show "isolated E T w w'" if "system_inv E w" and f: "writes_only {} w w'" for w w'
    using that by (simp add: isolation_defs invs_frame [where w = w and w' = w'] footprint_eqs [OF f])
qed

text \<open>The handlers, controller by controller. \<open>acting E C T\<close>: the context is one that names \<open>T\<close>.\<close>

definition acting :: "env \<Rightarrow> handler_context \<Rightarrow> uuid \<Rightarrow> bool" where
  "acting E C T \<longleftrightarrow> tenant_id C = T \<and> is_uuid E T \<and> context_tenant (audit_store C) = Some T"

lemma catalog_handlers:
  assumes env: "system_env E" and C: "acting E C T"
  shows "keeps (isolating E T) (category_handle E C c1)" "keeps (isolating E T) (product_handle E C c2)"
    "keeps (isolating E T) (variant_handle E C c3)" "keeps (isolating E T) (search_handle E C q)"
proof -
  from env C have T: "plain_tenant T" "tenant_id C = T"
    by (auto simp: system_env_def acting_def dest: class_validator.uuid_plain)
  have cat: "keeps (isolating E T) m" if "\<And>w r w'. m w = (r, w') \<Longrightarrow> category_step E T w w'" for m :: "(world, 'b) act"
    by (rule of_step [OF that], assumption) (blast intro: catalog_isolated [OF env] of_category [OF T(1)])
  show "keeps (isolating E T) (category_handle E C c1)"
    by (cases c1) (simp_all add: T(2), (intro handler_rules cat; erule category_step.intros)+)
  have prod: "keeps (isolating E T) m" if "\<And>w r w'. m w = (r, w') \<Longrightarrow> product_step E T w w'" for m :: "(world, 'b) act"
    by (rule of_step [OF that], assumption) (blast intro: catalog_isolated [OF env] of_product [OF T(1)])
  show "keeps (isolating E T) (product_handle E C c2)"
    by (cases c2) (simp_all add: T(2), (intro handler_rules prod; erule product_step.intros)+)
  have var: "keeps (isolating E T) m" if "\<And>w r w'. m w = (r, w') \<Longrightarrow> variant_step E T w w'" for m :: "(world, 'b) act"
    by (rule of_step [OF that], assumption) (blast intro: catalog_isolated [OF env] of_variant [OF T(1)])
  show "keeps (isolating E T) (variant_handle E C c3)"
    by (cases c3) (simp_all add: T(2), (intro handler_rules var; erule variant_step.intros)+)
  show "keeps (isolating E T) (search_handle E C q)"
    unfolding search_handle_def search_def searchProducts_def searchVariants_def Let_def
    by (intro handler_rules of_reading footprint_rules)
qed

lemma stock_handlers:
  assumes env: "system_env E" and C: "acting E C T" and A: "sequential (am_stock A)"
  shows "keeps (isolating E T) (inventory_handle E A C c1)" "keeps (isolating E T) (warehouse_handle E C c2)"
    "keeps (isolating E T) (supplier_handle E C c3)"
proof -
  from C have T: "tenant_id C = T" and ctx: "context_tenant (audit_store C) = Some T" by (simp_all add: acting_def)
  from env have V: "class_validator E" by (simp add: system_env_def)
  have inv: "keeps (isolating E T) m" if "\<And>w r w'. m w = (r, w') \<Longrightarrow> inventory_step E T w w'" for m :: "(world, 'b) act"
    by (rule of_step [OF that], assumption) (blast intro: table_isolated(3) [OF env])
  show "keeps (isolating E T) (inventory_handle E A C c1)"
  proof (cases c1)
    case (InventoryFindAll query)
    then show ?thesis by (simp add: T) (intro handler_rules inv; erule inv_findAll)
  next
    case (InventoryReplenish dto)
    then show ?thesis
      by (simp add: T) (intro handler_rules inv; erule inv_replenish [OF _ replenish_quantity [OF V] A ctx]; assumption)
  next
    case (InventoryDeduct dto)
    then show ?thesis
      by (simp add: T DeductStockDto_def)
        (intro handler_rules inv; erule inv_deduct [OF _ stock_quantity [OF V] A ctx]; assumption)
  next
    case (InventoryReserve dto)
    then show ?thesis
      by (simp add: T ReserveStockDto_def)
        (intro handler_rules inv; erule inv_reserve [OF _ stock_quantity [OF V] A ctx]; assumption)
  next
    case (InventoryRelease dto)
    then show ?thesis
      by (simp add: T ReleaseStockDto_def)
        (intro handler_rules inv; erule inv_release [OF _ stock_quantity [OF V] A ctx]; assumption)
  qed
  have wh: "keeps (isolating E T) m" if "\<And>w r w'. m w = (r, w') \<Longrightarrow> warehouse_step E T w w'" for m :: "(world, 'b) act"
    by (rule of_step [OF that], assumption) (blast intro: table_isolated(1) [OF env])
  show "keeps (isolating E T) (warehouse_handle E C c2)"
    by (cases c2) (simp_all add: T, (intro handler_rules wh; erule warehouse_step.intros)+)
  have sup: "keeps (isolating E T) m" if "\<And>w r w'. m w = (r, w') \<Longrightarrow> supplier_step E T w w'" for m :: "(world, 'b) act"
    by (rule of_step [OF that], assumption) (blast intro: table_isolated(2) [OF env])
  show "keeps (isolating E T) (supplier_handle E C c3)"
    by (cases c3) (simp_all add: T, (intro handler_rules sup; erule supplier_step.intros)+)
qed

lemma account_handlers:
  assumes env: "system_env E" and C: "acting E C T"
  shows "keeps (isolating E T) (auth_handle E A C c1)" "keeps (isolating E T) (tenant_admin_handle E C c2)"
    "keeps (isolating E T) (audit_handle E C c3)" "keeps (isolating E T) (notification_handle E A C c4)"
    "keeps (isolating E T) (media_handle E A C c5)"
proof -
  from env C have T: "plain_tenant T" "tenant_id C = T"
    by (auto simp: system_env_def acting_def dest: class_validator.uuid_plain)
  have usr: "keeps (isolating E T) m" if "\<And>w r w'. m w = (r, w') \<Longrightarrow> user_step E T w w'" for m :: "(world, 'b) act"
    by (rule of_step [OF that], assumption) (blast intro: user_isolated [OF env _ T(1)])
  have adm: "keeps (isolating E T) m" if "\<And>w r w'. m w = (r, w') \<Longrightarrow> admin_step E T w w'" for m :: "(world, 'b) act"
    using that by (intro usr us_admin)
  show "keeps (isolating E T) (auth_handle E A C c1)"
  proof (cases c1)
    case AuthMe
    then show ?thesis
      by (cases "hc_user C") (simp_all add: T(2) isolation.keeps_throw, intro handler_rules adm, erule us_show)
  next
    case (AuthRegister dto)
    then show ?thesis by (simp add: T(2)) (intro handler_rules usr; erule us_register)
  next
    case (AuthLogin dto)
    then show ?thesis by (simp add: T(2)) (intro handler_rules adm; erule us_login)
  next
    case (AuthRefresh token)
    then show ?thesis by (simp add: T(2)) (intro handler_rules adm; erule us_refresh)
  qed
  show "keeps (isolating E T) (tenant_admin_handle E C c2)"
  proof (cases c2)
    case AdminGetSettings
    then show ?thesis by (simp add: getSettings_def) (intro handler_rules of_reading footprint_rules)
  next
    case (AdminUpdateSettings config)
    have "keeps (isolating E T) (updateSettings E (audit_store C) T config)"
      by (auto simp: isolating_def intro!: keepsI settings_isolated [OF env])
    with AdminUpdateSettings show ?thesis by (simp add: T(2)) (intro handler_rules)
  next
    case (AdminInviteUser dto)
    then show ?thesis by (simp add: T(2)) (intro handler_rules adm; erule us_invite)
  next
    case (AdminUpdateUserRole i role)
    then show ?thesis by (simp add: T(2)) (intro handler_rules adm; erule us_role)
  qed
  show "keeps (isolating E T) (audit_handle E C c3)"
    by (cases c3) (simp_all add: findLogs_def findEntityLogs_def assertDateRange_def,
      (intro handler_rules of_reading footprint_rules)+)
  have notif: "keeps (isolating E T) m" if "\<And>w r w'. m w = (r, w') \<Longrightarrow> notification_step E T w w'" for m :: "(world, 'b) act"
    by (rule of_step [OF that], assumption) (blast intro: table_isolated(4) [OF env])
  show "keeps (isolating E T) (notification_handle E A C c4)"
    by (cases c4) (simp_all add: T(2), (intro handler_rules notif; erule notification_step.intros)+)
  have med: "keeps (isolating E T) m" if "\<And>w r w'. m w = (r, w') \<Longrightarrow> media_step E T w w'" for m :: "(world, 'b) act"
    by (rule of_step [OF that], assumption) (blast intro: table_isolated(5) [OF env])
  show "keeps (isolating E T) (media_handle E A C c5)"
  proof (cases c5)
    case (MediaUpload upload)
    have "keeps (isolating E T) (uploadFile E (am_uuid A) T f)" for f
      by (rule med) (erule ms_upload)
    with MediaUpload show ?thesis
      by (cases upload) (simp_all add: T(2) isolation.keeps_throw handler_rules(1))
  qed (simp_all add: T(2), (intro handler_rules med; erule media_step.intros)+)
qed

lemma tenant_handler:
  assumes env: "system_env E" shows "keeps (isolating E T) (tenant_handle E c)"
proof -
  from env have db: "repository tenant_entity (tenantOrm E)" by (simp add: system_env_def)
  have reg: "keeps (isolating E T) m" if "\<And>w r w'. m w = (r, w') \<Longrightarrow> \<exists>i. registry_step E i w w'" for m :: "(world, 'b) act"
  proof (rule of_step [OF that])
    fix w w' assume inv: "system_inv E w" and "\<exists>i. registry_step E i w w'"
    then obtain i where s: "registry_step E i w w'" by blast
    from inv tenant_service.step_inv [OF registry_service [OF db] s] registry_footprint [OF s] show "isolated E T w w'"
      by (intro registry_isolated [OF env inv]) (simp_all add: system_inv_def)
  qed
  have created: "\<exists>i. registry_step E i w w'" if "tenant_create E dto w = (r, w')" for dto w r w'
    using that by (cases r) (blast intro: reg_created reg_create_failed)+
  show ?thesis
    by (cases c) (simp_all, (intro handler_rules reg; (erule created | rule exI, erule registry_step.intros(3-)))+)
qed

lemma status_isolated:
  assumes "system_env E" and inv: "system_inv E w" and "updateTenantStatus E i status w = (r, w')"
  shows "isolated E T w w'"
  using status_footprint [OF assms(1) _ assms(3)] inv by (intro registry_isolated [OF assms(1,2)]) (simp_all add: system_inv_def)

lemma api_isolated:
  assumes env: "system_env E" and C: "acting E C T" and A: "sequential (am_stock A)"
    and c: "\<And>dto. c \<noteq> SystemAdminCall (AdminCreateTenant dto)"
  shows "keeps (isolating E T) (api_handle E A C c)"
proof (cases c)
  case (SystemAdminCall x)
  then obtain i status where x: "x = AdminUpdateTenantStatus i status" using c by (cases x) auto
  have "keeps (isolating E T) (updateTenantStatus E i status)"
    by (auto simp: isolating_def intro!: keepsI status_isolated [OF env])
  then show ?thesis by (simp add: SystemAdminCall x) (intro handler_rules)
qed (simp_all add: catalog_handlers [OF env C] stock_handlers [OF env C A] account_handlers [OF env C] tenant_handler [OF env]
    getHello_def getMetrics_def isolation.keeps_ret)

text \<open>A request acts in the context \<open>admit\<close> made for it.\<close>

lemma admitted_acting:
  assumes "admitted E A req c w C" and "needs_tenant c"
  shows "\<exists>T. rq_tenantHeader req = HeaderOne T \<and> acting E C T"
  using assms by (auto simp: admitted_def acting_def tenant_id_def or_default_def context_tenant_def audit_context_of_def
      truthy_def active_tenant_def)

lemma request_isolated:
  assumes env: "system_env E" and inv: "system_inv E w" and run: "serve E A req c w = (r, w')"
    and A: "sequential (am_stock A)" and T: "acts_for req c r T"
  shows "isolated E T w w'"
proof -
  from env have tdb: "repository tenant_entity (tenantOrm E)" and udb: "repository user_entity (userOrm E)"
    by (simp_all add: system_env_def)
  from run show ?thesis
    unfolding serve_def
  proof (cases rule: andThenE)
    case (err e)
    with admit_state [OF tdb err(1)] inv show ?thesis by (simp add: isolated_refl)
  next
    case (ok C w1)
    with admit_state [OF tdb ok(1)] have h: "api_handle E A C c w = (r, w')" by simp
    note C = admit_Inr [OF tdb udb ok(1)]
    show ?thesis
    proof (cases "\<exists>dto. c = SystemAdminCall (AdminCreateTenant dto)")
      case True
      then obtain dto where c: "c = SystemAdminCall (AdminCreateTenant dto)" by blast
      with h consider "w' = w" | r1 where "createTenant E (am_commit A) dto w = (r1, w')"
          "\<And>t. r1 = Inr t \<Longrightarrow> r = Inr (Message (js ''Tenant provisioned successfully'') [(''tenantId'', JStr (t_id t))])"
        by (auto simp: answers_def ret_eq dest!: with_valid_keeps elim!: andThenE)
      then show ?thesis
      proof cases
        case (2 r1)
        show ?thesis
        proof (cases r1)
          case (Inl e)
          with 2(1) have "w' = w" by (auto simp: createTenant_def flow_simps dest: transaction_Inl)
          with inv show ?thesis by (simp add: isolated_refl)
        next
          case (Inr t)
          with 2(2) T c have "T = t_id t" by auto
          with provisioning_isolated [OF env inv] 2(1) Inr show ?thesis by simp
        qed
      qed (simp add: inv isolated_refl)
    next
      case other: False
      show ?thesis
      proof (cases "needs_tenant c")
        case True
        from admitted_acting [OF C True] obtain T' where T': "rq_tenantHeader req = HeaderOne T'" "acting E C T'" by blast
        with T True other have "T' = T" by (cases "(req, c, r, T)" rule: acts_for.cases) auto
        with keepsD [OF api_isolated [OF env T'(2) A] h] other inv show ?thesis by (auto simp: isolating_def)
      next
        case False
        then consider x where "c = TenantCall x" | "c = Metrics" by (cases c) auto
        then show ?thesis
        proof cases
          case (1 x)
          with keepsD [OF tenant_handler [OF env], of x w r w'] h inv show ?thesis by (simp add: isolating_def)
        next
          case 2
          with h inv show ?thesis by (simp add: getMetrics_def ret_eq isolated_refl)
        qed
      qed
    qed
  qed
qed

section \<open>The system\<close>

lemma system_service:
  assumes env: "system_env E"
  shows "tenant_service (system_step E) system_rows owner (system_inv E)"
proof -
  have "isolated E T w w'" if "system_step E T w w'" and inv: "system_inv E w" for T w w'
    using that(1)
  proof cases
    case by_request
    then show ?thesis by (intro request_isolated [OF env inv])
  next
    case by_audit
    then show ?thesis using listener_isolated(1) [OF env inv] by blast
  next
    case by_movement
    then show ?thesis using listener_isolated(2) [OF env inv] by blast
  next
    case by_dispatch
    then show ?thesis using table_isolated(4) [OF env inv not_dispatch] by blast
  qed
  then show ?thesis by unfold_locales (simp_all add: isolated_def others_def)
qed

lemma mem_system: "system_env mem_env"
  by (simp add: system_env_def mem_validator.class_validator_axioms mem_objects.object_store_axioms)

interpretation system: tenant_service "system_step mem_env" system_rows owner "system_inv mem_env"
  by (rule system_service [OF mem_system])

text \<open>
  C1: Tenants are isolated. Through any history of requests to the API, of whatever kind and whoever
  sends them, and of events handled by the listeners, all services keep their invariants together
  (unique keys, no negative stock, sound cache entries, an object for every asset), and a tenant for
  which no step acted has exactly the rows it had: users, settings, catalog, warehouses, suppliers,
  stock, audit log, notifications and assets.
\<close>

theorem tenant_isolation:
  assumes "system_env E" and "history (system_step E) Ts w w'" and "system_inv E w"
  shows "system_inv E w' \<and> (T \<notin> set Ts \<longrightarrow>
    {#x \<in># mset (system_rows w'). owner x = T#} = {#x \<in># mset (system_rows w). owner x = T#})"
  using tenant_service.history_inv [OF system_service] tenant_service.history_tenant [OF system_service] assms by blast

text \<open>Two tenants in one database; an anonymous request makes a supplier of the first.\<close>

definition rival_supplier :: supplier where
  "rival_supplier = \<lparr>sup_id = js ''s1'', sup_tenantId = js ''B'', sup_companyName = js ''Acme'', sup_contactEmail = None,
     sup_contactPhone = None, sup_address = None, sup_leadTimeDays = None, sup_createdAt = 0, sup_updatedAt = 0,
     sup_deletedAt = None\<rparr>"

definition shared_world :: world where
  "shared_world = provisioned\<lparr>w_suppliers := [rival_supplier]\<rparr>"

abbreviation new_supplier_call :: api_call where
  "new_supplier_call \<equiv> SupplierCall (SupplierCreate \<lparr>cs_companyName = js ''Acme'', cs_contactEmail = None,
     cs_contactPhone = None, cs_address = None, cs_leadTimeDays = None\<rparr>)"

definition shared_after :: world where
  "shared_after = snd (serve mem_env noon (knock (js ''0'') None) new_supplier_call shared_world)"

lemma shared_inv: "system_inv mem_env shared_world"
proof -
  have parts: "w_categories provisioned = [] \<and> w_products provisioned = [] \<and> w_variants provisioned = [] \<and>
    w_warehouses provisioned = [] \<and> w_stock provisioned = [] \<and> w_notifications provisioned = [] \<and>
    w_media provisioned = [] \<and> w_redis provisioned = [] \<and> length (w_tenants provisioned) = 1 \<and>
    length (w_settings provisioned) = 1 \<and> list_all (\<lambda>s. ts_id s \<noteq> no_id) (w_settings provisioned)" by code_simp
  then have "catalog_inv mem_env shared_world"
    by (simp add: shared_world_def catalog_inv_def category_inv_def category_table_ok_def parents_ok_def products_ok_def
        variants_ok_def ids_ok_def entries_ok_def)
  moreover from parts provisioned_ok(1) have "registry_inv shared_world"
    by (auto simp: shared_world_def registry_inv_def unique_ok_def length_Suc_conv)
  moreover from parts have "ids_ok tenant_setting_entity (w_settings shared_world)"
    by (auto simp: shared_world_def ids_ok_def tenant_setting_entity_def length_Suc_conv)
  moreover have "users_ok shared_world" using provisioned_ok(2) by (simp add: shared_world_def users_ok_def)
  moreover from parts have "warehouse_inv shared_world" by (simp add: shared_world_def warehouse_inv_def)
  moreover have "supplier_inv shared_world"
    by (simp add: shared_world_def supplier_inv_def table_inv_def ids_ok_def live_key_unique_def rival_supplier_def no_id_def js_def)
  moreover from parts have "inventory_inv shared_world"
    by (simp add: shared_world_def inventory_inv_def stock_ok_def quantities_ok_def ids_ok_def unique_ok_def)
  moreover from parts have "notification_inv shared_world" "media_inv mem_env shared_world"
    by (simp_all add: shared_world_def notification_inv_def pending_unique_def media_inv_def ids_ok_def)
  ultimately show ?thesis unfolding system_inv_def by blast
qed

lemma shared_step: "system_step mem_env (js ''0'') shared_world shared_after"
proof -
  obtain r where "serve mem_env noon (knock (js ''0'') None) new_supplier_call shared_world = (r, shared_after)"
    unfolding shared_after_def by (metis prod.collapse)
  then show ?thesis
    by (rule by_request) (simp_all add: noon_def sequential_def calm_def knock_def)
qed

lemma tenant_isolation_witness:
  "{#x \<in># mset (system_rows shared_after). owner x = js ''B''#} = {#InSuppliers rival_supplier#} \<and>
   length (w_suppliers shared_after) = 2"
proof
  have "history (system_step mem_env) [js ''0''] shared_world shared_after" using shared_step by simp
  from tenant_isolation [OF mem_system this shared_inv, of "js ''B''"]
  have "{#x \<in># mset (system_rows shared_after). owner x = js ''B''#} =
    mset (filter (\<lambda>x. owner x = js ''B'') (system_rows shared_world))" by simp
  also have "filter (\<lambda>x. owner x = js ''B'') (system_rows shared_world) = [InSuppliers rival_supplier]" by code_simp
  finally show "{#x \<in># mset (system_rows shared_after). owner x = js ''B''#} = {#InSuppliers rival_supplier#}" by simp
  let ?C = "\<lparr>hc_tenantId = Some (js ''0''), hc_user = None,
    hc_audit = audit_context_of (Some (js ''0'')) None (js ''u1'') (knock (js ''0'') None)\<rparr>"
  have "active_tenant (js ''0'') provisioned"
    using shop_admitted by (auto simp: admitted_def knock_def)
  then have "admitted mem_env noon (knock (js ''0'') None) new_supplier_call shared_world ?C"
    by (auto simp: admitted_def knock_def active_tenant_def shared_world_def mem_env_def js_def noon_def request_id_def
        truthy_def plain_request_def)
  moreover have "ids_ok tenant_entity (w_tenants shared_world)" "users_ok shared_world"
    using shared_inv by (simp_all add: system_inv_def registry_inv_def)
  ultimately have "admit mem_env noon (knock (js ''0'') None) (api_route new_supplier_call) shared_world = (Inr ?C, shared_world)"
    by (intro admitted_admit) simp_all
  then have "shared_after = snd (api_handle mem_env noon ?C new_supplier_call shared_world)"
    by (simp add: shared_after_def serve_def andThen_def)
  moreover have "length (w_suppliers (snd (api_handle mem_env noon ?C new_supplier_call shared_world))) = 2" by code_simp
  ultimately show "length (w_suppliers shared_after) = 2" by simp
qed

end
