(* ===== verification/StockProgress.thy ===== *)
theory StockProgress
  imports Inventory
begin

text \<open>
  Progress of the stock operations. The outcome theorems of the inventory leave a call free to
  throw; this theory says when it may not: a call whose change stays possible, and which the
  database refuses only because another writer was faster, succeeds as soon as one of its five
  attempts finds the row undisturbed.
\<close>

section \<open>A retried call that may succeed does\<close>

lemma retry_succeeds:
  assumes k: "1 + k \<le> maxAttempts opt"
    and fails: "\<And>j e. j < k \<Longrightarrow> fst (fn (attempt_state mw fn 1 s j)) = Inl e \<Longrightarrow> retryableErrors opt e"
    and last: "\<not> isl (fst (fn (attempt_state mw fn 1 s k)))"
  shows "\<exists>n \<le> k. (\<forall>j < n. retryable_failure opt (fst (fn (attempt_state mw fn 1 s j)))) \<and>
    \<not> isl (fst (fn (attempt_state mw fn 1 s n))) \<and>
    fst (retryWithBackoff opt random mw fn s) = fn (attempt_state mw fn 1 s n)"
proof -
  let ?r = "\<lambda>j. fst (fn (attempt_state mw fn 1 s j))"
  from k have "1 \<le> maxAttempts opt" by simp
  from retry_from_decides [OF this, of fn mw s random None] obtain n where
    n: "1 + n \<le> maxAttempts opt" "\<forall>j < n. retryable_failure opt (?r j)"
      "1 + n = maxAttempts opt \<or> \<not> retryable_failure opt (?r n)"
    and run: "retry_from opt random mw fn 1 None s =
      (fn (attempt_state mw fn 1 s n), map (jitterDelay opt random) [1..<1 + n])"
    by blast
  from run have run: "fst (retryWithBackoff opt random mw fn s) = fn (attempt_state mw fn 1 s n)"
    by (simp add: retryWithBackoff_def del: upt_Suc)
  have "\<not> retryable_failure opt (?r k)"
    using last retryable_Inl [of opt "?r k"] by fastforce
  with n(2) have "n \<le> k" by (metis not_less)
  moreover have "\<not> isl (?r n)"
  proof (cases "n = k")
    case False
    with \<open>n \<le> k\<close> n(1,3) k have "n < k" "\<not> retryable_failure opt (?r n)" by auto
    with fails [of n] show ?thesis by (cases "?r n") (auto simp: retryable_failure_def)
  qed (use last in simp)
  ultimately show ?thesis using n(2) run by blast
qed

section \<open>What is needed of the surroundings\<close>

text \<open>A write the transactions ask for: of the stock level stored at the place, or of a new one in a free place.\<close>

definition legal_write :: "stock_place \<Rightarrow> stock_level list \<Rightarrow> stock_level \<Rightarrow> bool" where
  "legal_write p t row \<longleftrightarrow> stock_place row = p \<and>
     ((\<exists>y \<in> set t. sl_id y = sl_id row \<and> stock_place y = p) \<or> (sl_id row = no_id \<and> stock_view t p = None))"

text \<open>The database takes such a write, or turns it down only because the row's version changed.\<close>

definition takes_write :: "env \<Rightarrow> stock_place \<Rightarrow> world \<Rightarrow> bool" where
  "takes_write E p w \<longleftrightarrow> (\<forall>row. legal_write p (w_stock w) row \<longrightarrow> \<not> isl (o_save (stockOrm E) row (w_stock w)))"

definition only_contention :: "env \<Rightarrow> stock_place \<Rightarrow> world \<Rightarrow> bool" where
  "only_contention E p w \<longleftrightarrow> (\<forall>row e. legal_write p (w_stock w) row \<and>
     o_save (stockOrm E) row (w_stock w) = Inl e \<longrightarrow> e = OptimisticLockMismatch)"

text \<open>
  Up to attempt \<open>k\<close> (from 0) the change stays possible and writes fail only by contention; at
  attempt \<open>k\<close> the database takes the write. Commits go through.
\<close>

definition gets_through ::
  "env \<Rightarrow> surroundings \<Rightarrow> stock_place \<Rightarrow> stock_change \<Rightarrow> world \<Rightarrow> nat \<Rightarrow> bool" where
  "gets_through E S p change w k \<longleftrightarrow> k < 5 \<and> (\<forall>u. commit_error S u = None) \<and>
     takes_write E p (drift (between_attempts S) w k) \<and>
     (\<forall>j \<le> k. let v = drift (between_attempts S) w j in
        stock_ok (w_stock v) \<and> change (stock_view (w_stock v) p) \<noteq> None \<and> only_contention E p v)"

text \<open>A success: some attempt up to \<open>k\<close> moved the stock and the movement was published.\<close>

definition moved_by ::
  "surroundings \<Rightarrow> audit_context option \<Rightarrow> stock_place \<Rightarrow> stock_change \<Rightarrow> nat \<Rightarrow> world \<Rightarrow> world \<Rightarrow> bool" where
  "moved_by S ctx p change k w w' \<longleftrightarrow> (\<exists>n \<le> k. \<exists>m u.
     moves (drift (between_attempts S) w n) p change m u \<and> w' = emitted (movement_events ctx m) u)"

section \<open>Progress of a transaction\<close>

text \<open>A transaction whose change is possible throws nothing but what the write threw.\<close>

locale stock_progress = stock_operation +
  assumes tx_lost: "repository stock_level_entity (stockOrm E) \<Longrightarrow> stock_ok (w_stock w) \<Longrightarrow>
    tx E T req w = (Inl e, w') \<Longrightarrow> change req (stock_view (w_stock w) (place T req)) \<noteq> None \<Longrightarrow>
    \<exists>row. legal_write (place T req) (w_stock w) row \<and> o_save (stockOrm E) row (w_stock w) = Inl e"
begin

lemma attempt:
  assumes db: "repository stock_level_entity (stockOrm E)" and free: "\<And>u. commit_error S u = None"
    and v: "stock_ok (w_stock v)" "change req (stock_view (w_stock v) (place T req)) \<noteq> None"
      "only_contention E (place T req) v"
    and run: "transaction (commit_error S) (tx E T req) v = (r, v')"
  shows "case r of Inr a \<Rightarrow> moves v (place T req) (change req) (moved a) v'
    | Inl e \<Rightarrow> e = OptimisticLockMismatch \<and> \<not> takes_write E (place T req) v"
proof (cases r)
  case (Inl e)
  with run free obtain u where "tx E T req v = (Inl e, u)"
    by (auto simp: transaction_def split: prod.splits sum.splits)
  from tx_lost [OF db v(1) this v(2)] Inl v(3) show ?thesis
    by (auto simp: only_contention_def takes_write_def)
next
  case (Inr a)
  with tx_moves [OF db v(1)] transaction_Inr run show ?thesis by fastforce
qed

lemma retried_completes:
  assumes db: "repository stock_level_entity (stockOrm E)"
    and thru: "gets_through E S (place T req) (change req) w k"
  shows "\<exists>a u. \<exists>n \<le> k. retried S (tx E T req) w = (Inr a, u) \<and>
    moves (drift (between_attempts S) w n) (place T req) (change req) (moved a) u"
proof -
  let ?fn = "transaction (commit_error S) (tx E T req)" and ?d = "drift (between_attempts S) w"
  let ?at = "attempt_state (between_attempts S) ?fn 1 w"
  note attempt = attempt [OF db, of S "?d j" req T for j]
  have each: "case fst (?fn (?d j)) of Inr a \<Rightarrow> moves (?d j) (place T req) (change req) (moved a) (snd (?fn (?d j)))
      | Inl e \<Rightarrow> e = OptimisticLockMismatch \<and> \<not> takes_write E (place T req) (?d j)" if "j \<le> k" for j
    using that thru attempt [of j "fst (?fn (?d j))" "snd (?fn (?d j))"]
    by (auto simp: gets_through_def Let_def)
  have retry: "retryable_failure inventory_retryOptions (fst (?fn (?d j)))"
    if "j \<le> k" "isl (fst (?fn (?d j)))" for j
    using each [OF that(1)] that(2)
    by (auto simp: retryable_failure_def inventory_retryOptions_def split: sum.splits)
  have last: "\<not> isl (fst (?fn (?d k)))"
    using each [of k] thru by (auto simp: gets_through_def split: sum.splits)
  obtain n where n: "n \<le> k" "\<not> isl (fst (?fn (?d n)))" "\<forall>j < n. isl (fst (?fn (?d j)))"
    using exists_least_iff [of "\<lambda>j. \<not> isl (fst (?fn (?d j)))"] last by (metis not_le)
  have same: "?at j = ?d j" if "j \<le> n" for j
    using that
  proof (induction j rule: less_induct)
    case (less j)
    have "\<forall>i < j. retryable_failure inventory_retryOptions (fst (?fn (?at i)))"
      using less n retry by simp
    then show ?case by (rule attempt_drift)
  qed
  have "1 + n \<le> maxAttempts inventory_retryOptions"
    using n(1) thru by (simp add: gets_through_def inventory_retryOptions_def)
  moreover have "retryableErrors inventory_retryOptions e" if "j < n" "fst (?fn (?at j)) = Inl e" for j e
    using that same [of j] retry [of j] n(1) by (simp add: retryable_failure_def)
  moreover have "\<not> isl (fst (?fn (?at n)))" using same n(2) by simp
  ultimately obtain i where i: "i \<le> n" "\<not> isl (fst (?fn (?at i)))"
    "fst (retryWithBackoff inventory_retryOptions (random_draw S) (between_attempts S) ?fn w) = ?fn (?at i)"
    using retry_succeeds [where opt = inventory_retryOptions and fn = ?fn and mw = "between_attempts S"
        and s = w and k = n and random = "random_draw S"] by blast
  from i(1,2) n same have "i = n" by (metis le_neq_implies_less)
  with i same have run: "retried S (tx E T req) w = ?fn (?d n)" by (simp add: retried_def)
  obtain r u where ru: "?fn (?d n) = (r, u)" by (rule prod.exhaust)
  with n(2) obtain a where "r = Inr a" by (cases r) auto
  with each [OF n(1)] ru run n(1) show ?thesis by (intro exI [of _ a] exI [of _ u] exI [of _ n]) simp
qed

lemma call_completes:
  assumes db: "repository stock_level_entity (stockOrm E)" and ctx: "context_tenant ctx \<noteq> None"
    and thru: "gets_through E S (place T req) (change req) w k"
    and run: "andThen (retried S (tx E T req)) (\<lambda>a.
      andThen (publishStockMovement ctx (moved a)) (\<lambda>_. ret (g a))) w = (r, w')"
  shows "\<not> isl r \<and> moved_by S ctx (place T req) (change req) k w w'"
proof -
  from retried_completes [OF db thru] obtain a u n where a: "retried S (tx E T req) w = (Inr a, u)"
    and n: "n \<le> k" "moves (drift (between_attempts S) w n) (place T req) (change req) (moved a) u" by blast
  have "publishStockMovement ctx (moved a) u = (Inr (), emitted (movement_events ctx (moved a)) u)"
    using ctx by (simp add: publish_run)
  with run have "r = Inr (g a) \<and> w' = emitted (movement_events ctx (moved a)) u"
    by (simp add: andThen_ok [where m = "retried S (tx E T req)" and w = w, OF a]
        andThen_ok [where m = "publishStockMovement ctx (moved a)" and w = u] ret_eq)
  with n show ?thesis unfolding moved_by_def by auto
qed

end

section \<open>The four transactions make progress\<close>

lemma existing_tx_lost:
  assumes db: "repository stock_level_entity (stockOrm E)" and ok: "stock_ok (w_stock w)"
    and enacts: "enacts guard update change"
    and run: "existing_tx E k missing guard refusal update sku w = (Inl e, w')"
    and possible: "change (stock_view (w_stock w) k) \<noteq> None"
  shows "\<exists>row. legal_write k (w_stock w) row \<and> o_save (stockOrm E) row (w_stock w) = Inl e"
proof -
  obtain T v h where k: "k = (T, v, h)" by (cases k)
  from run [unfolded existing_tx_def k prod.case] show ?thesis
  proof (cases rule: andThenE)
    case (err e')
    then show ?thesis by (simp add: find_one_eq)
  next
    case (ok found w1)
    note f = find_stock [OF db assms(2) ok(1)]
    with possible enacts k obtain s where s: "found = Some s" "w1 = w"
      "stock_view (w_stock w) (T, v, h) = Some (levels s)"
      "s \<in> set (w_stock w)" "stock_place s = (T, v, h)" by (cases found) (auto simp: enacts_def)
    with possible enacts k have guard: "guard s" by (auto simp: enacts_def split: if_splits)
    from ok(2) [unfolded s option.case] show ?thesis
    proof (cases rule: andThenE)
      case (err e')
      with guard show ?thesis by (simp add: ensure_Inl)
    next
      case (ok x w2)
      from ok have "o_save (stockOrm E) (update s) (w_stock w) = Inl e"
        by (auto simp: ensure_Inr save_Inl ret_eq stockRepo_def elim!: andThenE)
      moreover have "legal_write (T, v, h) (w_stock w) (update s)"
        using s enacts by (auto simp: legal_write_def enacts_def)
      ultimately show ?thesis using k by auto
    qed
  qed
qed

lemma replenish_tx_lost:
  assumes db: "repository stock_level_entity (stockOrm E)" and ok: "stock_ok (w_stock w)"
    and run: "replenish_tx E T (variant, warehouse, dto) w = (Inl e, w')"
  shows "\<exists>row. legal_write (T, v_id variant, wh_id warehouse) (w_stock w) row \<and>
    o_save (stockOrm E) row (w_stock w) = Inl e"
  using run unfolding replenish_tx_def prod.case
proof (cases rule: andThenE)
  case (err e')
  then show ?thesis by (auto simp: findOrCreate_def find_one_eq ret_eq elim!: andThenE split: option.splits)
next
  case (ok s w1)
  from ok(1) obtain found where f: "find_one (stockRepo E) (stock_at T (v_id variant) (wh_id warehouse)) w =
      (Inr found, w1)"
    and s: "s = or_default found (new_stock_level T (v_id variant) (wh_id warehouse))"
    by (auto simp: findOrCreate_def flow_simps or_default_def split: option.splits)
  note found = find_stock [OF db assms(2) f]
  let ?row = "s\<lparr>sl_availableQuantity := sl_availableQuantity s + rs_quantity dto\<rparr>"
  have "legal_write (T, v_id variant, wh_id warehouse) (w_stock w) ?row"
  proof (cases found)
    case None
    with s have "stock_place s = (T, v_id variant, wh_id warehouse)" "sl_id s = no_id"
      by (simp_all add: new_stock_level_def stock_place_def or_default_def)
    with found None show ?thesis by (simp add: legal_write_def)
  next
    case (Some x)
    with found s show ?thesis by (auto simp: legal_write_def or_default_def)
  qed
  moreover from found have w1: "w1 = w" by simp
  have "o_save (stockOrm E) ?row (w_stock w) = Inl e"
    using ok(2) [unfolded Let_def w1] by (auto simp: save_Inl ret_eq stockRepo_def elim!: andThenE)
  ultimately show ?thesis by blast
qed

interpretation deduct_progress: stock_progress deduct_tx
  "\<lambda>T (variant, warehouse, dto). (T, v_id variant, wh_id warehouse)"
  "\<lambda>(variant, warehouse, dto). deduct_change (sd_quantity dto)" "\<lambda>m. m"
  by unfold_locales
    (auto simp: deduct_tx_existing split: prod.splits dest!: existing_tx_lost [OF _ _ changes_enacted(1)])

interpretation reserve_progress: stock_progress reserve_tx
  "\<lambda>T dto. (T, sd_variantId dto, sd_warehouseId dto)" "\<lambda>dto. reserve_change (sd_quantity dto)" "\<lambda>m. m"
  by unfold_locales (auto simp: reserve_tx_existing dest!: existing_tx_lost [OF _ _ changes_enacted(2)])

interpretation release_progress: stock_progress release_tx
  "\<lambda>T dto. (T, sd_variantId dto, sd_warehouseId dto)" "\<lambda>dto. release_change (sd_quantity dto)" "\<lambda>m. m"
  by unfold_locales (auto simp: release_tx_existing dest!: existing_tx_lost [OF _ _ changes_enacted(3)])

interpretation replenish_progress: stock_progress replenish_tx
  "\<lambda>T (variant, warehouse, dto). (T, v_id variant, wh_id warehouse)"
  "\<lambda>(variant, warehouse, dto). replenish_change (rs_quantity dto)" snd
  by unfold_locales (auto split: prod.splits dest: replenish_tx_lost)

lemma validated_known:
  assumes dbs: "repository variant_entity (variantOrm E)" "repository warehouse_entity (warehouseOrm E)"
    and known: "known_place T vi hi w"
  shows "\<exists>v h. both b (variant_findOneById E T vi) (warehouse_findOne E T hi) w = (Inr (v, h), w) \<and>
    v_id v = vi \<and> wh_id h = hi"
proof -
  obtain r w' where run: "both b (variant_findOneById E T vi) (warehouse_findOne E T hi) w = (r, w')"
    by (rule prod.exhaust)
  with validated [OF dbs run] known show ?thesis by (cases r) auto
qed

section \<open>Properties\<close>


text \<open>
  A database in which another session is writing a stock level as long as its version is odd, and
  turns every other write down meanwhile; between two attempts that session takes two items and
  is done.
\<close>

lemma contended_repository:
  "repository M db \<Longrightarrow> repository M (db\<lparr>o_save := \<lambda>r t. if busy t then Inl e else o_save db r t\<rparr>)"
  unfolding repository_def by (simp split: if_split)

definition contended_env :: env where
  "contended_env = mem_env\<lparr>stockOrm := (mem_orm stock_level_entity)\<lparr>o_save := \<lambda>r t.
     if list_ex (\<lambda>x. odd (sl_version x)) t then Inl OptimisticLockMismatch
     else mem_save stock_level_entity r t\<rparr>\<rparr>"

definition contended :: surroundings where
  "contended = calm\<lparr>between_attempts := \<lambda>_ w. w\<lparr>w_stock := map (\<lambda>x.
     x\<lparr>sl_availableQuantity := sl_availableQuantity x - 2, sl_version := Suc (sl_version x)\<rparr>) (w_stock w)\<rparr>\<rparr>"

definition contended_stock :: world where
  "contended_stock = sample_stock\<lparr>w_stock := map (\<lambda>x. x\<lparr>sl_version := 1\<rparr>) (w_stock sample_stock)\<rparr>"

lemma contended_gets_through: "gets_through contended_env contended sample_place (deduct_change 3) contended_stock 1"
proof -
  have at: "j \<le> 1 \<longleftrightarrow> j = 0 \<or> j = 1" for j :: nat by auto
  show ?thesis
    unfolding gets_through_def at
    by (auto simp: contended_def calm_def contended_env_def contended_stock_def sample_stock_def takes_write_def
        stock_ok_def ids_ok_def unique_ok_def no_id_def js_def only_contention_def stock_view_def stock_place_def
        levels_def deduct_change_def mem_save_def Let_def legal_write_def new_stock_level_def)
qed

lemma contended_known: "known_place (js ''A'') (js ''V'') (js ''H'') contended_stock"
  by (simp add: known_place_def contended_stock_def sample_stock_def new_variant_def new_warehouse_def)

lemma contended_engines:
  "repository stock_level_entity (stockOrm contended_env)" "repository variant_entity (variantOrm contended_env)"
  "repository warehouse_entity (warehouseOrm contended_env)"
proof -
  have "o_save (mem_orm stock_level_entity) = mem_save stock_level_entity" by (simp add: mem_orm_def)
  with contended_repository [OF stock_level_mem.repository_axioms,
      of "list_ex (\<lambda>x. odd (sl_version x))" OptimisticLockMismatch]
  show "repository stock_level_entity (stockOrm contended_env)" by (simp add: contended_env_def cong del: if_weak_cong)
qed (simp_all add: contended_env_def)


end
