(* ===== verification/Coherence.thy ===== *)
theory Coherence
  imports Footprint
begin

text \<open>
  The product cache. \<open>ProductService.findOne\<close> answers from Redis when it can; this theory shows
  when that answer is the one PostgreSQL would have given: as long as the evictions that follow
  the writes reach Redis, no history of catalog calls leaves a product row in the cache that
  differs from the stored one. What a cached product carries beside its own row, its
  variants, is not kept current by any call.
\<close>

section \<open>Current entries\<close>

definition current_entry :: "product list \<Rightarrow> jstring \<Rightarrow> cached \<Rightarrow> bool" where
  "current_entry t k v \<longleftrightarrow> (\<forall>T i. plain_tenant T \<longrightarrow> k = product_key T i \<longrightarrow>
     (\<exists>e. v = CachedProduct e \<and> pe_row e \<in> set t \<and> p_id (pe_row e) = i \<and> p_tenantId (pe_row e) = T \<and>
       p_deletedAt (pe_row e) = None))"

definition current_but :: "jstring set \<Rightarrow> world \<Rightarrow> bool" where
  "current_but K w \<longleftrightarrow> entries_ok (\<lambda>k v. k \<in> K \<or> current_entry (w_products w) k v) (w_redis w)"

abbreviation current :: "world \<Rightarrow> bool" where
  "current \<equiv> current_but {}"

text \<open>An eviction reaches Redis.\<close>

definition evicts :: "env \<Rightarrow> bool" where
  "evicts E \<longleftrightarrow> (\<forall>ks st. \<exists>st'. rd_del (redis E) ks st = (Inr (), st'))"

lemma current_cache_only: "current_but K w \<Longrightarrow> cache_only w w' \<Longrightarrow> current_but K w'"
  unfolding current_but_def using cache_only_rows [of w w'] by auto

lemma current_tail: "current_but K w \<Longrightarrow> keeps cache_only m \<Longrightarrow> m w = (r, w') \<Longrightarrow> current_but K w'"
  by (blast intro: current_cache_only dest: keepsD)

lemma category_key_no_product:
  assumes "plain_tenant T" and "k \<in> category_keys E T" and "plain_tenant T'"
  shows "k \<noteq> product_key T' i"
  using category_keys_no_product [OF assms(1,2), of E "{}" "{}" "{}" "CachedProducts undefined"] assms(3)
  unfolding product_entry_def by blast

text \<open>Values stored under other keys do not matter.\<close>

lemma current_stores:
  assumes cur: "current w" and st: "stores_only K (w_redis w) (w_redis w')" and same: "w_products w' = w_products w"
    and K: "\<And>k T i. k \<in> K \<Longrightarrow> plain_tenant T \<Longrightarrow> k \<noteq> product_key T i"
  shows "current w'"
proof -
  have "current_entry (w_products w) k v" if "holds_value (w_redis w') k v" for k v
  proof (cases "k \<in> K")
    case True
    with K show ?thesis unfolding current_entry_def by blast
  next
    case False
    with st that cur show ?thesis unfolding stores_only_def current_but_def entries_ok_iff by blast
  qed
  with same show ?thesis by (simp add: current_but_def entries_ok_iff)
qed

lemma current_category_effect:
  assumes "current w" and "plain_tenant T" and "category_effect E T w w'"
  shows "current w'"
  using assms(3) category_key_no_product [OF assms(2)]
  by (intro current_stores [OF assms(1), of "category_keys E T"]) (auto simp: category_effect_def)

text \<open>A write of one product: every other entry stays current.\<close>

lemma current_write:
  assumes cur: "current w" and ids: "ids_ok product_decl (w_products w)"
    and own: "\<And>p. p \<in> set (w_products w) \<Longrightarrow> p_id p = i \<Longrightarrow> p_tenantId p = T"
    and rest: "\<And>p. p \<in> set (w_products w) \<Longrightarrow> p_id p \<noteq> i \<Longrightarrow> p \<in> set (w_products w')"
    and redis: "w_redis w' = w_redis w"
  shows "current_but {product_key T i} w'"
proof -
  have "current_entry (w_products w') k v"
    if "current_entry (w_products w) k v" "k \<noteq> product_key T i" for k v
    using that own rest unfolding current_entry_def by metis
  with cur show ?thesis unfolding current_but_def entries_ok_def redis by blast
qed

lemma evicted:
  assumes R: "redis_server (redis E) glob rank" and "evicts E" and "current_but {k} w"
    and run: "cache_del (redis E) k w = (r, w')"
  shows "current w'"
proof -
  from assms(2) obtain st where del: "rd_del (redis E) [k] (w_redis w) = (Inr (), st)"
    unfolding evicts_def by blast
  with run have w': "w' = w\<lparr>w_redis := st\<rparr>" by (simp add: cache_del_def)
  have gone: "map_of st k = None" using redis_server.del_removes [OF R del] by simp
  have "entries_ok (\<lambda>k' v. k' \<in> {k} \<or> current_entry (w_products w) k' v) st"
    using cache_service.sub_entries [OF redis_server.service [OF R]] redis_server.del_sub [OF R del] assms(3)
    by (simp add: current_but_def)
  then have "current_entry (w_products w) k' v" if "map_of st k' = Some (v, ttl)" for k' v ttl
    using that gone by (cases "k' = k") (auto simp: entries_ok_def)
  then show ?thesis by (simp add: w' current_but_def entries_ok_def)
qed

section \<open>The calls\<close>

text \<open>
  A call of the catalog for a tenant; the two product calls that evict are made in a request
  whose audit context is set, as every request that reaches a controller is.
\<close>

inductive catalog_call :: "env \<Rightarrow> uuid \<Rightarrow> world \<Rightarrow> world \<Rightarrow> bool" for E :: env where
  call_category: "category_step E T w w' \<Longrightarrow> catalog_call E T w w'"
| call_variant: "variant_step E T w w' \<Longrightarrow> catalog_call E T w w'"
| call_create: "product_create E ctx T dto w = (r, w') \<Longrightarrow> catalog_call E T w w'"
| call_list: "product_findAll E T query w = (r', w') \<Longrightarrow> catalog_call E T w w'"
| call_find: "product_findOne E T i w = (r, w') \<Longrightarrow> catalog_call E T w w'"
| call_update: "context_tenant ctx \<noteq> None \<Longrightarrow> product_update E ctx T i dto' w = (r, w') \<Longrightarrow> catalog_call E T w w'"
| call_remove: "context_tenant ctx \<noteq> None \<Longrightarrow> product_remove E ctx T i w = (r'', w') \<Longrightarrow> catalog_call E T w w'"

lemma catalog_call_step: "plain_tenant T \<Longrightarrow> catalog_call E T w w' \<Longrightarrow> catalog_step E T w w'"
  by (erule catalog_call.cases) (auto intro: catalog_step.intros product_step.intros)

lemma current_category_call:
  assumes R: "redis_server (redis E) glob rank" and "plain_tenant T" and "current w"
    and run: "category_findOne E T i w = (r, w')"
  shows "current w'"
  using current_category_effect [OF assms(3,2) category_step_effect [OF R category_step.cat_findOne [OF run]]] .

lemma current_findOne:
  assumes pdb: "repository product_decl (productOrm E)" and R: "redis_server (redis E) glob rank"
    and T: "plain_tenant T" and cur: "current w" and run: "product_findOne E T i w = (r, w')"
  shows "current w'"
proof -
  from cache_service.get_run [OF redis_server.service [OF R], of "product_key T i" w] obtain cached where
    get: "cache_get (redis E) (product_key T i) w = (Inr cached, w)" by blast
  note run = run [unfolded product_findOne_def Let_def
    andThen_ok [where m = "cache_get (redis E) (product_key T i)" and w = w, OF get]]
  show ?thesis
  proof (cases cached)
    case (Some c)
    with run cur show ?thesis by (cases c) (simp_all add: ret_eq throw_eq)
  next
    case None
    from run [unfolded None option.case] show ?thesis
    proof (cases rule: andThenE)
      case (err e)
      with find_or_throw_state [OF err(1)] cur show ?thesis by simp
    next
      case (ok row w2)
      from repository.find_or_throw_Inr [OF pdb ok(1)] have row: "w2 = w" "row \<in> set (w_products w)"
        "p_id row = i" "p_tenantId row = T" "p_deletedAt row = None" by auto
      let ?e = "load_product E w row"
      obtain u w3 where set: "cache_set (redis E) (product_key T i) (CachedProduct ?e) CACHE_TTL_PRODUCT w = (u, w3)"
        by (rule prod.exhaust)
      have "current_entry (w_products w) (product_key T i) (CachedProduct ?e)"
        unfolding current_entry_def
      proof (intro allI impI)
        fix T' i' assume "plain_tenant T'" "product_key T i = product_key T' i'"
        with key_of_product(1) [OF T, of T' i i'] have "T' = T" "i' = i" by auto
        with row show "\<exists>e. CachedProduct ?e = CachedProduct e \<and> pe_row e \<in> set (w_products w) \<and>
            p_id (pe_row e) = i' \<and> p_tenantId (pe_row e) = T' \<and> p_deletedAt (pe_row e) = None"
          by (simp add: load_product_def)
      qed
      with cache_service.set_entries [OF redis_server.service [OF R] _ _ set, of "current_entry (w_products w)"] cur
      have "entries_ok (current_entry (w_products w)) (w_redis w3)" by (simp add: current_but_def)
      moreover have "u = Inr () \<and> w_products w3 = w_products w"
        using cache_set_stores [OF R set, of UNIV] set by (auto simp: cache_set_def split: prod.splits sum.splits)
      moreover from ok(2) [unfolded row(1) andThen_gets] set have "w' = w3"
        using calculation(2) by (simp add: andThen_def ret_def)
      ultimately show ?thesis by (simp add: current_but_def)
    qed
  qed
qed

text \<open>Saving a product: the row alone is written.\<close>

lemma save_product_keeps:
  assumes pdb: "repository product_decl (productOrm E)" and run: "save_product E e w = (r, w')"
  shows "w_redis w' = w_redis w \<and> (\<forall>p \<in> set (w_products w). p_id p \<noteq> p_id (pe_row e) \<longrightarrow> p \<in> set (w_products w'))"
proof (cases "w_products w' = w_products w")
  case True
  with run show ?thesis
    by (auto simp: save_product_def split: option.splits sum.splits prod.splits rel.splits)
next
  case False
  with run obtain row x t where row: "stored_product e = Some row"
    and s: "o_save (productOrm E) row (w_products w) = Inr (x, t)" and w': "w_products w' = t" "w_redis w' = w_redis w"
    by (auto simp: save_product_def split: option.splits sum.splits prod.splits rel.splits)
  have id: "p_id row = p_id (pe_row e)"
    using row by (auto simp: stored_product_def split: rel.splits option.splits)
  have "p_id p \<noteq> p_id x" if "p \<in> set (w_products w)" "p_id p \<noteq> p_id row" for p
    using repository.save_old [OF pdb s] repository.save_new [OF pdb s] that by (cases "p_id row = no_id") (auto simp: image_iff)
  with repository.save_set [OF pdb s] id w' show ?thesis by auto
qed

lemma current_save:
  assumes pdb: "repository product_decl (productOrm E)" and cur: "current w" and ids: "ids_ok product_decl (w_products w)"
    and own: "\<And>p. p \<in> set (w_products w) \<Longrightarrow> p_id p = p_id (pe_row e) \<Longrightarrow> p_tenantId p = T"
    and run: "save_product E e w = (r, w')"
  shows "current_but {product_key T (p_id (pe_row e))} w'"
  using save_product_keeps [OF pdb run] by (intro current_write [OF cur ids own]) auto

text \<open>What follows a write in a request with a tenant: record, evict, clear the listings.\<close>

lemma record_and_evict:
  assumes R: "redis_server (redis E) glob rank" and ev: "evicts E" and ctx: "context_tenant ctx \<noteq> None"
    and cur: "current_but {product_key T i} w" and tail: "keeps cache_only m"
    and run: "andThen (audit_record ctx input) (\<lambda>_. andThen (cache_del (redis E) (product_key T i)) (\<lambda>_. m)) w = (r, w')"
  shows "current w'"
proof -
  from ctx obtain w1 where a: "audit_record ctx input w = (Inr (), w1)" by (auto simp: audit_record_run)
  have "current_but {product_key T i} w1" by (rule current_tail [OF cur audit_cache_only a])
  obtain u w2 where d: "cache_del (redis E) (product_key T i) w1 = (u, w2)" by (rule prod.exhaust)
  have cur2: "current w2" by (rule evicted [OF R ev \<open>current_but {product_key T i} w1\<close> d])
  have "u = Inr ()" using d by (auto simp: cache_del_def split: prod.splits sum.splits)
  with run d have "m w2 = (r, w')"
    by (simp add: andThen_ok [where m = "audit_record ctx input" and w = w, OF a]
        andThen_ok [where m = "cache_del (redis E) (product_key T i)" and w = w1])
  then show ?thesis by (rule current_tail [OF cur2 tail])
qed

text \<open>A write that fails changes nothing; after one that succeeds the continuation decides.\<close>

lemma current_saved:
  assumes cur: "current w" and run: "conflict_on_unique msg (andThen (save_product E e) k) w = (r, w')"
    and after: "\<And>x v r w'. save_product E e w = (Inr x, v) \<Longrightarrow> k x v = (r, w') \<Longrightarrow> current w'"
  shows "current w'"
proof -
  from conflict_state [OF run] obtain r0 where "andThen (save_product E e) k w = (r0, w')" by blast
  then show ?thesis
  proof (cases rule: andThenE)
    case (err x)
    then have "w' = w"
      by (auto simp: save_product_def split: option.splits sum.splits prod.splits rel.splits)
    with cur show ?thesis by simp
  qed (rule after)
qed

lemma current_more:
  assumes "current w" and "set (w_products w) \<subseteq> set (w_products w')" and "w_redis w' = w_redis w"
  shows "current w'"
  using assms unfolding current_but_def entries_ok_def current_entry_def by (auto, blast)

lemma current_create:
  assumes pdb: "repository product_decl (productOrm E)" and R: "redis_server (redis E) glob rank"
    and T: "plain_tenant T" and inv: "catalog_inv E w" and cur: "current w"
    and run: "product_create E ctx T dto w = (r, w')"
  shows "current w'"
  using run unfolding product_create_def
proof (cases rule: andThenE)
  case (err e)
  from current_category_call [OF R T cur err(1)] show ?thesis .
next
  case (ok c w1)
  note cur1 = current_category_call [OF R T cur ok(1)]
  have "category_effect E T w w1" by (rule category_step_effect [OF R category_step.cat_findOne [OF ok(1)]])
  then have ids: "ids_ok product_decl (w_products w1)"
    using inv by (simp add: category_effect_def catalog_inv_def products_ok_def)
  from ok(2) show ?thesis
  proof (cases rule: andThenE)
    case (err e)
    with cur1 show ?thesis by (auto dest: assertSkuUniqueness_state)
  next
    case (ok u w2)
    from assertSkuUniqueness_state [OF ok(1)] have w2: "w2 = w1" .
    show ?thesis
    proof (rule current_saved [OF cur1 ok(2) [unfolded w2]])
      fix x v r v'
      assume s: "save_product E (new_product T dto) w1 = (Inr x, v)"
        and k: "andThen (audit_record ctx (audit_input CREATE ET_PRODUCT (p_id (pe_row x)) None
          (Some (created_values x)))) (\<lambda>_. andThen (cache_delByPattern (redis E) (productsPattern T)) (\<lambda>_. ret x)) v =
          (r, v')"
      have "current v"
        using save_product_keeps [OF pdb s] ids by (intro current_more [OF cur1]) (auto simp: ids_ok_def new_product_def)
      with k show "current v'"
        by (rule current_tail [rotated 2]) (intro cache_frame.keeps_rules audit_cache_only cache_only_delByPattern [OF R])
    qed
  qed
qed

lemma own_rows:
  assumes "known_here w T i e" and "ids_ok product_decl (w_products w)" and "p \<in> set (w_products w)" and "p_id p = i"
  shows "p_tenantId p = T"
  using assms product_place_unique [OF assms(2), of T i _ p] by (auto simp: known_product_def)

text \<open>An update, from the lookup of the new category on.\<close>

lemma current_moved:
  assumes env: "catalog_env E" and R: "redis_server (redis E) glob rank" and ev: "evicts E"
    and ctx: "context_tenant ctx \<noteq> None" and T: "plain_tenant T" and inv: "catalog_inv E w" and cur: "current w"
    and e: "known_here w T i e"
    and run: "andThen (move_product E T dto e) (\<lambda>product. conflict_on_unique product_sku_taken (
       andThen (save_product E (product_patch dto product)) (\<lambda>saved.
       andThen (audit_record ctx (audit_input UPDATE ET_PRODUCT (p_id (pe_row saved))
         (Some (product_values e)) (Some (product_values saved)))) (\<lambda>_.
       andThen (cache_del (redis E) (product_key T i)) (\<lambda>_.
       andThen (cache_delByPattern (redis E) (productsPattern T)) (\<lambda>_. ret saved)))))) w = (r, w')"
  shows "current w'"
proof -
  from env have cdb: "repository category_decl (categoryOrm E)" and pdb: "repository product_decl (productOrm E)"
    unfolding catalog_env_def by auto
  have move: "current v" if "move_product E T dto e w = (x, v)" for x v
    using that cur current_category_call [OF R T cur]
    by (auto simp: move_product_def ret_eq elim!: andThenE split: option.splits)
  from run show ?thesis
  proof (cases rule: andThenE)
    case (err x)
    from move [OF err(1)] show ?thesis .
  next
    case (ok p w1)
    from move_product_run [OF cdb R T inv e ok(1)] have p: "known_here w1 T i p" and ids: "ids_ok product_decl (w_products w1)"
      by (auto simp: catalog_advances_def catalog_inv_def products_ok_def)
    then have i: "p_id (pe_row (product_patch dto p)) = i" by (simp add: known_product_def)
    show ?thesis
    proof (rule current_saved [OF move [OF ok(1)] ok(2)])
      fix x v r v'
      assume s: "save_product E (product_patch dto p) w1 = (Inr x, v)"
        and k: "andThen (audit_record ctx (audit_input UPDATE ET_PRODUCT (p_id (pe_row x))
          (Some (product_values e)) (Some (product_values x)))) (\<lambda>_.
          andThen (cache_del (redis E) (product_key T i)) (\<lambda>_.
          andThen (cache_delByPattern (redis E) (productsPattern T)) (\<lambda>_. ret x))) v = (r, v')"
      have "current_but {product_key T i} v"
        using current_save [OF pdb move [OF ok(1)] ids _ s] own_rows [OF p ids] i by simp
      then show "current v'"
        by (rule record_and_evict [OF R ev ctx _ _ k])
          (intro cache_frame.keeps_rules cache_only_delByPattern [OF R])
    qed
  qed
qed

lemma current_update:
  assumes env: "catalog_env E" and ev: "evicts E" and ctx: "context_tenant ctx \<noteq> None"
    and T: "plain_tenant T" and inv: "catalog_inv E w" and cur: "current w"
    and run: "product_update E ctx T i dto w = (r, w')"
  shows "current w'"
proof -
  from env obtain glob rank where cdb: "repository category_decl (categoryOrm E)"
    and pdb: "repository product_decl (productOrm E)" and vdb: "repository variant_entity (variantOrm E)"
    and R: "redis_server (redis E) glob rank" unfolding catalog_env_def by blast
  note find = current_findOne [OF pdb R T cur]
  from run show ?thesis
    unfolding product_update_def Let_def
  proof (cases rule: andThenE)
    case (err e)
    from find [OF err(1)] show ?thesis .
  next
    case (ok e w1)
    from product_findOne_run [OF cdb pdb vdb R T inv ok(1)] have e: "known_here w1 T i e"
      and inv1: "catalog_inv E w1" by (auto simp: catalog_advances_def)
    from ok(2) current_moved [OF env R ev ctx T inv1 find [OF ok(1)] e] find [OF ok(1)] show ?thesis
      unfolding andThen_ensure by (auto split: if_splits)
  qed
qed

lemma current_remove:
  assumes env: "catalog_env E" and ev: "evicts E" and ctx: "context_tenant ctx \<noteq> None"
    and T: "plain_tenant T" and inv: "catalog_inv E w" and cur: "current w"
    and run: "product_remove E ctx T i w = (r, w')"
  shows "current w'"
proof -
  from env obtain glob rank where cdb: "repository category_decl (categoryOrm E)"
    and pdb: "repository product_decl (productOrm E)" and vdb: "repository variant_entity (variantOrm E)"
    and R: "redis_server (redis E) glob rank" unfolding catalog_env_def by blast
  note find = current_findOne [OF pdb R T cur]
  from run show ?thesis
    unfolding product_remove_def
  proof (cases rule: andThenE)
    case (err e)
    from find [OF err(1)] show ?thesis .
  next
    case (ok e w1)
    note cur1 = find [OF ok(1)]
    from product_findOne_run [OF cdb pdb vdb R T inv ok(1)] have e: "known_here w1 T i e"
      and ids: "ids_ok product_decl (w_products w1)" by (auto simp: catalog_advances_def catalog_inv_def products_ok_def)
    then have i: "p_id (pe_row e) = i" by (simp add: known_product_def)
    let ?rest = "andThen (soft_remove (productRepo E) (\<lambda>p. p_id p = i)) (\<lambda>_.
      andThen (audit_record ctx (audit_input DELETE_PRODUCT ET_PRODUCT i (Some (removed_values e)) None)) (\<lambda>_.
      andThen (cache_del (redis E) (product_key T i)) (\<lambda>_. cache_delByPattern (redis E) (productsPattern T))))"
    from ok(2) have "w' = w1 \<or> ?rest w1 = (r, w')"
      by (auto simp: count_rows_def andThen_gets andThen_ensure i split: if_splits)
    then show ?thesis
    proof
      assume "?rest w1 = (r, w')"
      then show ?thesis
      proof (cases rule: andThenE)
        case (err x)
        with cur1 show ?thesis by (simp add: soft_remove_Inl)
      next
        case (ok n w2)
        then obtain t where s: "o_soft_remove (productOrm E) (\<lambda>p. p_id p = i) (w_products w1) = Inr (n, t)"
          and w2: "w2 = w1\<lparr>w_products := t\<rparr>" by (auto simp: soft_remove_Inr productRepo_def)
        from repository.remove_rows [OF pdb s] obtain g where g: "mset t = image_mset g (mset (w_products w1))"
          and gr: "\<And>x. p_id x \<noteq> i \<Longrightarrow> g x = x" by auto
        from arg_cong [where f = set_mset, OF g] have "set t = g ` set (w_products w1)" by simp
        then have "p \<in> set (w_products w2)" if "p \<in> set (w_products w1)" "p_id p \<noteq> i" for p
          using gr [OF that(2)] that(1) by (force simp: w2)
        from current_write [OF cur1 ids own_rows [OF e ids] this] have "current_but {product_key T i} w2"
          by (simp add: w2)
        then show ?thesis by (rule record_and_evict [OF R ev ctx _ cache_only_delByPattern [OF R] ok(2)])
      qed
    qed (use cur1 in simp)
  qed
qed

lemma current_variant_step:
  assumes "variant_step E T w w'" and "current w"
  shows "current w'"
  using writes_onlyD [OF variant_footprint [OF assms(1)], of ProductTable]
    writes_onlyD [OF variant_footprint [OF assms(1)], of RedisStore] assms(2)
  by (simp add: current_but_def)

lemma current_findAll:
  assumes R: "redis_server (redis E) glob rank" and T: "plain_tenant T" and cur: "current w"
    and run: "product_findAll E T query w = (r, w')"
  shows "current w'"
proof -
  let ?k = "productsList_key E T (product_query_json query)"
  from cache_service.get_run [OF redis_server.service [OF R], of ?k w] obtain cached where
    get: "cache_get (redis E) ?k w = (Inr cached, w)" by blast
  note run = run [unfolded product_findAll_def Let_def andThen_ok [where m = "cache_get (redis E) ?k" and w = w, OF get]]
  have stored: "current v" if "cache_set (redis E) ?k c ttl w = (x, v)" for c ttl x v
    using cache_set_stores [OF R that, of "{?k}"] key_of_product(2) [OF _ T]
    by (auto intro!: current_stores [OF cur, of "{?k}"] dest: sym)
  show ?thesis
  proof (cases cached)
    case (Some c)
    with run cur show ?thesis by (cases c) (simp_all add: ret_eq throw_eq)
  next
    case None
    from run [unfolded None option.case get_many_and_count_def andThen_gets Let_def prod.case] show ?thesis
      by (cases rule: andThenE) (auto simp: ret_eq dest: stored)
  qed
qed

definition plain_call :: "env \<Rightarrow> uuid \<Rightarrow> world \<Rightarrow> world \<Rightarrow> bool" where
  "plain_call E T w w' \<longleftrightarrow> plain_tenant T \<and> catalog_call E T w w'"

definition coherent :: "env \<Rightarrow> world \<Rightarrow> bool" where
  "coherent E w \<longleftrightarrow> catalog_inv E w \<and> current w"

lemma plain_call_coherent:
  assumes env: "catalog_env E" and ev: "evicts E" and step: "plain_call E T w w'" and coh: "coherent E w"
  shows "coherent E w' \<and> other_rows T w' = other_rows T w"
proof -
  from step have T: "plain_tenant T" and call: "catalog_call E T w w'" by (simp_all add: plain_call_def)
  from coh have inv: "catalog_inv E w" and cur: "current w" by (simp_all add: coherent_def)
  from env obtain glob rank where pdb: "repository product_decl (productOrm E)" and R: "redis_server (redis E) glob rank"
    unfolding catalog_env_def by blast
  have "current w'"
    using call
  proof cases
    case call_category
    then show ?thesis by (intro current_category_effect [OF cur T, of E] category_step_effect [OF R])
  next
    case call_variant
    then show ?thesis by (rule current_variant_step [OF _ cur])
  next
    case call_create
    then show ?thesis by (rule current_create [OF pdb R T inv cur])
  next
    case call_list
    then show ?thesis by (rule current_findAll [OF R T cur])
  next
    case call_find
    then show ?thesis by (rule current_findOne [OF pdb R T cur])
  next
    case call_update
    then show ?thesis by (rule current_update [OF env ev _ T inv cur])
  next
    case call_remove
    then show ?thesis by (rule current_remove [OF env ev _ T inv cur])
  qed
  with catalog_step_advances [OF env catalog_call_step [OF T call] inv] show ?thesis
    by (simp add: coherent_def catalog_advances_def)
qed

lemma coherent_service:
  assumes "catalog_env E" and "evicts E"
  shows "tenant_service (plain_call E) catalog_rows row_tenant (coherent E)"
  using plain_call_coherent [OF assms] by unfold_locales (simp_all add: other_rows_def)

lemma mem_evicts [simp]: "evicts mem_env"
  by (simp add: evicts_def mem_env_def mem_redis_def)

interpretation coherence: tenant_service "plain_call mem_env" catalog_rows row_tenant "coherent mem_env"
  by (rule coherent_service) simp_all

section \<open>Properties\<close>

text \<open>The row of an answer, and the lookup without a cache.\<close>

definition answered_row :: "exn + product_entity \<Rightarrow> exn + product" where
  "answered_row r = (case r of Inl e \<Rightarrow> Inl e | Inr x \<Rightarrow> Inr (pe_row x))"

definition uncached_findOne :: "env \<Rightarrow> uuid \<Rightarrow> uuid \<Rightarrow> (world, product) act" where
  "uncached_findOne E tenantId i = find_or_throw (productRepo E)
     (\<lambda>p. p_id p = i \<and> p_tenantId p = tenantId \<and> p_deletedAt p = None) (product_not_found tenantId i)"

lemma coherent_lookup:
  assumes env: "catalog_env E" and T: "plain_tenant T" and coh: "coherent E w"
  shows "answered_row (fst (product_findOne E T i w)) = fst (uncached_findOne E T i w)"
proof -
  from env obtain glob rank where pdb: "repository product_decl (productOrm E)" and R: "redis_server (redis E) glob rank"
    unfolding catalog_env_def by blast
  let ?look = "uncached_findOne E T i"
  from cache_service.get_run [OF redis_server.service [OF R], of "product_key T i" w] obtain cached where
    get: "cache_get (redis E) (product_key T i) w = (Inr cached, w)"
    and stored: "cached = None \<or> (\<exists>c ttl. cached = Some c \<and> map_of (w_redis w) (product_key T i) = Some (c, ttl))"
    by blast
  obtain r u where look: "?look w = (r, u)" by (rule prod.exhaust)
  then have u: "u = w" unfolding uncached_findOne_def by (rule find_or_throw_state)
  note findOne = product_findOne_def Let_def
    andThen_ok [where m = "cache_get (redis E) (product_key T i)" and w = w, OF get]
  show ?thesis
  proof (cases cached)
    case None
    have "snd (cache_set (redis E) k c ttl w) = v \<Longrightarrow> fst (cache_set (redis E) k c ttl w) = Inr ()" for k c ttl v
      by (simp add: cache_set_def split: prod.splits sum.splits)
    then have set: "\<exists>v. cache_set (redis E) k c ttl w = (Inr (), v)" for k c ttl
      by (metis prod.collapse)
    show ?thesis
    proof (cases r)
      case (Inl e)
      with look None show ?thesis
        by (simp add: product_findOne_def Let_def get answered_row_def uncached_findOne_def andThen_def)
    next
      case (Inr row)
      obtain v where "cache_set (redis E) (product_key T i) (CachedProduct (load_product E w row)) CACHE_TTL_PRODUCT w =
        (Inr (), v)" using set by blast
      with look None Inr u show ?thesis
        by (simp add: product_findOne_def Let_def get answered_row_def uncached_findOne_def andThen_def gets_def ret_def load_product_def)
    qed
  next
    case (Some c)
    with stored coh T obtain e where e: "c = CachedProduct e" "pe_row e \<in> set (w_products w)"
      "p_id (pe_row e) = i" "p_tenantId (pe_row e) = T" "p_deletedAt (pe_row e) = None"
      unfolding coherent_def current_but_def entries_ok_def current_entry_def by blast
    have ids: "ids_ok product_decl (w_products w)"
      using coh by (simp add: coherent_def catalog_inv_def products_ok_def)
    have "r = Inr (pe_row e)"
    proof (cases r)
      case (Inl x)
      with repository.find_or_throw_Inl [OF pdb look [unfolded uncached_findOne_def Inl]] e show ?thesis by auto
    next
      case (Inr row)
      with repository.find_or_throw_Inr [OF pdb look [unfolded uncached_findOne_def Inr]] e ids show ?thesis
        by (auto simp: ids_ok_def distinct_map dest: inj_onD)
    qed
    with Some e look show ?thesis by (simp add: findOne answered_row_def ret_def)
  qed
qed


text \<open>A product is created, looked up (and so cached), and renamed.\<close>

definition product_seen :: world where
  "product_seen = snd (product_findOne mem_env (js ''A'') (js ''0'') stocked)"

definition product_renamed :: world where
  "product_renamed = snd (product_update mem_env (sample_context (js ''A'')) (js ''A'') (js ''0'')
     (rename_dto\<lparr>up_skuPrefix := None\<rparr>) product_seen)"

lemma seen_history:
  "history (plain_call mem_env) [js ''A'', js ''A'', js ''A''] empty_world product_seen"
proof -
  let ?w = "sample_created (js ''A'') (js ''Shoes'') None empty_world"
  have plain: "plain_tenant (js ''A'')" by (simp add: plain_tenant_def js_def)
  have "category_step mem_env (js ''A'') empty_world ?w"
    unfolding sample_created_def by (auto intro!: category_step.cat_create prod.collapse [symmetric])
  moreover have "catalog_call mem_env (js ''A'') ?w stocked"
    unfolding stocked_def by (auto intro!: catalog_call.call_create prod.collapse [symmetric])
  moreover have "catalog_call mem_env (js ''A'') stocked product_seen"
    unfolding product_seen_def by (auto intro!: catalog_call.call_find prod.collapse [symmetric])
  ultimately show ?thesis using plain by (auto simp: plain_call_def intro: catalog_call.intros)
qed

lemma renamed_history:
  "history (plain_call mem_env) [js ''A''] product_seen product_renamed"
proof -
  have "context_tenant (sample_context (js ''A'')) \<noteq> None" by code_simp
  then have "catalog_call mem_env (js ''A'') product_seen product_renamed"
    unfolding product_renamed_def by (auto intro!: catalog_call.call_update prod.collapse [symmetric])
  then show ?thesis by (simp add: plain_call_def plain_tenant_def js_def)
qed

lemma empty_coherent: "coherent E empty_world"
  by (simp add: coherent_def current_but_def entries_ok_def) (simp add: empty_world_def)

lemma seen_coherent: "coherent mem_env product_seen"
  using coherence.history_inv [OF seen_history empty_coherent] .


text \<open>
  C19: Evicting the product is left out of the variant service. A tenant creates a variant of a
  product somebody has looked up: the call succeeds and the variant is stored, but the
  product is still answered without it until its cache entry expires.
\<close>

theorem cached_variants_go_stale:
  "\<exists>Ts w dto v w' e. history (plain_call mem_env) Ts empty_world w \<and>
     variant_create mem_env (sample_context (js ''A'')) (js ''A'') (js ''0'') dto w = (Inr v, w') \<and>
     v \<in> set (w_variants w') \<and> v_productId v = js ''0'' \<and>
     fst (product_findOne mem_env (js ''A'') (js ''0'') w') = Inr e \<and> pe_variants e = Loaded [] \<and>
     pe_variants (load_product mem_env w' (pe_row e)) = Loaded [v]"
proof -
  let ?run = "variant_create mem_env (sample_context (js ''A'')) (js ''A'') (js ''0'') sample_variant product_seen"
  have "case ?run of (Inr v, w') \<Rightarrow> v \<in> set (w_variants w') \<and> v_productId v = js ''0'' \<and>
      (case fst (product_findOne mem_env (js ''A'') (js ''0'') w') of
         Inr e \<Rightarrow> pe_variants e = Loaded [] \<and> pe_variants (load_product mem_env w' (pe_row e)) = Loaded [v]
       | Inl _ \<Rightarrow> False)
    | _ \<Rightarrow> False"
    by code_simp
  then obtain v w' e where "?run = (Inr v, w')" "v \<in> set (w_variants w')" "v_productId v = js ''0''"
    "fst (product_findOne mem_env (js ''A'') (js ''0'') w') = Inr e" "pe_variants e = Loaded []"
    "pe_variants (load_product mem_env w' (pe_row e)) = Loaded [v]"
    by (auto split: prod.splits sum.splits)
  with seen_history show ?thesis by blast
qed

end
