(* ===== verification/PartialUpdate.thy ===== *)
theory PartialUpdate
  imports CatalogApi
begin

text \<open>
  From the body of a \<open>PATCH\<close> to the row. The update classes of products and variants are made by
  \<open>PartialType\<close>, which keeps the initial values of the class it is made from: a property the
  request leaves out still arrives with a value, and is written.
\<close>

section \<open>What arrives for a property that was not sent\<close>

lemma initial_value:
  assumes ok: "validation_pipe E rules body = Inr entity" and d: "distinct (map fr_name rules)" and r: "r \<in> set rules"
    and unsent: "map_of body (fr_name r) = None"
  shows "field_value entity (fr_name r) = fr_default r"
  using instantiate_value [OF d r, of E body] ok unsent by (simp add: validation_pipe_Inr)

lemma product_active_rule:
  "list_ex (\<lambda>r. fr_name r = js ''isActive'' \<and> fr_default r = JBool True) UpdateProductDto \<and>
   distinct (map fr_name UpdateProductDto)"
  by code_simp

lemma variant_attributes_rule:
  "list_ex (\<lambda>r. fr_name r = js ''attributes'' \<and> fr_default r = JObj []) UpdateVariantDto \<and>
   distinct (map fr_name UpdateVariantDto)"
  by code_simp

lemma unsent_isActive:
  assumes "validation_pipe E UpdateProductDto body = Inr (update_product_fields dto)"
    and "map_of body (js ''isActive'') = None"
  shows "up_isActive dto = Some True"
proof -
  from product_active_rule obtain r where r: "r \<in> set UpdateProductDto" "fr_name r = js ''isActive''"
    "fr_default r = JBool True" and d: "distinct (map fr_name UpdateProductDto)" by (auto simp: list_ex_iff)
  from initial_value [OF assms(1) d r(1)] r assms(2)
  have "field_value (update_product_fields dto) (js ''isActive'') = JBool True" by simp
  then show ?thesis by (simp add: update_product_fields_def js_def jopt_def split: option.splits)
qed

lemma unsent_attributes:
  assumes "validation_pipe E UpdateVariantDto body = Inr (update_variant_fields dto)"
    and "map_of body (js ''attributes'') = None"
  shows "uv_attributes dto = Some []"
proof -
  from variant_attributes_rule obtain r where r: "r \<in> set UpdateVariantDto" "fr_name r = js ''attributes''"
    "fr_default r = JObj []" and d: "distinct (map fr_name UpdateVariantDto)" by (auto simp: list_ex_iff)
  from initial_value [OF assms(1) d r(1)] r assms(2)
  have "field_value (update_variant_fields dto) (js ''attributes'') = JObj []" by simp
  then show ?thesis by (simp add: update_variant_fields_def js_def jopt_def attributes_json_def split: option.splits)
qed

section \<open>What is written\<close>

lemma updated_isActive:
  assumes env: "catalog_env E" and T: "plain_tenant T" and inv: "catalog_inv E w"
    and run: "product_update E ctx T i dto w = (Inr e, w')" and active: "up_isActive dto = Some a"
  shows "p_isActive (pe_row e) = a \<and> pe_row e \<in> set (w_products w')"
proof -
  from env obtain glob rank where cdb: "repository category_decl (categoryOrm E)"
    and pdb: "repository product_decl (productOrm E)" and vdb: "repository variant_entity (variantOrm E)"
    and R: "redis_server (redis E) glob rank"
    unfolding catalog_env_def by blast
  from run [unfolded product_update_def Let_def] show ?thesis
  proof (cases rule: andThenE)
    case (ok p w1)
    from product_findOne_run [OF cdb pdb vdb R T inv ok(1)] have "p_tenantId (pe_row p) = T" "pe_category p \<noteq> NotLoaded"
      by (auto simp: known_product_def)
    from product_updated [OF pdb R this(2,1), of dto ctx i w1 "Inr e" w'] ok(2) active show ?thesis
      unfolding andThen_ensure by (auto simp: or_default_def split: if_splits)
  qed simp
qed

lemma updated_attributes:
  assumes vdb: "repository variant_entity (variantOrm E)"
    and run: "variant_update E ctx T p i dto w = (Inr v, w')" and sent: "uv_attributes dto = Some fs"
  shows "v_attributes v = fs \<and> v \<in> set (w_variants w')"
proof -
  from run [unfolded variant_update_def Let_def] obtain x y u where
    s: "save (variantRepo E) (variant_patch dto x) y = (Inr v, u)" and same: "w_variants w' = w_variants u"
    by (auto simp: flow_simps save_and_record_def conflict_on_unique_Inr andThen_Inr audit_record_Inr)
  then obtain t where t: "o_save (variantOrm E) (variant_patch dto x) (w_variants y) = Inr (v, t)" "w_variants w' = t"
    by (auto simp: save_Inr variantRepo_def)
  from repository.save_cols [OF vdb t(1)] have "e_cols variant_entity v =
    e_cols variant_entity (e_set_id variant_entity (v_id v) (variant_patch dto x))" by simp
  from arg_cong [where f = v_attributes, OF this] have "v_attributes v = v_attributes (variant_patch dto x)"
    by (simp add: variant_entity_def)
  with repository.save_set [OF vdb t(1)] t(2) sent show ?thesis by (simp add: variant_patch_def Let_def)
qed

section \<open>Properties\<close>

text \<open>
  C20: A partial update is not partial. A \<open>PATCH\<close> of a product that does not mention \<open>isActive\<close>
  passes the validation pipe with \<open>isActive = true\<close>, so a deactivated product is active after any
  successful update that does not repeat \<open>isActive: false\<close>; a \<open>PATCH\<close> of a variant that does not
  mention \<open>attributes\<close> stores the empty object in their place.
\<close>

theorem partial_updates_reset:
  assumes "catalog_env E" and "plain_tenant T" and "catalog_inv E w"
  shows "(validation_pipe E UpdateProductDto body = Inr (update_product_fields dto) \<and>
      map_of body (js ''isActive'') = None \<and> product_update E ctx T i dto w = (Inr e, w') \<longrightarrow>
      p_isActive (pe_row e) \<and> pe_row e \<in> set (w_products w')) \<and>
    (validation_pipe E UpdateVariantDto body = Inr (update_variant_fields vdto) \<and>
      map_of body (js ''attributes'') = None \<and> variant_update E ctx T i j vdto w = (Inr v, w') \<longrightarrow>
      v_attributes v = [] \<and> v \<in> set (w_variants w'))"
  using updated_isActive [OF assms, of ctx i dto e w'] unsent_isActive [of E body dto]
    updated_attributes [of E ctx T i j vdto w v w' "[]"] unsent_attributes [of E body vdto] assms(1)
  by (auto simp: catalog_env_def)

text \<open>A product that is deactivated, and then renamed.\<close>

definition rename_only :: update_product_dto where
  "rename_only = \<lparr>up_name = Some (js ''Tee''), up_description = None, up_categoryId = None,
     up_skuPrefix = None, up_isActive = Some True\<rparr>"

definition deactivated :: world where
  "deactivated = snd (product_update mem_env (sample_context (js ''A'')) (js ''A'') (js ''0'')
     (rename_only\<lparr>up_name := None, up_isActive := Some False\<rparr>) stocked)"

lemma deactivated_inv: "catalog_inv mem_env deactivated"
proof -
  have "product_step mem_env (js ''A'') stocked deactivated"
    unfolding deactivated_def by (auto intro!: product_step.prod_update prod.collapse [symmetric])
  then have "catalog_step mem_env (js ''A'') stocked deactivated"
    by (auto intro!: catalog_step.of_product simp: plain_tenant_def js_def)
  with stocked_inv show ?thesis by (auto dest: catalog_step_advances [OF mem_catalog_env] simp: catalog_advances_def)
qed

lemma partial_updates_reset_witness:
  "validation_pipe mem_env UpdateProductDto [(js ''name'', JStr (js ''Tee''))] = Inr (update_product_fields rename_only) \<and>
   map p_isActive (w_products deactivated) = [False] \<and>
   (case product_update mem_env (sample_context (js ''A'')) (js ''A'') (js ''0'') rename_only deactivated of
      (Inr e, w') \<Rightarrow> p_isActive (pe_row e) \<and> pe_row e \<in> set (w_products w') \<and> map p_isActive (w_products w') = [True]
    | (Inl _, _) \<Rightarrow> False)"
proof (intro conjI)
  show v: "validation_pipe mem_env UpdateProductDto [(js ''name'', JStr (js ''Tee''))] = Inr (update_product_fields rename_only)"
    by code_simp
  show "map p_isActive (w_products deactivated) = [False]" by code_simp
  have "case product_update mem_env (sample_context (js ''A'')) (js ''A'') (js ''0'') rename_only deactivated of
      (Inr e, w') \<Rightarrow> map p_isActive (w_products w') = [True] | (Inl _, _) \<Rightarrow> False" by code_simp
  then obtain e w' where run: "product_update mem_env (sample_context (js ''A'')) (js ''A'') (js ''0'') rename_only
      deactivated = (Inr e, w')" and "map p_isActive (w_products w') = [True]"
    by (auto split: prod.splits sum.splits)
  moreover have "p_isActive (pe_row e) \<and> pe_row e \<in> set (w_products w')"
    using partial_updates_reset [OF mem_catalog_env _ deactivated_inv, of "js ''A''"
        "[(js ''name'', JStr (js ''Tee''))]" rename_only "sample_context (js ''A'')" "js ''0''" e w'] v run
    by (simp add: plain_tenant_def js_def)
  ultimately show "case product_update mem_env (sample_context (js ''A'')) (js ''A'') (js ''0'') rename_only deactivated of
      (Inr e, w') \<Rightarrow> p_isActive (pe_row e) \<and> pe_row e \<in> set (w_products w') \<and> map p_isActive (w_products w') = [True]
    | (Inl _, _) \<Rightarrow> False" by simp
qed

end
