(* ===== verification/Observability.thy ===== *)
theory Observability
  imports Http
begin

text \<open>
  Metrics and logs (\<open>src/prometheus\<close>, \<open>src/logger\<close>). The histogram of request durations is the
  sequence of observations handed to \<open>prom-client\<close>; a listener of \<open>res.once('finish')\<close> is an entry
  with the response it waits for, the request and the time its timer was started. Of the logger the
  model has what the program configures: the identifier of a request, the fields it
  prints, and the lines the TypeORM logger writes.
\<close>

section \<open>The duration of requests\<close>

text \<open>\<open>req.route?.path\<close>: no route, a string, or something else (Express also takes patterns and lists).\<close>

datatype route_path = NoRoute | RoutePath jstring | RoutePattern

record observation =
  ob_method :: jstring
  ob_route :: jstring
  ob_status_code :: jstring
  ob_seconds :: rat

record listener =
  ln_response :: nat
  ln_request :: http_request
  ln_started :: rat

record metrics =
  mt_listeners :: "listener list"
  mt_httpDuration :: "observation list"

definition HTTP_DURATION_BUCKETS :: "rat list" where
  "HTTP_DURATION_BUCKETS = [5 / 1000, 1 / 100, 25 / 1000, 5 / 100, 1 / 10, 1 / 4, 1 / 2, 1, 5 / 2]"

definition trackHttpRequest :: "rat \<Rightarrow> http_request \<Rightarrow> nat \<Rightarrow> metrics \<Rightarrow> metrics" where
  "trackHttpRequest now req res M = M\<lparr>mt_listeners := mt_listeners M @
     [\<lparr>ln_response = res, ln_request = req, ln_started = now\<rparr>]\<rparr>"

definition route_label :: "route_path \<Rightarrow> jstring" where
  "route_label route = (case route of RoutePath path \<Rightarrow> path | _ \<Rightarrow> js ''unmatched'')"

text \<open>The listener: it reads the route and the status when the response has finished.\<close>

definition stopTimer :: "rat \<Rightarrow> route_path \<Rightarrow> nat \<Rightarrow> listener \<Rightarrow> observation" where
  "stopTimer now route statusCode l = \<lparr>ob_method = rq_method (ln_request l), ob_route = route_label route,
     ob_status_code = digits statusCode, ob_seconds = now - ln_started l\<rparr>"

definition response_finished :: "rat \<Rightarrow> nat \<Rightarrow> route_path \<Rightarrow> nat \<Rightarrow> metrics \<Rightarrow> metrics" where
  "response_finished now res route statusCode M = M\<lparr>
     mt_listeners := filter (\<lambda>l. ln_response l \<noteq> res) (mt_listeners M),
     mt_httpDuration := mt_httpDuration M @
       map (stopTimer now route statusCode) (filter (\<lambda>l. ln_response l = res) (mt_listeners M))\<rparr>"

definition EXCLUDED_RAW_PATHS :: "jstring list" where
  "EXCLUDED_RAW_PATHS = [js ''/api/v1/prometheus'']"

definition rawPath :: "http_request \<Rightarrow> jstring" where
  "rawPath req = takeWhile (\<lambda>c. c \<noteq> 63) (rq_originalUrl req)"

definition http_metrics_use :: "rat \<Rightarrow> http_request \<Rightarrow> nat \<Rightarrow> metrics \<Rightarrow> metrics" where
  "http_metrics_use now req res M =
     (if rawPath req \<notin> set EXCLUDED_RAW_PATHS then trackHttpRequest now req res M else M)"

section \<open>Traffic\<close>

text \<open>What Node reports, in order: a request arrives with its response object; a response finishes.\<close>

datatype traffic =
    Arrives rat nat http_request
  | Finishes rat nat route_path nat

fun on_traffic :: "metrics \<Rightarrow> traffic \<Rightarrow> metrics" where
  "on_traffic M (Arrives now res req) = http_metrics_use now req res M"
| "on_traffic M (Finishes now res route statusCode) = response_finished now res route statusCode M"

definition no_metrics :: metrics where
  "no_metrics = \<lparr>mt_listeners = [], mt_httpDuration = []\<rparr>"

fun arrivals :: "traffic list \<Rightarrow> nat list" where
  "arrivals [] = []"
| "arrivals (Arrives now res req # es) = res # arrivals es"
| "arrivals (Finishes now res route statusCode # es) = arrivals es"

text \<open>
  The reference: one observation for each response that finishes for the first time after its
  request arrived, unless the request was a scrape of the metrics.
\<close>

fun first_finish :: "rat \<Rightarrow> nat \<Rightarrow> http_request \<Rightarrow> traffic list \<Rightarrow> observation option" where
  "first_finish started res req [] = None"
| "first_finish started res req (Arrives now res' req' # es) = first_finish started res req es"
| "first_finish started res req (Finishes now res' route statusCode # es) =
     (if res' = res then Some \<lparr>ob_method = rq_method req, ob_route = route_label route,
        ob_status_code = digits statusCode, ob_seconds = now - started\<rparr>
      else first_finish started res req es)"

fun measured :: "traffic list \<Rightarrow> observation list" where
  "measured [] = []"
| "measured (Arrives now res req # es) = (if rawPath req = js ''/api/v1/prometheus'' then []
     else case first_finish now res req es of None \<Rightarrow> [] | Some ob \<Rightarrow> [ob]) @ measured es"
| "measured (Finishes now res route statusCode # es) = measured es"

definition pending :: "traffic list \<Rightarrow> listener list \<Rightarrow> observation list" where
  "pending es ls = List.map_filter (\<lambda>l. first_finish (ln_started l) (ln_response l) (ln_request l) es) ls"

lemma pending_simps [simp]:
  "pending es [] = []"
  "pending es (l # ls) = (case first_finish (ln_started l) (ln_response l) (ln_request l) es of
     None \<Rightarrow> pending es ls | Some ob \<Rightarrow> ob # pending es ls)"
  "pending es (ls @ ls') = pending es ls @ pending es ls'"
  by (auto simp: pending_def map_filter_def split: option.splits)

lemma pending_arrives [simp]: "pending (Arrives now res req # es) ls = pending es ls"
  by (induction ls) (auto split: option.splits)

lemma pending_none [simp]: "pending [] ls = []"
  by (induction ls) auto

lemma pending_finishes:
  "mset (pending (Finishes now res route statusCode # es) ls) =
     mset (map (stopTimer now route statusCode) (filter (\<lambda>l. ln_response l = res) ls)) +
     mset (pending es (filter (\<lambda>l. ln_response l \<noteq> res) ls))"
  by (induction ls) (auto simp: stopTimer_def split: option.splits)

lemma traffic_measured:
  "mset (mt_httpDuration (foldl on_traffic M es)) =
     mset (mt_httpDuration M) + mset (pending es (mt_listeners M)) + mset (measured es)"
proof (induction es arbitrary: M)
  case (Cons e es)
  show ?case
  proof (cases e)
    case (Arrives now res req)
    then show ?thesis
      by (auto simp: Cons.IH http_metrics_use_def trackHttpRequest_def EXCLUDED_RAW_PATHS_def split: option.splits)
  next
    case (Finishes now res route statusCode)
    then show ?thesis by (simp add: Cons.IH response_finished_def pending_finishes)
  qed
qed simp

text \<open>Values an observation can have.\<close>

definition label_ok :: "jstring set \<Rightarrow> jstring set \<Rightarrow> jstring set \<Rightarrow> observation \<Rightarrow> bool" where
  "label_ok methods routes codes ob \<longleftrightarrow> ob_method ob \<in> methods \<and> ob_route ob \<in> insert (js ''unmatched'') routes \<and>
     ob_status_code ob \<in> codes"

fun traffic_ok :: "jstring set \<Rightarrow> jstring set \<Rightarrow> jstring set \<Rightarrow> traffic \<Rightarrow> bool" where
  "traffic_ok methods routes codes (Arrives now res req) \<longleftrightarrow> rq_method req \<in> methods"
| "traffic_ok methods routes codes (Finishes now res route statusCode) \<longleftrightarrow>
     (\<forall>p. route = RoutePath p \<longrightarrow> p \<in> routes) \<and> digits statusCode \<in> codes"

lemma first_finish_ok:
  assumes "first_finish started res req es = Some ob" and "rq_method req \<in> methods"
    and "list_all (traffic_ok methods routes codes) es"
  shows "label_ok methods routes codes ob"
  using assms
  by (induction started res req es rule: first_finish.induct)
    (simp_all add: label_ok_def route_label_def split: if_splits route_path.splits, auto)

lemma measured_ok:
  assumes "list_all (traffic_ok methods routes codes) es" and "ob \<in> set (measured es)"
  shows "label_ok methods routes codes ob"
  using assms
proof (induction es rule: measured.induct)
  case (2 now res req es)
  then show ?case
    using first_finish_ok [of now res req es ob methods routes codes]
    by (auto split: if_splits option.splits dest: sym)
qed auto

text \<open>
  Every response that finishes is observed exactly once, with the time since its request arrived;
  scrapes of the metrics are not. Whatever URLs are asked for, the label sets are bounded by the
  methods, the declared route patterns (and one for no route) and the status codes.
\<close>

theorem metrics_exact:
  assumes "finite methods" "finite routes" "finite codes"
    and "list_all (traffic_ok methods routes codes) es"
  shows "mset (mt_httpDuration (foldl on_traffic no_metrics es)) = mset (measured es) \<and>
    card ((\<lambda>ob. (ob_method ob, ob_route ob, ob_status_code ob)) ` set (mt_httpDuration (foldl on_traffic no_metrics es))) \<le>
      card methods * (Suc (card routes) * card codes)"
proof -
  have eq: "mset (mt_httpDuration (foldl on_traffic no_metrics es)) = mset (measured es)"
    by (simp add: traffic_measured no_metrics_def)
  let ?R = "insert (js ''unmatched'') routes"
  have "(\<lambda>ob. (ob_method ob, ob_route ob, ob_status_code ob)) ` set (mt_httpDuration (foldl on_traffic no_metrics es)) \<subseteq>
      methods \<times> ?R \<times> codes"
    using measured_ok [OF assms(4)] mset_eq_setD [OF eq] by (auto simp: label_ok_def)
  then have "card ((\<lambda>ob. (ob_method ob, ob_route ob, ob_status_code ob)) `
      set (mt_httpDuration (foldl on_traffic no_metrics es))) \<le> card (methods \<times> ?R \<times> codes)"
    using assms(1-3) by (intro card_mono) auto
  also have "\<dots> = card methods * (card ?R * card codes)" by (simp add: card_cartesian_product)
  also have "\<dots> \<le> card methods * (Suc (card routes) * card codes)"
    by (intro mult_le_mono) (auto simp: card_insert_le_m1 card_insert_if assms(2))
  finally show ?thesis using eq by simp
qed

definition sample_get :: "string \<Rightarrow> http_request" where
  "sample_get url = \<lparr>rq_method = js ''GET'', rq_originalUrl = js url, rq_url = js url, rq_tenantHeader = HeaderAbsent,
     rq_idHeader = HeaderAbsent, rq_requestId = None, rq_id = None, rq_bearer = None, rq_ip = None, rq_userAgent = None\<rparr>"

lemma metrics_exact_witness:
  "map ob_route (mt_httpDuration (foldl on_traffic no_metrics
     [Arrives 0 1 (sample_get ''/api/v1/products/7?x=1''), Arrives 1 2 (sample_get ''/api/v1/prometheus''),
      Arrives 2 3 (sample_get ''/nowhere''), Finishes 3 3 NoRoute 404, Finishes 4 2 NoRoute 200,
      Finishes 5 1 (RoutePath (js ''/api/v1/products/:id'')) 200, Finishes 6 1 NoRoute 200])) =
     [js ''unmatched'', js ''/api/v1/products/:id'']"
proof -
  let ?es = "[Arrives 0 1 (sample_get ''/api/v1/products/7?x=1''), Arrives 1 2 (sample_get ''/api/v1/prometheus''),
      Arrives 2 3 (sample_get ''/nowhere''), Finishes 3 3 NoRoute 404, Finishes 4 2 NoRoute 200,
      Finishes 5 1 (RoutePath (js ''/api/v1/products/:id'')) 200, Finishes 6 1 NoRoute 200]"
  have "list_all (traffic_ok {js ''GET''} {js ''/api/v1/products/:id''} {js ''200'', js ''404''}) ?es"
    by (simp add: sample_get_def js_def digits.simps)
  with metrics_exact [of "{js ''GET''}" "{js ''/api/v1/products/:id''}" "{js ''200'', js ''404''}" ?es]
  have "size (mset (mt_httpDuration (foldl on_traffic no_metrics ?es))) = size (mset (measured ?es))" by simp
  then show ?thesis by code_simp
qed

section \<open>The identifier of a request\<close>

text \<open>\<open>genReqId\<close>: what pino takes as the identifier of a request; \<open>fresh\<close> is \<open>randomUUID()\<close>.\<close>

definition genReqId :: "jstring \<Rightarrow> http_request \<Rightarrow> jstring" where
  "genReqId fresh req = (case rq_idHeader req of
     HeaderOne incoming \<Rightarrow> if 0 < length incoming then incoming else fresh
   | _ \<Rightarrow> fresh)"

text \<open>The \<open>requestId\<close> of a logged request.\<close>

definition logged_requestId :: "http_request \<Rightarrow> jstring option" where
  "logged_requestId req = (case truthy (rq_id req) of Some i \<Rightarrow> Some i | None \<Rightarrow> rq_requestId req)"

definition redacted_paths :: "jstring list" where
  "redacted_paths = [js ''req.headers.authorization'', js ''req.headers.cookie'']"

text \<open>
  The log middleware puts \<open>genReqId\<close> on the request, then \<open>RequestIdMiddleware\<close> runs: the log
  lines, the response header and the audit records of a request carry one identifier.
\<close>

theorem request_correlated:
  assumes "rq_requestId req = None" and "fresh \<noteq> []"
    and "logged = req\<lparr>rq_id := Some (genReqId fresh req)\<rparr>" and "i = request_id fresh' logged"
  shows "logged_requestId (logged\<lparr>rq_requestId := Some i\<rparr>) = Some i \<and>
    (\<forall>incoming. rq_idHeader req = HeaderOne incoming \<and> incoming \<noteq> [] \<longrightarrow> i = incoming)"
  using assms by (auto simp: genReqId_def request_id_def logged_requestId_def truthy_def split: header.splits)

section \<open>The TypeORM logger\<close>

datatype log_level = LogDebug | LogInfo | LogWarn | LogError

text \<open>The levels are ordered; a logger prints the lines at its level and above.\<close>

fun severity :: "log_level \<Rightarrow> nat" where
  "severity LogDebug = 0"
| "severity LogInfo = 1"
| "severity LogWarn = 2"
| "severity LogError = 3"

lemma severity_inject: "severity a = severity b \<longleftrightarrow> a = b"
  by (cases a; cases b) simp_all

instantiation log_level :: linorder
begin

definition less_eq_log_level :: "log_level \<Rightarrow> log_level \<Rightarrow> bool" where
  "less_eq_log_level a b \<longleftrightarrow> severity a \<le> severity b"

definition less_log_level :: "log_level \<Rightarrow> log_level \<Rightarrow> bool" where
  "less_log_level a b \<longleftrightarrow> severity a < severity b"

instance
  by standard (auto simp: less_eq_log_level_def less_log_level_def severity_inject)

end

definition pino_level :: "env \<Rightarrow> log_level" where
  "pino_level E = (let isDev = (config_get E (js ''NODE_ENV'') = js ''development'')
     in if isDev then LogDebug else LogInfo)"

definition printed :: "env \<Rightarrow> log_level \<times> 'line \<Rightarrow> bool" where
  "printed E line \<longleftrightarrow> pino_level E \<le> fst line"

definition query_text :: "env \<Rightarrow> string \<Rightarrow> jstring \<Rightarrow> jval list option \<Rightarrow> jstring" where
  "query_text E prefix query parameters = js prefix @ query @ js '' -- parameters: '' @
     json_stringify E (JArr (or_default parameters []))"

definition logQuery :: "env \<Rightarrow> jstring \<Rightarrow> jval list option \<Rightarrow> log_level \<times> jstring" where
  "logQuery E query parameters = (LogDebug, query_text E ''query: '' query parameters)"

text \<open>An error is a text or an \<open>Error\<close>, of which the stack is printed.\<close>

datatype query_error = ErrorText jstring | ErrorObject jstring

definition logQueryError ::
  "env \<Rightarrow> query_error \<Rightarrow> jstring \<Rightarrow> jval list option \<Rightarrow> log_level \<times> jstring \<times> jstring" where
  "logQueryError E error query parameters = (LogError, query_text E ''query failed: '' query parameters,
     case error of ErrorObject stack \<Rightarrow> stack | ErrorText text \<Rightarrow> text)"

definition logQuerySlow :: "env \<Rightarrow> nat \<Rightarrow> jstring \<Rightarrow> jval list option \<Rightarrow> log_level \<times> jstring" where
  "logQuerySlow E time query parameters = (LogWarn, js ''query is slow: '' @ digits time @
     query_text E ''ms -- query: '' query parameters)"

definition logSchemaBuild :: "jstring \<Rightarrow> log_level \<times> jstring" where
  "logSchemaBuild message = (LogInfo, message)"

definition logMigration :: "jstring \<Rightarrow> log_level \<times> jstring" where
  "logMigration message = (LogInfo, message)"

definition typeorm_log :: "jstring \<Rightarrow> jstring \<Rightarrow> (log_level \<times> jstring) option" where
  "typeorm_log level message =
     (if level = js ''log'' \<or> level = js ''info'' then Some (LogInfo, message)
      else if level = js ''warn'' then Some (LogWarn, message) else None)"

text \<open>
  The text of a query (with its parameters: names, addresses, password hashes) is printed in
  development only, unless the query failed or was slow.
\<close>

theorem queries_printed:
  "(printed E (logQuery E query parameters) \<longleftrightarrow> config_get E (js ''NODE_ENV'') = js ''development'') \<and>
   printed E (logQuerySlow E time query parameters) \<and> printed E (logQueryError E error query parameters) \<and>
   printed E (logSchemaBuild message) \<and> printed E (logMigration message)"
  by (simp add: printed_def pino_level_def logQuery_def logQuerySlow_def logQueryError_def logSchemaBuild_def
      logMigration_def less_eq_log_level_def)

end
